theory Spec2Isabelle
  imports Complex_Main
begin

section \<open>JavaScript values used by the audit code\<close>

text \<open>
  A JavaScript string is a sequence of UTF-16 code units. The code units are kept as
  integers, so that Hebrew keywords (U+05D0 .. U+05EA) and ASCII text live in one type.
  \<open>js\<close> turns an ASCII literal into such a string.
\<close>

type_synonym jstring = "int list"

definition js :: "string \<Rightarrow> jstring" where
  "js s = map of_char s"

abbreviation he_alef :: int where "he_alef \<equiv> 1488"
abbreviation he_bet :: int where "he_bet \<equiv> 1489"
abbreviation he_gimel :: int where "he_gimel \<equiv> 1490"
abbreviation he_dalet :: int where "he_dalet \<equiv> 1491"
abbreviation he_he :: int where "he_he \<equiv> 1492"
abbreviation he_vav :: int where "he_vav \<equiv> 1493"
abbreviation he_zayin :: int where "he_zayin \<equiv> 1494"
abbreviation he_het :: int where "he_het \<equiv> 1495"
abbreviation he_tet :: int where "he_tet \<equiv> 1496"
abbreviation he_yod :: int where "he_yod \<equiv> 1497"
abbreviation he_final_kaf :: int where "he_final_kaf \<equiv> 1498"
abbreviation he_kaf :: int where "he_kaf \<equiv> 1499"
abbreviation he_lamed :: int where "he_lamed \<equiv> 1500"
abbreviation he_final_mem :: int where "he_final_mem \<equiv> 1501"
abbreviation he_mem :: int where "he_mem \<equiv> 1502"
abbreviation he_final_nun :: int where "he_final_nun \<equiv> 1503"
abbreviation he_nun :: int where "he_nun \<equiv> 1504"
abbreviation he_samekh :: int where "he_samekh \<equiv> 1505"
abbreviation he_ayin :: int where "he_ayin \<equiv> 1506"
abbreviation he_pe :: int where "he_pe \<equiv> 1508"
abbreviation he_tsadi :: int where "he_tsadi \<equiv> 1510"
abbreviation he_qof :: int where "he_qof \<equiv> 1511"
abbreviation he_resh :: int where "he_resh \<equiv> 1512"
abbreviation he_shin :: int where "he_shin \<equiv> 1513"
abbreviation he_tav :: int where "he_tav \<equiv> 1514"

text \<open>
  White space as \<open>String.prototype.trim\<close> and the regular expression class \<open>\s\<close> read it
  (ECMAScript WhiteSpace and LineTerminator).
\<close>

definition isWhiteSpace :: "int \<Rightarrow> bool" where
  "isWhiteSpace c =
     (c \<in> set [9, 10, 11, 12, 13, 32, 160, 5760, 8232, 8233, 8239, 8287, 12288, 65279]
      \<or> (8192 \<le> c \<and> c \<le> 8202))"

definition isDigit :: "int \<Rightarrow> bool" where
  "isDigit c = (48 \<le> c \<and> c \<le> 57)"

text \<open>
  \<open>toLowerCase\<close> maps the ASCII capitals, and the two other code units whose lower case
  holds an ASCII letter: the Kelvin sign U+212A becomes k, and U+0130 becomes i followed by
  U+0307. Every other code unit is left as it is. The keywords and the detected tokens
  consist of ASCII and Hebrew (which has no case), so whether a lowered text contains one of
  them is as in JavaScript; the comparison of two texts that both hold other cased letters
  is exact when their case agrees. The case-insensitive flag of a non-Unicode regular
  expression never maps a non-ASCII code unit to an ASCII one.
\<close>

definition lowerUnits :: "int \<Rightarrow> jstring" where
  "lowerUnits c =
     (if 65 \<le> c \<and> c \<le> 90 then [c + 32]
      else if c = 8490 then [107]
      else if c = 304 then [105, 775]
      else [c])"

definition upperUnit :: "int \<Rightarrow> int" where
  "upperUnit c = (if 97 \<le> c \<and> c \<le> 122 then c - 32 else c)"

definition toLowerCase :: "jstring \<Rightarrow> jstring" where
  "toLowerCase s = concat (map lowerUnits s)"

definition trim :: "jstring \<Rightarrow> jstring" where
  "trim s = rev (dropWhile isWhiteSpace (rev (dropWhile isWhiteSpace s)))"

fun js_startsWith :: "jstring \<Rightarrow> jstring \<Rightarrow> bool" where
  "js_startsWith s [] = True"
| "js_startsWith [] (p # ps) = False"
| "js_startsWith (c # cs) (p # ps) = (c = p \<and> js_startsWith cs ps)"

text \<open>\<open>s.includes(p)\<close>: \<open>p\<close> occurs in \<open>s\<close> as a contiguous substring.\<close>

fun js_includes :: "jstring \<Rightarrow> jstring \<Rightarrow> bool" where
  "js_includes [] p = (p = [])"
| "js_includes (c # cs) p = (js_startsWith (c # cs) p \<or> js_includes cs p)"

text \<open>Truthiness of an optional string: \<open>undefined\<close> and the empty string are falsy.\<close>

definition truthy :: "jstring option \<Rightarrow> bool" where
  "truthy v = (case v of None \<Rightarrow> False | Some s \<Rightarrow> s \<noteq> [])"

text \<open>\<open>[...new Set(xs)]\<close>: the first occurrence of every element, in order.\<close>

definition uniq :: "'a list \<Rightarrow> 'a list" where
  "uniq xs = rev (fold (\<lambda>x acc. if x \<in> set acc then acc else x # acc) xs [])"

text \<open>Decimal rendering of an integer, as string concatenation with a number gives it.\<close>

function showPos :: "int \<Rightarrow> jstring" where
  "showPos n = (if n < 10 then [48 + n] else showPos (n div 10) @ [48 + n mod 10])"
  by pat_completeness auto
termination
  by (relation "measure nat") auto

definition showDec :: "int \<Rightarrow> jstring" where
  "showDec i = (if i < 0 then 45 # showPos (- i) else showPos i)"

text \<open>\<open>String(n).padStart(2, '0')\<close>.\<close>

definition padStart2 :: "jstring \<Rightarrow> jstring" where
  "padStart2 s = replicate (2 - length s) 48 @ s"

text \<open>
  \<open>parseInt(s)\<close> without a radix: leading white space, an optional sign, an optional
  \<open>0x\<close> prefix, then the longest prefix of digits; \<open>None\<close> is \<open>NaN\<close>.
\<close>

definition digitVal :: "int \<Rightarrow> int \<Rightarrow> int option" where
  "digitVal radix c =
     (let v = (if 48 \<le> c \<and> c \<le> 57 then c - 48
               else if 97 \<le> c \<and> c \<le> 122 then c - 87
               else if 65 \<le> c \<and> c \<le> 90 then c - 55
               else 99)
      in if v < radix then Some v else None)"

fun parseDigits :: "int \<Rightarrow> int option \<Rightarrow> jstring \<Rightarrow> int option" where
  "parseDigits radix acc [] = acc"
| "parseDigits radix acc (c # cs) =
     (case digitVal radix c of
        None \<Rightarrow> acc
      | Some v \<Rightarrow> parseDigits radix (Some ((case acc of None \<Rightarrow> 0 | Some a \<Rightarrow> a) * radix + v)) cs)"

definition parseInt :: "jstring \<Rightarrow> int option" where
  "parseInt s =
     (let s1 = dropWhile isWhiteSpace s;
          neg = (case s1 of c # _ \<Rightarrow> c = 45 | [] \<Rightarrow> False);
          s2 = (case s1 of c # cs \<Rightarrow> if c = 45 \<or> c = 43 then cs else s1 | [] \<Rightarrow> s1);
          hex = (js_startsWith s2 (js ''0x'') \<or> js_startsWith s2 (js ''0X''));
          r = (if hex then parseDigits 16 None (drop 2 s2) else parseDigits 10 None s2)
      in map_option (\<lambda>v. if neg then - v else v) r)"

text \<open>\<open>s.split(/[\/\-\.]/)\<close>: the pieces between the separator characters.\<close>

fun splitOn :: "(int \<Rightarrow> bool) \<Rightarrow> jstring \<Rightarrow> jstring \<Rightarrow> jstring list" where
  "splitOn sep cur [] = [rev cur]"
| "splitOn sep cur (c # cs) =
     (if sep c then rev cur # splitOn sep [] cs else splitOn sep (c # cur) cs)"

definition isDateSeparator :: "int \<Rightarrow> bool" where
  "isDateSeparator c = (c = 47 \<or> c = 45 \<or> c = 46)"


subsection \<open>IEEE doubles\<close>

text \<open>
  JavaScript numbers are IEEE 754 doubles. A double is modelled by the real number it
  denotes, and an operation of the code that is not exact by the exact operation followed
  by \<open>roundDouble\<close>: rounding to the nearest number with a significand of 53 bits, ties
  to the even significand. A decimal literal of the code such as \<open>0.3\<close> denotes
  \<open>roundDouble 0.3\<close>. The exponent is not bounded: a value rounded here is zero or at
  least 0.1, and at most 100 or a count times a weight, a count being the length of an
  array, so none is subnormal and none overflows.

  \<open>bitLength n\<close> is the number of binary digits of \<open>n\<close>, and \<open>exponentOf x\<close> the
  exponent \<open>e\<close> with \<open>2^e \<le> x < 2^(e+1)\<close>, for positive \<open>x\<close>.
\<close>

function bitLength :: "int \<Rightarrow> int" where
  "bitLength n = (if n \<le> 0 then 0 else 1 + bitLength (n div 2))"
  by auto
termination by (relation "measure nat") auto

declare bitLength.simps [simp del]

definition exponentOf :: "real \<Rightarrow> int" where
  "exponentOf x = (if 1 \<le> x then bitLength \<lfloor>x\<rfloor> - 1 else - bitLength (\<lceil>1 / x\<rceil> - 1))"

definition roundTiesToEven :: "real \<Rightarrow> int" where
  "roundTiesToEven x =
     (let f = \<lfloor>x\<rfloor>
      in if x - of_int f < 1 / 2 then f
         else if 1 / 2 < x - of_int f then f + 1
         else if even f then f else f + 1)"

definition roundDouble :: "real \<Rightarrow> real" where
  "roundDouble x =
     (if x = 0 then 0
      else let u = 2 powi (exponentOf \<bar>x\<bar> - 52)
           in sgn x * (of_int (roundTiesToEven (\<bar>x\<bar> / u)) * u))"

section \<open>Regular expressions\<close>

text \<open>
  The patterns of the detector use literals, character classes, alternation, optional
  groups and bounded or unbounded greedy repetition of a character class. \<open>rmatch r s\<close>
  lists, in the order a backtracking matcher tries them, the remainders of \<open>s\<close> after
  every way \<open>r\<close> can match a prefix of \<open>s\<close>; the first is the match JavaScript reports.
\<close>

datatype citem = Chr int | ChrI int | Rng int int | Digit | Space

datatype cclass = Cls "citem list" | NotCls "citem list"

fun in_item :: "citem \<Rightarrow> int \<Rightarrow> bool" where
  "in_item (Chr p) c = (c = p)"
| "in_item (ChrI p) c = (upperUnit c = upperUnit p)"
| "in_item (Rng lo hi) c = (lo \<le> c \<and> c \<le> hi)"
| "in_item Digit c = isDigit c"
| "in_item Space c = isWhiteSpace c"

fun in_class :: "cclass \<Rightarrow> int \<Rightarrow> bool" where
  "in_class (Cls its) c = list_ex (\<lambda>i. in_item i c) its"
| "in_class (NotCls its) c = (\<not> list_ex (\<lambda>i. in_item i c) its)"

datatype regex =
    Eps
  | Atom cclass
  | Seq regex regex
  | Alt regex regex
  | Opt regex
  | Rep nat "nat option" cclass

text \<open>Greedy repetition \<open>{lo,hi}\<close> of a class (\<open>hi = None\<close>: unbounded), longest first.\<close>

fun rep :: "cclass \<Rightarrow> nat \<Rightarrow> nat option \<Rightarrow> jstring \<Rightarrow> jstring list" where
  "rep cl lo hi [] = (if lo = 0 then [[]] else [])"
| "rep cl lo hi (c # cs) =
     (if in_class cl c \<and> hi \<noteq> Some 0
      then rep cl (lo - 1) (map_option (\<lambda>h. h - 1) hi) cs
      else []) @ (if lo = 0 then [c # cs] else [])"

fun rmatch :: "regex \<Rightarrow> jstring \<Rightarrow> jstring list" where
  "rmatch Eps s = [s]"
| "rmatch (Atom cl) [] = []"
| "rmatch (Atom cl) (c # cs) = (if in_class cl c then [cs] else [])"
| "rmatch (Seq a b) s = concat (map (rmatch b) (rmatch a s))"
| "rmatch (Alt a b) s = rmatch a s @ rmatch b s"
| "rmatch (Opt a) s = rmatch a s @ [s]"
| "rmatch (Rep lo hi cl) s = rep cl lo hi s"

text \<open>The text matched at the start of \<open>s\<close>, if any.\<close>

definition matchAt :: "regex \<Rightarrow> jstring \<Rightarrow> jstring option" where
  "matchAt r s =
     (case rmatch r s of
        [] \<Rightarrow> None
      | rest # _ \<Rightarrow> Some (take (length s - length rest) s))"

text \<open>
  \<open>s.match(r)\<close> for a pattern with the \<open>g\<close> flag: every match, left to right, the search
  resuming after the previous match (one code unit further after an empty match).
  The first argument of \<open>scan\<close> counts the code units still covered by the last match.
\<close>

fun scan :: "regex \<Rightarrow> nat \<Rightarrow> jstring \<Rightarrow> jstring list" where
  "scan r (Suc n) [] = []"
| "scan r 0 [] = (case matchAt r [] of None \<Rightarrow> [] | Some m \<Rightarrow> [m])"
| "scan r (Suc n) (c # cs) = scan r n cs"
| "scan r 0 (c # cs) =
     (case matchAt r (c # cs) of
        None \<Rightarrow> scan r 0 cs
      | Some m \<Rightarrow> m # scan r (length m - 1) cs)"

definition matchAll :: "regex \<Rightarrow> jstring \<Rightarrow> jstring list" where
  "matchAll r s = scan r 0 s"

text \<open>\<open>s.match(r)\<close> without the \<open>g\<close> flag: the leftmost match.\<close>

fun firstMatch :: "regex \<Rightarrow> jstring \<Rightarrow> jstring option" where
  "firstMatch r [] = matchAt r []"
| "firstMatch r (c # cs) =
     (case matchAt r (c # cs) of Some m \<Rightarrow> Some m | None \<Rightarrow> firstMatch r cs)"

text \<open>\<open>r.test(s)\<close> for a pattern without the \<open>g\<close> flag.\<close>

definition regexTest :: "regex \<Rightarrow> jstring \<Rightarrow> bool" where
  "regexTest r s = (firstMatch r s \<noteq> None)"

text \<open>\<open>s.replace(r, '')\<close> for a pattern with the \<open>g\<close> flag: every match removed.\<close>

fun removeAll :: "regex \<Rightarrow> nat \<Rightarrow> jstring \<Rightarrow> jstring" where
  "removeAll r n [] = []"
| "removeAll r (Suc n) (c # cs) = removeAll r n cs"
| "removeAll r 0 (c # cs) =
     (case matchAt r (c # cs) of
        None \<Rightarrow> c # removeAll r 0 cs
      | Some m \<Rightarrow> (if m = [] then c # removeAll r 0 cs else removeAll r (length m - 1) cs))"

text \<open>\<open>s.replace(r, '')\<close> for a pattern anchored with \<open>^\<close>: a match at the start removed.\<close>

definition removePrefix :: "regex \<Rightarrow> jstring \<Rightarrow> jstring" where
  "removePrefix r s = (case rmatch r s of [] \<Rightarrow> s | rest # _ \<Rightarrow> rest)"

definition lit :: "jstring \<Rightarrow> regex" where
  "lit s = foldr (\<lambda>c r. Seq (Atom (Cls [Chr c])) r) s Eps"

definition liti :: "jstring \<Rightarrow> regex" where
  "liti s = foldr (\<lambda>c r. Seq (Atom (Cls [ChrI c])) r) s Eps"

fun alts :: "regex list \<Rightarrow> regex" where
  "alts [] = Atom (Cls [])"
| "alts [r] = r"
| "alts (r # rs) = Alt r (alts rs)"

fun seqs :: "regex list \<Rightarrow> regex" where
  "seqs [] = Eps"
| "seqs [r] = r"
| "seqs (r # rs) = Seq r (seqs rs)"

abbreviation digits :: "nat \<Rightarrow> nat \<Rightarrow> regex" where
  "digits lo hi \<equiv> Rep lo (Some hi) (Cls [Digit])"

abbreviation spaces1 :: regex where
  "spaces1 \<equiv> Rep 1 None (Cls [Space])"

abbreviation space01 :: regex where
  "space01 \<equiv> Rep 0 (Some 1) (Cls [Space])"

abbreviation spaces0 :: regex where
  "spaces0 \<equiv> Rep 0 None (Cls [Space])"


section \<open>Dates\<close>

text \<open>
  A \<open>Date\<close> is read by the audited code only through its local calendar day
  (\<open>toDateString\<close>, \<open>getDate\<close>, \<open>getDay\<close>) and its local hours and minutes, so a valid
  date is a day number (days since 1 January 1970, local time) with hours and minutes;
  \<open>InvalidDate\<close> is the date whose time value is \<open>NaN\<close>.
\<close>

record localtime =
  day :: int
  hours :: int
  minutes :: int

datatype js_date = InvalidDate | ValidDate localtime

text \<open>The day number of a civil date (month 1..12), proleptic Gregorian calendar.\<close>

definition daysFromCivil :: "int \<Rightarrow> int \<Rightarrow> int \<Rightarrow> int" where
  "daysFromCivil y m d =
     (let y' = (if m \<le> 2 then y - 1 else y);
          era = y' div 400;
          yoe = y' - era * 400;
          doy = (153 * (if m > 2 then m - 3 else m + 9) + 2) div 5 + d - 1;
          doe = yoe * 365 + yoe div 4 - yoe div 100 + doy
      in era * 146097 + doe - 719468)"

text \<open>
  \<open>new Date(year, month, date)\<close>: a \<open>NaN\<close> argument gives an invalid date, a year
  0..99 means 1900 + year, month and date outside their ranges roll over into the
  neighbouring months and years (ECMAScript MakeDay), and a time value beyond
  \<open>8.64e15\<close> milliseconds is invalid (TimeClip).
\<close>

definition newDateYMD :: "int option \<Rightarrow> int option \<Rightarrow> int option \<Rightarrow> js_date" where
  "newDateYMD year month date =
     (case (year, month, date) of
        (Some y, Some m, Some d) \<Rightarrow>
          (let yr = (if 0 \<le> y \<and> y \<le> 99 then 1900 + y else y);
               ym = yr + m div 12;
               mn = m mod 12;
               dn = daysFromCivil ym (mn + 1) 1 + d - 1
           in if \<bar>dn\<bar> \<le> 100000000 then ValidDate \<lparr>day = dn, hours = 0, minutes = 0\<rparr>
              else InvalidDate)
      | _ \<Rightarrow> InvalidDate)"

text \<open>\<open>d.getDay()\<close>: 0 is Sunday; 1 January 1970 was a Thursday.\<close>

definition getDay :: "localtime \<Rightarrow> int" where
  "getDay t = (day t + 4) mod 7"

text \<open>\<open>d.setDate(d.getDate() + n)\<close>: the same local time, \<open>n\<close> days later.\<close>

definition addDays :: "localtime \<Rightarrow> int \<Rightarrow> localtime" where
  "addDays t n = t\<lparr>day := day t + n\<rparr>"

text \<open>\<open>new Date(d.toDateString())\<close>: local midnight of the day of \<open>d\<close>.\<close>

definition dateOnly :: "js_date \<Rightarrow> js_date" where
  "dateOnly d =
     (case d of
        InvalidDate \<Rightarrow> InvalidDate
      | ValidDate t \<Rightarrow> ValidDate \<lparr>day = day t, hours = 0, minutes = 0\<rparr>)"

text \<open>\<open>a.getTime() === b.getTime()\<close>: \<open>NaN\<close> equals nothing.\<close>

definition sameTime :: "js_date \<Rightarrow> js_date \<Rightarrow> bool" where
  "sameTime a b =
     (case a of
        InvalidDate \<Rightarrow> False
      | ValidDate s \<Rightarrow> (case b of InvalidDate \<Rightarrow> False | ValidDate t \<Rightarrow> s = t))"

text \<open>\<open>d.getHours() + ':' + String(d.getMinutes()).padStart(2, '0')\<close>.\<close>

definition clockString :: "js_date \<Rightarrow> jstring" where
  "clockString d =
     (case d of
        InvalidDate \<Rightarrow> js ''NaN:NaN''
      | ValidDate t \<Rightarrow> showDec (hours t) @ js '':'' @ padStart2 (showDec (minutes t)))"

text \<open>
  The clock of a run: the local time \<open>new Date()\<close> returns and \<open>Date.now()\<close> in
  milliseconds.
\<close>

record clock =
  nowLocal :: localtime
  nowMs :: int

section \<open>KeywordDetector (keyword-detector.js)\<close>

text \<open>The messages handed to the detector, and the detections it returns.\<close>

record message =
  m_id :: "jstring option"
  m_text :: "jstring option"
  m_timestamp :: real
  m_senderName :: "jstring option"
  m_senderId :: "jstring option"
  m_chatId :: "jstring option"

text \<open>
  \<open>m_timestamp\<close> is in Unix seconds; 0 stands for a missing timestamp as well (both are
  falsy in \<open>message.timestamp || ...\<close>).
\<close>

text \<open>
  JSON values, as \<open>JSON.parse\<close> returns them: the verdict of the language model is
  built from one, and its optional fields keep whatever value the model sent.
\<close>

datatype json =
    JNull
  | JBool bool
  | JNum real
  | JStr jstring
  | JArr "json list"
  | JObj "(jstring \<times> json) list"

text \<open>
  The result of the language-model analysis (\<open>LLMAnalysisResult\<close>). The confidence is a
  JavaScript number: \<open>None\<close> is \<open>NaN\<close>.
\<close>

record verdict =
  isValidMeeting :: bool
  llm_confidence :: "real option"
  extractedDateTime :: "json option"
  extractedLocation :: "json option"
  extractedParticipants :: "json option"
  meetingType :: "json option"
  reasoning :: json

record detection =
  det_id :: jstring
  messageId :: "jstring option"
  chatId :: "jstring option"
  senderName :: "jstring option"
  extractedText :: jstring
  detectedKeywords :: "jstring list"
  detectedDate :: "jstring option"
  detectedTime :: "jstring option"
  detectedNames :: "jstring list option"
  parsedDates :: "js_date list"
  confidence :: real
  timestamp :: real
  llmAnalysis :: "verdict option"
  llmDateTime :: "json option"
  llmLocation :: "json option"
  llmParticipants :: "json option"
  llmMeetingType :: "json option"

subsection \<open>Keyword lists and patterns\<close>

definition tok_machar :: jstring where "tok_machar = [he_mem, he_het, he_resh]"
definition tok_hayom :: jstring where "tok_hayom = [he_he, he_yod, he_vav, he_final_mem]"
definition tok_rishon :: jstring where "tok_rishon = [he_resh, he_alef, he_shin, he_vav, he_final_nun]"
definition tok_sheni :: jstring where "tok_sheni = [he_shin, he_nun, he_yod]"
definition tok_shlishi :: jstring where "tok_shlishi = [he_shin, he_lamed, he_yod, he_shin, he_yod]"
definition tok_revii :: jstring where "tok_revii = [he_resh, he_bet, he_yod, he_ayin, he_yod]"
definition tok_hamishi :: jstring where "tok_hamishi = [he_het, he_mem, he_yod, he_shin, he_yod]"
definition tok_shishi :: jstring where "tok_shishi = [he_shin, he_yod, he_shin, he_yod]"
definition tok_shabbat :: jstring where "tok_shabbat = [he_shin, he_bet, he_tav]"
definition tok_hashavua :: jstring where "tok_hashavua = [he_he, he_shin, he_bet, he_vav, he_ayin]"
definition tok_haba :: jstring where "tok_haba = [he_he, he_bet, he_alef]"
definition tok_boker :: jstring where "tok_boker = [he_bet, he_vav, he_qof, he_resh]"
definition tok_tsohorayim :: jstring where
  "tok_tsohorayim = [he_tsadi, he_he, he_resh, he_yod, he_yod, he_final_mem]"
definition tok_ahar :: jstring where "tok_ahar = [he_alef, he_het, he_resh]"
definition tok_erev :: jstring where "tok_erev = [he_ayin, he_resh, he_bet]"
definition tok_ahhats :: jstring where "tok_ahhats = [he_alef, he_het, he_he, 34, he_tsadi]"
definition tok_im :: jstring where "tok_im = [he_ayin, he_final_mem]"

definition hebrewKeywords :: "jstring list" where
  "hebrewKeywords =
    [[he_pe, he_gimel, he_yod, he_shin, he_he], [he_mem, he_pe, he_gimel, he_shin],
     [he_pe, he_gimel, he_yod, he_shin, he_tav], [he_nun, he_pe, he_gimel, he_shin],
     [he_lamed, he_he, he_yod, he_pe, he_gimel, he_shin],
     [he_mem, he_yod, he_nun, he_vav, he_yod], [he_tav, he_vav, he_resh],
     [he_zayin, he_mem, he_final_nun], [he_mem, he_het, he_resh],
     [he_he, he_yod, he_vav, he_final_mem], [he_shin, he_ayin, he_he],
     [he_bet, he_vav, he_qof, he_resh],
     [he_tsadi, he_he, he_resh, he_yod, he_yod, he_final_mem],
     [he_alef, he_het, he_resh] @ js '' '' @ [he_he, he_tsadi, he_he, he_resh, he_yod, he_yod, he_final_mem],
     [he_ayin, he_resh, he_bet], [he_resh, he_alef, he_shin, he_vav, he_final_nun],
     [he_shin, he_nun, he_yod], [he_shin, he_lamed, he_yod, he_shin, he_yod],
     [he_resh, he_bet, he_yod, he_ayin, he_yod], [he_het, he_mem, he_yod, he_shin, he_yod],
     [he_shin, he_yod, he_shin, he_yod], [he_shin, he_bet, he_tav],
     [he_bet, he_yod, he_vav, he_final_mem], [he_tav, he_alef, he_resh, he_yod, he_final_kaf],
     [he_mem, he_vav, he_ayin, he_dalet], [he_nun, he_qof, he_bet, he_ayin],
     [he_qof, he_vav, he_bet, he_ayin, he_yod, he_final_mem],
     [he_lamed, he_qof, he_bet, he_vav, he_ayin], [he_lamed, he_tav, he_alef, he_final_mem],
     [he_lamed, he_zayin, he_mem, he_final_nun], [he_tet, he_yod, he_pe, he_vav, he_lamed],
     [he_alef, he_vav, he_samekh, he_tav, he_alef, he_vav, he_pe, he_tav, he_yod, he_he],
     [he_alef, he_vav, he_samekh, he_tav, he_alef, he_vav, he_pe, he_tet, he_yod, he_he],
     [he_kaf, he_alef, he_bet], [he_gimel, he_bet], [he_resh, he_vav, he_pe, he_alef],
     [he_dalet, he_vav, he_qof, he_tet, he_vav, he_resh],
     [he_qof, he_lamed, he_yod, he_nun, he_yod, he_qof, he_he],
     [he_bet, he_dalet, he_yod, he_qof, he_he], [he_tav, he_vav, he_resh],
     [he_bet, he_samekh, he_dalet, he_resh], [he_mem, he_vav, he_kaf, he_final_nun],
     [he_mem, he_vav, he_kaf, he_nun, he_he], [he_tet, he_vav, he_bet],
     [he_nun, he_he, he_dalet, he_resh], [he_mem, he_vav, he_shin, he_lamed, he_final_mem],
     [he_alef, he_vav, he_qof, he_yod, he_yod],
     [he_mem, he_samekh, he_kaf, he_yod, he_final_mem],
     [he_mem, he_samekh, he_kaf, he_yod, he_mem, he_he], [he_nun, he_pe, he_lamed, he_alef],
     [he_yod, he_vav, he_pe, he_yod], [he_samekh, he_bet, he_bet, he_he],
     [he_tav, he_mem, he_yod, he_final_mem],
     [he_nun, he_pe, he_gimel, he_shin, he_yod, he_final_mem],
     [he_nun, he_pe, he_gimel, he_shin], [he_nun, he_pe, he_gimel, he_shin, he_tav],
     [he_nun, he_yod, he_pe, he_gimel, he_shin],
     [he_lamed, he_he, he_yod, he_pe, he_gimel, he_shin],
     [he_nun, he_pe, he_gimel, he_yod, he_shin, he_he],
     [he_alef, he_nun, he_het, he_nun, he_vav], [he_yod, he_he, he_yod, he_he],
     [he_yod, he_kaf, he_vav, he_lamed], [he_yod, he_kaf, he_vav, he_lamed, he_he],
     [he_nun, he_vav, he_kaf, he_lamed], [he_bet, he_vav, he_alef, he_vav],
     [he_tav, he_final_nun], [he_tav, he_nun, he_yod],
     [he_mem, he_tav, he_alef, he_yod, he_final_mem],
     [he_mem, he_tav, he_alef, he_yod, he_mem, he_he], [he_nun, he_vav, he_het],
     [he_nun, he_vav, he_het, he_he], [he_alef, he_pe, he_shin, he_resh],
     [he_alef, he_pe, he_shin, he_resh, he_yod], [he_alef, he_tsadi, he_lamed],
     [he_bet, he_bet, he_yod, he_tav], [he_bet, he_mem, he_shin, he_resh, he_dalet],
     [he_bet, he_qof, he_lamed, he_yod, he_nun, he_yod, he_qof, he_he],
     [he_shin, he_final_mem], [he_pe, he_he], [he_kaf, he_alef, he_final_nun],
     [he_bet] @ js ''-'', [he_alef, he_tav], [he_shin, he_lamed], [he_ayin, he_final_mem],
     [he_alef, he_het, he_resh, he_yod], [he_lamed, he_pe, he_nun, he_yod],
     [he_bet, he_mem, he_qof, he_vav, he_final_mem]]"

definition englishKeywords :: "jstring list" where
  "englishKeywords =
    map js
    [''meeting'', ''meet'', ''appointment'', ''schedule'', ''scheduled'', ''planned'',
     ''today'', ''tomorrow'', ''monday'', ''tuesday'', ''wednesday'', ''thursday'', ''friday'',
     ''saturday'', ''sunday'', ''morning'', ''afternoon'', ''evening'', ''night'', ''am'',
     ''pm'', ''time'', ''date'', ''when'', ''at'', ''on'', ''call'', ''visit'', ''doctor'',
     ''clinic'', ''checkup'', ''treatment'', ''therapy'', ''osteopath'', ''set'',
     ''confirmed'', ''good'', ''sounds'', ''okay'', ''ok'', ''ready'', ''fine'', ''perfect'',
     ''great'', ''awesome'', ''cool'', ''works'', ''done'', ''agreed'', ''yes'', ''yep'',
     ''sure'', ''absolutely'', ''we'', ''were'', ''are'', ''lets'', ''let's'', ''can'',
     ''will'', ''shall'', ''could'', ''should'', ''see'', ''meet'', ''there'', ''here'',
     ''place'', ''location'', ''where'', ''when'', ''then'', ''so'', ''but'', ''and'', ''the'',
     ''for'', ''with'', ''at'', ''in'', ''on'']"

definition datePatterns :: "regex list" where
  "datePatterns =
    [seqs [digits 1 2, lit (js ''/''), digits 1 2, lit (js ''/''), digits 2 4],
     seqs [digits 1 2, lit (js ''-''), digits 1 2, lit (js ''-''), digits 2 4],
     seqs [digits 1 2, lit (js ''.''), digits 1 2, lit (js ''.''), digits 2 4],
     alts [liti (js ''tomorrow''), liti (js ''today''), liti tok_machar, liti tok_hayom],
     alts (map (liti \<circ> js)
       [''monday'', ''tuesday'', ''wednesday'', ''thursday'', ''friday'', ''saturday'', ''sunday'']),
     alts (map liti
       [tok_rishon, tok_sheni, tok_shlishi, tok_revii, tok_hamishi, tok_shishi, tok_shabbat]),
     alts [liti (js ''next week''), liti (tok_hashavua @ js '' '' @ tok_haba), liti tok_hashavua]]"

abbreviation meridiem :: regex where
  "meridiem \<equiv> alts (map (lit \<circ> js) [''am'', ''pm'', ''AM'', ''PM''])"

definition timePatterns :: "regex list" where
  "timePatterns =
    [seqs [digits 1 2, lit (js '':''), digits 2 2, Opt (Seq space01 meridiem)],
     seqs [digits 1 2, space01, meridiem],
     alts [liti (js ''morning''), liti (js ''afternoon''), liti (js ''evening''),
           liti tok_boker, liti tok_tsohorayim,
           liti (tok_ahar @ js '' '' @ tok_tsohorayim), liti tok_erev],
     seqs [digits 1 2, space01,
           alts [liti (he_bet # tok_boker), liti (he_bet # tok_tsohorayim),
                 liti (he_bet # tok_erev), liti tok_ahhats]]]"

abbreviation nameChars :: cclass where
  "nameChars \<equiv> Cls [Rng 65 90, Rng 97 122, Rng 1424 1535, Space]"

abbreviation upperAZ :: regex where "upperAZ \<equiv> Atom (Cls [Rng 65 90])"
abbreviation lowerAZ1 :: regex where "lowerAZ1 \<equiv> Rep 1 None (Cls [Rng 97 122])"
abbreviation hebrew1 :: regex where "hebrew1 \<equiv> Rep 1 None (Cls [Rng he_alef he_tav])"

definition namePatterns :: "regex list" where
  "namePatterns =
    [seqs [liti (js ''with''), spaces1, Rep 1 None nameChars],
     seqs [liti tok_im, spaces1, Rep 1 None nameChars],
     seqs [upperAZ, lowerAZ1, spaces1, upperAZ, lowerAZ1],
     seqs [hebrew1, spaces1, hebrew1]]"

subsection \<open>Signal extraction\<close>

definition extractWith :: "regex list \<Rightarrow> jstring \<Rightarrow> jstring list" where
  "extractWith patterns txt = uniq (concat (map (\<lambda>p. matchAll p txt) patterns))"

definition extractDates :: "jstring \<Rightarrow> jstring list" where
  "extractDates txt = extractWith datePatterns txt"

definition extractTimes :: "jstring \<Rightarrow> jstring list" where
  "extractTimes txt = extractWith timePatterns txt"

text \<open>\<open>match.replace(/^(with|im)\s+/i, '').trim()\<close>, kept when longer than two code units.\<close>

definition cleanName :: "jstring \<Rightarrow> jstring" where
  "cleanName m = trim (removePrefix (Seq (Alt (liti (js ''with'')) (liti tok_im)) spaces1) m)"

definition namesOf :: "regex list \<Rightarrow> jstring \<Rightarrow> jstring list" where
  "namesOf patterns txt =
     uniq (filter (\<lambda>n. length n > 2) (map cleanName (concat (map (\<lambda>p. matchAll p txt) patterns))))"

definition extractNames :: "jstring \<Rightarrow> jstring list" where
  "extractNames txt = namesOf namePatterns txt"

subsection \<open>Confidence\<close>

text \<open>
  \<open>calculateConfidence\<close> is the sum of the capped weights over exact reals: every value
  is a multiple of 0.05. The code computes the same expression in doubles;
  \<open>calculateConfidence_double\<close> below follows it operation by operation, each literal and
  each product and sum rounded. The two differ by rounding errors only: 0.3 + 0.4 + 0.2 is
  0.8999999999999999 in the code. Bounds, monotonicity and the comparisons with the thresholds
  are stated on the exact sum; the fallback verdict, which rounds a percentage, is proved for
  the doubles.
\<close>

definition calculateConfidence :: "nat \<Rightarrow> nat \<Rightarrow> nat \<Rightarrow> nat \<Rightarrow> real" where
  "calculateConfidence keywordMatches dateMatches timeMatches nameMatches =
     min (min (real keywordMatches * 0.3) 0.6
          + min (real dateMatches * 0.25) 0.4
          + min (real timeMatches * 0.2) 0.3
          + min (real nameMatches * 0.1) 0.2) 1.0"

definition calculateConfidence_double :: "nat \<Rightarrow> nat \<Rightarrow> nat \<Rightarrow> nat \<Rightarrow> real" where
  "calculateConfidence_double keywordMatches dateMatches timeMatches nameMatches =
     (let c0 = 0;
          c1 = roundDouble (c0 + min (roundDouble (real keywordMatches * roundDouble 0.3)) (roundDouble 0.6));
          c2 = roundDouble (c1 + min (roundDouble (real dateMatches * roundDouble 0.25)) (roundDouble 0.4));
          c3 = roundDouble (c2 + min (roundDouble (real timeMatches * roundDouble 0.2)) (roundDouble 0.3));
          c4 = roundDouble (c3 + min (roundDouble (real nameMatches * roundDouble 0.1)) (roundDouble 0.2))
      in min c4 (roundDouble 1))"

subsection \<open>Date resolution\<close>

definition getNextWeekday :: "clock \<Rightarrow> int \<Rightarrow> js_date" where
  "getNextWeekday clk targetDay =
     (let now = nowLocal clk;
          currentDay = getDay now;
          daysUntilTarget = targetDay - currentDay;
          daysUntilTarget' = (if daysUntilTarget \<le> 0 then daysUntilTarget + 7 else daysUntilTarget)
      in ValidDate (addDays now daysUntilTarget'))"

definition numericDatePattern :: regex where
  "numericDatePattern =
     seqs [digits 1 2, Atom (Cls [Chr 47, Chr 45, Chr 46]), digits 1 2,
           Atom (Cls [Chr 47, Chr 45, Chr 46]), digits 2 4]"

text \<open>
  The \<open>nth\<close> element of \<open>parts\<close>; an index past the end reads \<open>undefined\<close>, which
  \<open>parseInt\<close> turns into \<open>NaN\<close>.
\<close>

definition partAt :: "jstring list \<Rightarrow> nat \<Rightarrow> int option" where
  "partAt parts i = (if i < length parts then parseInt (parts ! i) else None)"

definition parseDate1 :: "clock \<Rightarrow> jstring \<Rightarrow> js_date option" where
  "parseDate1 clk dateStr =
     (if regexTest (Alt (liti (js ''tomorrow'')) (liti tok_machar)) dateStr
        then Some (ValidDate (addDays (nowLocal clk) 1))
      else if regexTest (Alt (liti (js ''today'')) (liti tok_hayom)) dateStr
        then Some (ValidDate (nowLocal clk))
      else if regexTest (Alt (liti (js ''monday'')) (liti tok_rishon)) dateStr
        then Some (getNextWeekday clk 1)
      else if regexTest (Alt (liti (js ''tuesday'')) (liti tok_sheni)) dateStr
        then Some (getNextWeekday clk 2)
      else if regexTest (Alt (liti (js ''wednesday'')) (liti tok_shlishi)) dateStr
        then Some (getNextWeekday clk 3)
      else if regexTest (Alt (liti (js ''thursday'')) (liti tok_revii)) dateStr
        then Some (getNextWeekday clk 4)
      else if regexTest (Alt (liti (js ''friday'')) (liti tok_hamishi)) dateStr
        then Some (getNextWeekday clk 5)
      else if regexTest (Alt (liti (js ''saturday'')) (liti tok_shishi)) dateStr
        then Some (getNextWeekday clk 6)
      else if regexTest (Alt (liti (js ''sunday'')) (liti tok_shabbat)) dateStr
        then Some (getNextWeekday clk 0)
      else if regexTest numericDatePattern dateStr
        then (let parts = splitOn isDateSeparator [] dateStr
              in if length parts \<ge> 3
                 then (let day = partAt parts 0;
                           month = map_option (\<lambda>m. m - 1) (partAt parts 1);
                           year = partAt parts 2
                       in Some (newDateYMD (map_option (\<lambda>y. if y < 100 then 2000 + y else y) year)
                                  month day))
                 else None)
      else None)"

text \<open>
  \<open>parseDates\<close>: each token gives at most one date; a token that set no date, or an
  invalid one, is left out. Nothing in the loop throws (the \<open>try\<close> around the numeric
  branch guards calls that cannot raise).
\<close>

definition keepDate :: "js_date option \<Rightarrow> js_date list" where
  "keepDate targetDate =
     (case targetDate of
        None \<Rightarrow> []
      | Some InvalidDate \<Rightarrow> []
      | Some (ValidDate t) \<Rightarrow> [ValidDate t])"

definition parseDates :: "clock \<Rightarrow> jstring list \<Rightarrow> js_date list" where
  "parseDates clk dateStrings = concat (map (\<lambda>dateStr. keepDate (parseDate1 clk dateStr)) dateStrings)"

subsection \<open>Analysis of one message\<close>

definition matchingKeywords :: "jstring list \<Rightarrow> jstring \<Rightarrow> jstring list" where
  "matchingKeywords keywords txt = filter (\<lambda>keyword. js_includes txt (toLowerCase keyword)) keywords"

definition firstOrUndefined :: "jstring list \<Rightarrow> jstring option" where
  "firstOrUndefined xs = (case xs of [] \<Rightarrow> None | x # _ \<Rightarrow> if x = [] then None else Some x)"

definition orElse :: "jstring option \<Rightarrow> jstring option \<Rightarrow> jstring option" where
  "orElse a b = (if truthy a then a else b)"

definition analyzeMessage :: "clock \<Rightarrow> message \<Rightarrow> detection option" where
  "analyzeMessage clk message =
     (let txt = toLowerCase (case m_text message of None \<Rightarrow> [] | Some t \<Rightarrow> t);
          originalText = (case m_text message of None \<Rightarrow> [] | Some t \<Rightarrow> t)
      in if trim txt = [] then None
         else
           (let hebrewMatches = matchingKeywords hebrewKeywords txt;
                englishMatches = matchingKeywords englishKeywords txt;
                totalMatches = length hebrewMatches + length englishMatches
            in if totalMatches = 0 then None
               else
                 (let detectedDates = extractDates originalText;
                      detectedTimes = extractTimes originalText;
                      detectedNames' = extractNames originalText;
                      confidence' = calculateConfidence totalMatches (length detectedDates)
                                      (length detectedTimes) (length detectedNames')
                  in if confidence' < 0.1 then None
                     else Some \<lparr>
                       det_id = (case orElse (m_id message) (Some (js ''msg'')) of
                                   Some i \<Rightarrow> i | None \<Rightarrow> []) @ js ''_'' @ showDec (nowMs clk),
                       messageId = m_id message,
                       chatId = m_chatId message,
                       senderName = orElse (m_senderName message) (m_senderId message),
                       extractedText = originalText,
                       detectedKeywords = hebrewMatches @ englishMatches,
                       detectedDate = firstOrUndefined detectedDates,
                       detectedTime = firstOrUndefined detectedTimes,
                       detectedNames = (if length detectedNames' > 0 then Some detectedNames' else None),
                       parsedDates = parseDates clk detectedDates,
                       confidence = confidence',
                       timestamp = (if m_timestamp message \<noteq> 0 then m_timestamp message
                                    else real_of_int (nowMs clk) / 1000),
                       llmAnalysis = None,
                       llmDateTime = None,
                       llmLocation = None,
                       llmParticipants = None,
                       llmMeetingType = None\<rparr>)))"

definition detectMeetings :: "clock \<Rightarrow> message list \<Rightarrow> detection list" where
  "detectMeetings clk messages = List.map_filter (analyzeMessage clk) messages"


section \<open>KeywordDetector (src/utils/keywordDetector.ts)\<close>

text \<open>
  The TypeScript detector takes its keywords from \<open>config.ts\<close>, has no next-week date
  pattern and no Hebrew hour pattern, a different weight table and a pruning threshold
  of 0.3, and resolves no dates (\<open>parsedDates\<close> stays empty). Its message type makes
  every field a string.
\<close>

definition hebrewKeywords_ts :: "jstring list" where
  "hebrewKeywords_ts =
    [[he_pe, he_gimel, he_yod, he_shin, he_he], [he_mem, he_pe, he_gimel, he_shin],
     [he_pe, he_gimel, he_yod, he_shin, he_tav], [he_nun, he_pe, he_gimel, he_shin],
     [he_lamed, he_he, he_yod, he_pe, he_gimel, he_shin],
     [he_mem, he_yod, he_nun, he_vav, he_yod], [he_tav, he_vav, he_resh],
     [he_zayin, he_mem, he_final_nun], [he_mem, he_het, he_resh],
     [he_he, he_yod, he_vav, he_final_mem], [he_shin, he_ayin, he_he],
     [he_bet, he_vav, he_qof, he_resh],
     [he_tsadi, he_he, he_resh, he_yod, he_yod, he_final_mem],
     [he_alef, he_het, he_resh] @ js '' '' @ [he_he, he_tsadi, he_he, he_resh, he_yod, he_yod, he_final_mem],
     [he_ayin, he_resh, he_bet], [he_resh, he_alef, he_shin, he_vav, he_final_nun],
     [he_shin, he_nun, he_yod], [he_shin, he_lamed, he_yod, he_shin, he_yod],
     [he_resh, he_bet, he_yod, he_ayin, he_yod], [he_het, he_mem, he_yod, he_shin, he_yod],
     [he_shin, he_yod, he_shin, he_yod], [he_shin, he_bet, he_tav],
     [he_bet, he_yod, he_vav, he_final_mem], [he_tav, he_alef, he_resh, he_yod, he_final_kaf],
     [he_mem, he_vav, he_ayin, he_dalet], [he_nun, he_qof, he_bet, he_ayin],
     [he_qof, he_vav, he_bet, he_ayin, he_yod, he_final_mem],
     [he_tet, he_yod, he_pe, he_vav, he_lamed],
     [he_alef, he_vav, he_samekh, he_tav, he_alef, he_vav, he_pe, he_tav, he_yod, he_he],
     [he_alef, he_vav, he_samekh, he_tav, he_alef, he_vav, he_pe, he_tet, he_yod, he_he],
     [he_kaf, he_alef, he_bet], [he_gimel, he_bet]]"

definition englishKeywords_ts :: "jstring list" where
  "englishKeywords_ts =
    map js
    [''meeting'', ''meet'', ''appointment'', ''schedule'', ''planned'', ''today'',
     ''tomorrow'', ''monday'', ''tuesday'', ''wednesday'', ''thursday'', ''friday'',
     ''saturday'', ''sunday'', ''morning'', ''afternoon'', ''evening'', ''night'', ''am'',
     ''pm'', ''time'', ''date'', ''when'', ''at'', ''on'', ''call'']"

definition datePatterns_ts :: "regex list" where
  "datePatterns_ts = take 6 datePatterns"

definition timePatterns_ts :: "regex list" where
  "timePatterns_ts = take 3 timePatterns"

definition namePatterns_ts :: "regex list" where
  "namePatterns_ts =
    [seqs [liti (js ''with''), spaces1, Rep 1 None nameChars],
     seqs [liti tok_im, spaces1, Rep 1 None nameChars],
     seqs [Rep 0 (Some 1) (Cls [Chr he_mem]), upperAZ, lowerAZ1, spaces1, upperAZ, lowerAZ1],
     seqs [hebrew1, spaces1, hebrew1]]"

definition calculateConfidence_ts :: "nat \<Rightarrow> nat \<Rightarrow> nat \<Rightarrow> nat \<Rightarrow> real" where
  "calculateConfidence_ts keywordMatches dateMatches timeMatches nameMatches =
     min (min (real keywordMatches * 0.3) 0.6
          + min (real dateMatches * 0.2) 0.4
          + min (real timeMatches * 0.15) 0.3
          + min (real nameMatches * 0.1) 0.2) 1.0"

text \<open>The same computation as the code performs it, in doubles.\<close>

definition calculateConfidence_ts_double :: "nat \<Rightarrow> nat \<Rightarrow> nat \<Rightarrow> nat \<Rightarrow> real" where
  "calculateConfidence_ts_double keywordMatches dateMatches timeMatches nameMatches =
     (let c0 = 0;
          c1 = roundDouble (c0 + min (roundDouble (real keywordMatches * roundDouble 0.3)) (roundDouble 0.6));
          c2 = roundDouble (c1 + min (roundDouble (real dateMatches * roundDouble 0.2)) (roundDouble 0.4));
          c3 = roundDouble (c2 + min (roundDouble (real timeMatches * roundDouble 0.15)) (roundDouble 0.3));
          c4 = roundDouble (c3 + min (roundDouble (real nameMatches * roundDouble 0.1)) (roundDouble 0.2))
      in min c4 (roundDouble 1))"

definition analyzeMessage_ts :: "clock \<Rightarrow> message \<Rightarrow> detection option" where
  "analyzeMessage_ts clk message =
     (let originalText = (case m_text message of None \<Rightarrow> [] | Some t \<Rightarrow> t);
          txt = toLowerCase originalText;
          hebrewMatches = matchingKeywords hebrewKeywords_ts txt;
          englishMatches = matchingKeywords englishKeywords_ts txt;
          totalMatches = length hebrewMatches + length englishMatches
      in if totalMatches = 0 then None
         else
           (let detectedDates = extractWith datePatterns_ts originalText;
                detectedTimes = extractWith timePatterns_ts originalText;
                detectedNames' = namesOf namePatterns_ts originalText;
                confidence' = calculateConfidence_ts totalMatches (length detectedDates)
                                (length detectedTimes) (length detectedNames')
            in if confidence' < 0.3 then None
               else Some \<lparr>
                 det_id = (case m_id message of Some i \<Rightarrow> i | None \<Rightarrow> js ''undefined'')
                          @ js ''_'' @ showDec (nowMs clk),
                 messageId = m_id message,
                 chatId = m_chatId message,
                 senderName = m_senderName message,
                 extractedText = originalText,
                 detectedKeywords = hebrewMatches @ englishMatches,
                 detectedDate = firstOrUndefined detectedDates,
                 detectedTime = firstOrUndefined detectedTimes,
                 detectedNames = (if length detectedNames' > 0 then Some detectedNames' else None),
                 parsedDates = [],
                 confidence = confidence',
                 timestamp = m_timestamp message,
                 llmAnalysis = None,
                 llmDateTime = None,
                 llmLocation = None,
                 llmParticipants = None,
                 llmMeetingType = None\<rparr>))"

section \<open>LLMAnalyzer (llm-analyzer.js and its TypeScript twin)\<close>

text \<open>
  What the code takes from the JavaScript runtime and cannot be read off the repository:
  the date parser behind \<open>new Date(value)\<close> (with the host's time zone), \<open>JSON.parse\<close>
  (\<open>None\<close>: it throws a SyntaxError), and the coercion of a non-numeric JSON value to a
  number (outer \<open>None\<close>: it throws a TypeError; inner \<open>None\<close>: \<open>NaN\<close>). Converting
  an array or an object to a string, as a template literal does, can throw as well;
  \<open>printable\<close> tells for which values it does not. The theorems hold for every such
  runtime.
\<close>

record runtime =
  dateParse :: "jstring \<Rightarrow> js_date"
  dateOfValue :: "json \<Rightarrow> js_date option"
  jsonParse :: "jstring \<Rightarrow> json option"
  toNumber :: "json \<Rightarrow> real option option"
  printable :: "json \<Rightarrow> bool"

datatype js_error = SyntaxError | TypeError | NoJsonFound | RangeError

definition jtruthy :: "json \<Rightarrow> bool" where
  "jtruthy v =
     (case v of
        JNull \<Rightarrow> False
      | JBool b \<Rightarrow> b
      | JNum x \<Rightarrow> x \<noteq> 0
      | JStr s \<Rightarrow> s \<noteq> []
      | JArr xs \<Rightarrow> True
      | JObj kvs \<Rightarrow> True)"

text \<open>\<open>v || undefined\<close> for a property that may be absent.\<close>

definition orUndefined :: "json option \<Rightarrow> json option" where
  "orUndefined v = (case v of None \<Rightarrow> None | Some x \<Rightarrow> if jtruthy x then Some x else None)"

text \<open>
  \<open>parsed.key\<close> for a parsed value other than \<open>null\<close>: an object has the last entry
  written for the key, every other value has none of the keys the analyzer reads.
\<close>

definition jget :: "json \<Rightarrow> string \<Rightarrow> json option" where
  "jget parsed key = (case parsed of JObj kvs \<Rightarrow> map_of (rev kvs) (js key) | _ \<Rightarrow> None)"

definition toNum :: "runtime \<Rightarrow> json \<Rightarrow> real option option" where
  "toNum rt v =
     (case v of
        JNum x \<Rightarrow> Some (Some x)
      | JBool b \<Rightarrow> Some (Some (if b then 1 else 0))
      | JNull \<Rightarrow> Some (Some 0)
      | _ \<Rightarrow> toNumber rt v)"

subsection \<open>The fallback verdict\<close>

text \<open>
  \<open>Math.round(confidence * 100)\<close>: the product is a double, and \<open>Math.round\<close> takes it
  to the nearest integer, a half upwards, as \<open>round\<close> does.
\<close>

definition getFallbackResult :: "detection \<Rightarrow> verdict" where
  "getFallbackResult detectedMeeting =
     (let hasDateTime = (truthy (detectedDate detectedMeeting) \<or> truthy (detectedTime detectedMeeting));
          confidence' = round (roundDouble (confidence detectedMeeting * 100))
      in \<lparr>isValidMeeting = (hasDateTime \<and> confidence' > 30),
          llm_confidence = Some (real_of_int confidence'),
          extractedDateTime = None,
          extractedLocation = None,
          extractedParticipants = None,
          meetingType = None,
          reasoning = JStr (js ''Claude analysis unavailable, using fallback keyword detection'')\<rparr>)"

definition getFallbackResult_ts :: "detection \<Rightarrow> verdict" where
  "getFallbackResult_ts detectedMeeting =
     (let hasDateTime = (truthy (detectedDate detectedMeeting) \<or> truthy (detectedTime detectedMeeting));
          confidence' = round (roundDouble (confidence detectedMeeting * 100))
      in \<lparr>isValidMeeting = (hasDateTime \<and> confidence' > 30),
          llm_confidence = Some (real_of_int confidence'),
          extractedDateTime = None,
          extractedLocation = None,
          extractedParticipants = None,
          meetingType = None,
          reasoning = JStr (js ''Claude analysis unavailable, using fallback detection'')\<rparr>)"

subsection \<open>Parsing the response\<close>

text \<open>The pattern \<open>\{[\s\S]*\}\<close>: an opening brace, anything (greedy), a closing brace.\<close>

definition jsonBlock :: regex where
  "jsonBlock = seqs [Atom (Cls [Chr 123]), Rep 0 None (NotCls []), Atom (Cls [Chr 125])]"

definition fence :: regex where
  "fence = lit (js ''```'')"

text \<open>The string handed to \<open>JSON.parse\<close> by the JavaScript analyzer.\<close>

definition cleanJsonText :: "jstring \<Rightarrow> jstring" where
  "cleanJsonText jsonStr =
     trim (removePrefix (seqs [spaces0, lit (js ''json''), spaces0])
       (removeAll (Seq fence spaces0) 0
         (removeAll (seqs [fence, lit (js ''json''), spaces0]) 0 jsonStr)))"

definition extractJsonText :: "jstring \<Rightarrow> jstring" where
  "extractJsonText response =
     cleanJsonText (case firstMatch jsonBlock response of
                      Some m \<Rightarrow> m
                    | None \<Rightarrow> trim response)"

text \<open>
  The object literal built from the parsed value. Reading a property of \<open>null\<close> throws,
  and so may the coercion of the confidence to a number.
\<close>

definition clamp100 :: "real option \<Rightarrow> real option" where
  "clamp100 c = map_option (\<lambda>x. max 0 (min 100 x)) c"

definition buildVerdict :: "runtime \<Rightarrow> json \<Rightarrow> js_error + verdict" where
  "buildVerdict rt parsed =
     (if parsed = JNull then Inl TypeError
      else
        (case toNum rt (case orUndefined (jget parsed ''confidence'') of
                          Some v \<Rightarrow> v | None \<Rightarrow> JNum 0) of
           None \<Rightarrow> Inl TypeError
         | Some c \<Rightarrow> Inr \<lparr>
             isValidMeeting = (case jget parsed ''isValidMeeting'' of
                                 None \<Rightarrow> False | Some v \<Rightarrow> jtruthy v),
             llm_confidence = clamp100 c,
             extractedDateTime = orUndefined (jget parsed ''extractedDateTime''),
             extractedLocation = orUndefined (jget parsed ''extractedLocation''),
             extractedParticipants = orUndefined (jget parsed ''extractedParticipants''),
             meetingType = orUndefined (jget parsed ''meetingType''),
             reasoning = (case orUndefined (jget parsed ''reasoning'') of
                            Some v \<Rightarrow> v | None \<Rightarrow> JStr (js ''No reasoning provided''))\<rparr>))"

definition parseFailed :: verdict where
  "parseFailed =
     \<lparr>isValidMeeting = False,
      llm_confidence = Some 0,
      extractedDateTime = None,
      extractedLocation = None,
      extractedParticipants = None,
      meetingType = None,
      reasoning = JStr (js ''Failed to parse Claude response'')\<rparr>"

text \<open>The body of the \<open>try\<close> block, in both variants, with every \<open>throw\<close> as a value.\<close>

definition parseAnalysisResponse_try :: "runtime \<Rightarrow> jstring \<Rightarrow> js_error + verdict" where
  "parseAnalysisResponse_try rt response =
     (case jsonParse rt (extractJsonText response) of
        None \<Rightarrow> Inl SyntaxError
      | Some parsed \<Rightarrow> buildVerdict rt parsed)"

definition parseAnalysisResponse_ts_try :: "runtime \<Rightarrow> jstring \<Rightarrow> js_error + verdict" where
  "parseAnalysisResponse_ts_try rt response =
     (case firstMatch jsonBlock response of
        None \<Rightarrow> Inl NoJsonFound
      | Some jsonMatch \<Rightarrow>
          (case jsonParse rt jsonMatch of
             None \<Rightarrow> Inl SyntaxError
           | Some parsed \<Rightarrow> buildVerdict rt parsed))"

text \<open>
  \<open>try { ... } catch (error) { return parse-failed verdict }\<close>. The handler logs the
  error and a prefix of the response, which cannot throw.
\<close>

definition catchAll :: "js_error + verdict \<Rightarrow> js_error + verdict" where
  "catchAll r = (case r of Inl e \<Rightarrow> Inr parseFailed | Inr v \<Rightarrow> Inr v)"

definition parseAnalysisResponse :: "runtime \<Rightarrow> jstring \<Rightarrow> js_error + verdict" where
  "parseAnalysisResponse rt response = catchAll (parseAnalysisResponse_try rt response)"

definition parseAnalysisResponse_ts :: "runtime \<Rightarrow> jstring \<Rightarrow> js_error + verdict" where
  "parseAnalysisResponse_ts rt response = catchAll (parseAnalysisResponse_ts_try rt response)"



subsection \<open>The analyzer\<close>

text \<open>\<open>this.enabled = !!(apiKey && apiKey.trim().length > 0)\<close>.\<close>

definition llmEnabled :: "jstring option \<Rightarrow> bool" where
  "llmEnabled apiKey = (case apiKey of None \<Rightarrow> False | Some k \<Rightarrow> k \<noteq> [] \<and> length (trim k) > 0)"

text \<open>
  The call to the language model is a parameter: given the detection and the conversation
  history it returns the text of the answer, or \<open>None\<close> when the call fails or the first
  content block is not text.
\<close>

type_synonym llm_call = "detection \<Rightarrow> message list \<Rightarrow> jstring option"

text \<open>
  The JavaScript analyzer logs the reasoning of the verdict in a template literal before it
  returns it; if that conversion throws, the handler of \<open>analyzeConversation\<close> returns
  the fallback verdict.
\<close>

definition canLog :: "runtime \<Rightarrow> json \<Rightarrow> bool" where
  "canLog rt v =
     (case v of
        JArr xs \<Rightarrow> printable rt v
      | JObj kvs \<Rightarrow> printable rt v
      | _ \<Rightarrow> True)"

definition analyzeConversation ::
  "runtime \<Rightarrow> bool \<Rightarrow> llm_call \<Rightarrow> detection \<Rightarrow> message list \<Rightarrow> verdict" where
  "analyzeConversation rt enabled ask detectedMeeting conversationHistory =
     (if \<not> enabled then getFallbackResult detectedMeeting
      else
        (case ask detectedMeeting conversationHistory of
           None \<Rightarrow> getFallbackResult detectedMeeting
         | Some analysis \<Rightarrow>
             if analysis = [] then getFallbackResult detectedMeeting
             else (case parseAnalysisResponse rt analysis of
                     Inr result \<Rightarrow>
                       if canLog rt (reasoning result) then result
                       else getFallbackResult detectedMeeting
                   | Inl e \<Rightarrow> getFallbackResult detectedMeeting)))"

definition analyzeConversation_ts ::
  "runtime \<Rightarrow> bool \<Rightarrow> llm_call \<Rightarrow> detection \<Rightarrow> message list \<Rightarrow> verdict" where
  "analyzeConversation_ts rt enabled ask detectedMeeting conversationHistory =
     (if \<not> enabled then getFallbackResult_ts detectedMeeting
      else
        (case ask detectedMeeting conversationHistory of
           None \<Rightarrow> getFallbackResult_ts detectedMeeting
         | Some analysis \<Rightarrow>
             if analysis = [] then getFallbackResult_ts detectedMeeting
             else (case parseAnalysisResponse_ts rt analysis of
                     Inr result \<Rightarrow> result
                   | Inl e \<Rightarrow> getFallbackResult_ts detectedMeeting)))"

section \<open>The audit runner (run-audit with language-model analysis)\<close>

record event =
  ev_id :: jstring
  summary :: "jstring option"
  description :: "jstring option"
  start_dateTime :: "jstring option"
  start_date :: "jstring option"
  end_dateTime :: "jstring option"
  end_date :: "jstring option"
  attendees :: "jstring option list option"
  location :: "jstring option"

text \<open>
  \<open>start_dateTime\<close> and \<open>start_date\<close> are \<open>event.start.dateTime\<close> and \<open>event.start.date\<close>;
  \<open>attendees\<close> keeps the display name of every attendee.
\<close>

subsection \<open>Messages, newest first\<close>

text \<open>
  \<open>getRecentMessages\<close> ends with \<open>allMessages.sort((a, b) => b.timestamp - a.timestamp)\<close>
  (the comment there: newest first); the sort is stable.
\<close>

definition sortNewestFirst :: "message list \<Rightarrow> message list" where
  "sortNewestFirst allMessages = sort_key (\<lambda>m. - m_timestamp m) allMessages"

subsection \<open>Enhancement with the language model\<close>

definition getConversationContext :: "clock \<Rightarrow> detection \<Rightarrow> message list \<Rightarrow> message list" where
  "getConversationContext clk targetDetection allMessages =
     (let chatMessages = filter (\<lambda>msg.
              m_chatId msg = chatId targetDetection
            \<or> m_senderId msg = senderName targetDetection
            \<or> (\<not> truthy (m_chatId msg) \<and> \<not> truthy (chatId targetDetection))) allMessages;
          targetTime = timestamp targetDetection;
          contextWindow = 2 * 60 * 60;
          contextMessages = filter (\<lambda>msg.
              \<bar>(if m_timestamp msg \<noteq> 0 then m_timestamp msg else real_of_int (nowMs clk) / 1000)
                - targetTime\<bar> \<le> contextWindow) chatMessages
      in sort_key m_timestamp contextMessages)"

definition jtruthyOpt :: "json option \<Rightarrow> bool" where
  "jtruthyOpt v = (case v of None \<Rightarrow> False | Some x \<Rightarrow> jtruthy x)"

text \<open>A comparison with \<open>NaN\<close> is false.\<close>

definition numGreater :: "real option \<Rightarrow> real \<Rightarrow> bool" where
  "numGreater x bound = (case x of None \<Rightarrow> False | Some v \<Rightarrow> v > bound)"

text \<open>
  One round of the loop of \<open>enhanceWithLLMAnalysis\<close>: \<open>None\<close> when the detection is
  rejected. \<open>analyzeConversation\<close> catches every error itself, so the handler of the loop
  (which would keep the detection) is never entered.
\<close>

definition enhanceOne ::
  "runtime \<Rightarrow> clock \<Rightarrow> bool \<Rightarrow> llm_call \<Rightarrow> message list \<Rightarrow> detection \<Rightarrow> detection option" where
  "enhanceOne rt clk enabled ask allMessages det =
     (let conversationContext = getConversationContext clk det allMessages;
          llmResult = analyzeConversation rt enabled ask det conversationContext;
          det1 = det\<lparr>llmAnalysis := Some llmResult\<rparr>
      in if isValidMeeting llmResult \<and> numGreater (llm_confidence llmResult) 50
         then Some (det1\<lparr>
           llmDateTime := (if jtruthyOpt (extractedDateTime llmResult)
                           then extractedDateTime llmResult else llmDateTime det1),
           llmLocation := (if jtruthyOpt (extractedLocation llmResult)
                           then extractedLocation llmResult else llmLocation det1),
           llmParticipants := (if jtruthyOpt (extractedParticipants llmResult)
                               then extractedParticipants llmResult else llmParticipants det1),
           llmMeetingType := (if jtruthyOpt (meetingType llmResult)
                              then meetingType llmResult else llmMeetingType det1)\<rparr>)
         else None)"

definition enhanceWithLLMAnalysis ::
  "runtime \<Rightarrow> clock \<Rightarrow> bool \<Rightarrow> llm_call \<Rightarrow> detection list \<Rightarrow> message list \<Rightarrow> detection list" where
  "enhanceWithLLMAnalysis rt clk enabled ask keywordDetections allMessages =
     List.map_filter (enhanceOne rt clk enabled ask allMessages) keywordDetections"

subsection \<open>Matching detections against calendar events\<close>

record confirmed_item =
  cf_meeting :: detection
  cf_calendarEvent :: event
  cf_reason :: jstring

record conflict_item =
  cn_meeting :: detection
  cn_conflictingEvent :: event
  cn_reason :: jstring

text \<open>
  The reason of a missing entry is one of two texts; the first interpolates the confidence
  of the language model, which the model keeps as a number.
\<close>

datatype missing_reason = ClaudeConfirmedNotFound "real option" | HighConfidenceNotFound

record missing_item =
  ms_meeting :: detection
  ms_reason :: missing_reason

record audit_results =
  conflicts :: "conflict_item list"
  missingEvents :: "missing_item list"
  confirmedMeetings :: "confirmed_item list"

text \<open>The variables of the loop over the events of one meeting.\<close>

record loop_state =
  st_conflicts :: "conflict_item list"
  st_confirmed :: "confirmed_item list"
  foundConflict :: bool
  foundMatch :: bool

text \<open>\<open>new Date(event.start.dateTime || event.start.date)\<close>.\<close>

definition eventStart :: "runtime \<Rightarrow> event \<Rightarrow> js_date" where
  "eventStart rt ev =
     (case orElse (start_dateTime ev) (start_date ev) of
        None \<Rightarrow> InvalidDate
      | Some s \<Rightarrow> dateParse rt s)"

text \<open>
  \<open>meetingTime.includes(eventTime) || eventTime.includes(meetingTime.replace(/[^\d:]/g, ''))\<close>.
\<close>

definition timesMatch :: "jstring \<Rightarrow> jstring \<Rightarrow> bool" where
  "timesMatch meetingTime eventTime =
     (js_includes meetingTime eventTime
      \<or> js_includes eventTime (removeAll (Atom (NotCls [Digit, Chr 58])) 0 meetingTime))"

definition recordConfirmed :: "detection \<Rightarrow> event \<Rightarrow> string \<Rightarrow> loop_state \<Rightarrow> loop_state" where
  "recordConfirmed meeting ev why st =
     st\<lparr>foundMatch := True,
        st_confirmed := st_confirmed st @
          [\<lparr>cf_meeting = meeting, cf_calendarEvent = ev, cf_reason = js why\<rparr>]\<rparr>"

definition recordConflict :: "detection \<Rightarrow> event \<Rightarrow> string \<Rightarrow> loop_state \<Rightarrow> loop_state" where
  "recordConflict meeting ev why st =
     st\<lparr>foundConflict := True,
        st_conflicts := st_conflicts st @
          [\<lparr>cn_meeting = meeting, cn_conflictingEvent = ev, cn_reason = js why\<rparr>]\<rparr>"

text \<open>
  The body of the innermost loop, for one event and one date of the meeting;
  \<open>meetingTime\<close> is the time the meeting is compared with, if it has one.
\<close>

definition checkDate ::
  "runtime \<Rightarrow> jstring option \<Rightarrow> detection \<Rightarrow> event \<Rightarrow> js_date \<Rightarrow> loop_state \<Rightarrow> loop_state" where
  "checkDate rt meetingTime meeting ev meetingDate st =
     (let eventStart' = eventStart rt ev;
          meetingDateOnly = dateOnly meetingDate;
          eventDateOnly = dateOnly eventStart'
      in if sameTime meetingDateOnly eventDateOnly
         then (case meetingTime of
                 Some mt \<Rightarrow>
                   if mt \<noteq> [] \<and> truthy (start_dateTime ev)
                   then (if timesMatch mt (clockString eventStart')
                         then recordConfirmed meeting ev ''Time and date match'' st
                         else recordConflict meeting ev ''Same day, potentially conflicting time'' st)
                   else recordConfirmed meeting ev ''Date match, time unclear'' st
               | None \<Rightarrow> recordConfirmed meeting ev ''Date match, time unclear'' st)
         else st)"

definition scanEvents ::
  "runtime \<Rightarrow> jstring option \<Rightarrow> js_date list \<Rightarrow> detection \<Rightarrow> event list \<Rightarrow> audit_results
     \<Rightarrow> loop_state" where
  "scanEvents rt meetingTime meetingDates meeting calendarEvents res =
     fold (\<lambda>ev st. fold (checkDate rt meetingTime meeting ev) meetingDates st) calendarEvents
       \<lparr>st_conflicts = conflicts res, st_confirmed = confirmedMeetings res,
        foundConflict = False, foundMatch = False\<rparr>"

text \<open>The dates of a meeting: the date of the language model if it parses, else the parsed dates.\<close>

definition newDate :: "runtime \<Rightarrow> json \<Rightarrow> js_date option" where
  "newDate rt v = (case v of JStr s \<Rightarrow> Some (dateParse rt s) | _ \<Rightarrow> dateOfValue rt v)"

definition llmDates :: "runtime \<Rightarrow> detection \<Rightarrow> js_date list" where
  "llmDates rt meeting =
     (case llmDateTime meeting of
        None \<Rightarrow> []
      | Some v \<Rightarrow>
          if jtruthy v
          then (case newDate rt v of
                  Some (ValidDate t) \<Rightarrow> [ValidDate t]
                | _ \<Rightarrow> [])
          else [])"

definition meetingDatesOf :: "runtime \<Rightarrow> detection \<Rightarrow> js_date list" where
  "meetingDatesOf rt meeting =
     (if length (llmDates rt meeting) = 0 \<and> length (parsedDates meeting) > 0
      then parsedDates meeting
      else llmDates rt meeting)"

text \<open>
  \<open>llmDateTime.includes(':')\<close>: a string is searched for the colon, an array for an
  element equal to it, and any other value has no such method (a TypeError, \<open>None\<close>).
\<close>

definition includesColon :: "json \<Rightarrow> bool option" where
  "includesColon v =
     (case v of
        JStr s \<Rightarrow> Some (js_includes s (js '':''))
      | JArr xs \<Rightarrow> Some (JStr (js '':'') \<in> set xs)
      | _ \<Rightarrow> None)"

definition llmTime :: "runtime \<Rightarrow> detection \<Rightarrow> jstring option" where
  "llmTime rt meeting =
     (case llmDateTime meeting of
        None \<Rightarrow> None
      | Some v \<Rightarrow>
          if jtruthy v
          then (case newDate rt v of
                  Some (ValidDate t) \<Rightarrow>
                    (case includesColon v of
                       Some True \<Rightarrow> Some (clockString (ValidDate t))
                     | _ \<Rightarrow> None)
                | _ \<Rightarrow> None)
          else None)"

definition detectedTimeLower :: "detection \<Rightarrow> jstring option" where
  "detectedTimeLower meeting =
     (if truthy (detectedTime meeting) then map_option toLowerCase (detectedTime meeting) else None)"

definition meetingTimeForComparison :: "runtime \<Rightarrow> detection \<Rightarrow> jstring option" where
  "meetingTimeForComparison rt meeting =
     (case llmTime rt meeting of
        Some t \<Rightarrow> Some t
      | None \<Rightarrow> detectedTimeLower meeting)"

definition effectiveConfidence :: "detection \<Rightarrow> real option" where
  "effectiveConfidence meeting =
     (case llmAnalysis meeting of
        Some a \<Rightarrow> map_option (\<lambda>c. c / 100) (llm_confidence a)
      | None \<Rightarrow> Some (confidence meeting))"

definition checkMeeting :: "runtime \<Rightarrow> event list \<Rightarrow> detection \<Rightarrow> audit_results \<Rightarrow> audit_results" where
  "checkMeeting rt calendarEvents meeting res =
     (let st = scanEvents rt (meetingTimeForComparison rt meeting) (meetingDatesOf rt meeting)
                 meeting calendarEvents res
      in \<lparr>conflicts = st_conflicts st,
          missingEvents =
            (if \<not> foundMatch st \<and> \<not> foundConflict st \<and> numGreater (effectiveConfidence meeting) 0.6
             then missingEvents res @
               [\<lparr>ms_meeting = meeting,
                 ms_reason = (case llmAnalysis meeting of
                                Some a \<Rightarrow> ClaudeConfirmedNotFound (llm_confidence a)
                              | None \<Rightarrow> HighConfidenceNotFound)\<rparr>]
             else missingEvents res),
          confirmedMeetings = st_confirmed st\<rparr>)"

definition noResults :: audit_results where
  "noResults = \<lparr>conflicts = [], missingEvents = [], confirmedMeetings = []\<rparr>"

definition analyzeConflictsAndMissing ::
  "runtime \<Rightarrow> detection list \<Rightarrow> event list \<Rightarrow> audit_results" where
  "analyzeConflictsAndMissing rt detectedMeetings calendarEvents =
     fold (checkMeeting rt calendarEvents) detectedMeetings noResults"

subsection \<open>The runner without language-model analysis\<close>

definition checkMeeting_simple ::
  "runtime \<Rightarrow> event list \<Rightarrow> detection \<Rightarrow> audit_results \<Rightarrow> audit_results" where
  "checkMeeting_simple rt calendarEvents meeting res =
     (let st = scanEvents rt (detectedTimeLower meeting) (parsedDates meeting)
                 meeting calendarEvents res
      in \<lparr>conflicts = st_conflicts st,
          missingEvents =
            (if \<not> foundMatch st \<and> \<not> foundConflict st \<and> confidence meeting > 0.4
             then missingEvents res @ [\<lparr>ms_meeting = meeting, ms_reason = HighConfidenceNotFound\<rparr>]
             else missingEvents res),
          confirmedMeetings = st_confirmed st\<rparr>)"

definition analyzeConflictsAndMissing_simple ::
  "runtime \<Rightarrow> detection list \<Rightarrow> event list \<Rightarrow> audit_results" where
  "analyzeConflictsAndMissing_simple rt detectedMeetings calendarEvents =
     fold (checkMeeting_simple rt calendarEvents) detectedMeetings noResults"

subsection \<open>The summary\<close>

text \<open>
  \<open>sendComprehensiveSummary\<close> writes a text message. The model keeps the values the text
  interpolates, in the order of the text: for each kind the count (when the block is
  printed), the lines of the first three entries, and the number of entries left out.
\<close>

record summary_message =
  sm_allGood :: bool
  sm_confirmedCount :: "nat option"
  sm_conflictCount :: "nat option"
  sm_conflictLines :: "(jstring \<times> jstring option) list"
  sm_conflictMore :: "nat option"
  sm_missingCount :: "nat option"
  sm_missingLines :: "(jstring \<times> int) list"
  sm_missingMore :: "nat option"

definition conflictLine :: "conflict_item \<Rightarrow> jstring \<times> jstring option" where
  "conflictLine c = (take 50 (extractedText (cn_meeting c)), summary (cn_conflictingEvent c))"

definition missingLine :: "missing_item \<Rightarrow> jstring \<times> int" where
  "missingLine m = (take 50 (extractedText (ms_meeting m)), round (confidence (ms_meeting m) * 100))"

definition summaryOf :: "audit_results \<Rightarrow> summary_message" where
  "summaryOf auditData =
     (let allGood = (length (conflicts auditData) = 0 \<and> length (missingEvents auditData) = 0)
      in if allGood
         then \<lparr>sm_allGood = True,
               sm_confirmedCount = (if length (confirmedMeetings auditData) > 0
                                    then Some (length (confirmedMeetings auditData)) else None),
               sm_conflictCount = None, sm_conflictLines = [], sm_conflictMore = None,
               sm_missingCount = None, sm_missingLines = [], sm_missingMore = None\<rparr>
         else \<lparr>sm_allGood = False,
               sm_confirmedCount = None,
               sm_conflictCount = (if length (conflicts auditData) > 0
                                   then Some (length (conflicts auditData)) else None),
               sm_conflictLines = map conflictLine (take 3 (conflicts auditData)),
               sm_conflictMore = (if length (conflicts auditData) > 3
                                  then Some (length (conflicts auditData) - 3) else None),
               sm_missingCount = (if length (missingEvents auditData) > 0
                                  then Some (length (missingEvents auditData)) else None),
               sm_missingLines = map missingLine (take 3 (missingEvents auditData)),
               sm_missingMore = (if length (missingEvents auditData) > 3
                                 then Some (length (missingEvents auditData) - 3) else None)\<rparr>)"

subsection \<open>One audit\<close>

text \<open>
  \<open>auditUser\<close> without its input and output: \<open>collected\<close> are the messages
  \<open>getRecentMessages\<close> gathered before its final sort, \<open>calendarEvents\<close> the events
  \<open>getRelevantCalendarEvents\<close> returned.
\<close>

definition auditUser ::
  "runtime \<Rightarrow> clock \<Rightarrow> bool \<Rightarrow> llm_call \<Rightarrow> message list \<Rightarrow> event list \<Rightarrow> audit_results" where
  "auditUser rt clk enabled ask collected calendarEvents =
     (let messages = sortNewestFirst collected;
          keywordDetections = detectMeetings clk messages;
          detectedMeetings = enhanceWithLLMAnalysis rt clk enabled ask keywordDetections messages
      in analyzeConflictsAndMissing rt detectedMeetings calendarEvents)"

definition auditUser_simple :: "runtime \<Rightarrow> clock \<Rightarrow> message list \<Rightarrow> event list \<Rightarrow> audit_results" where
  "auditUser_simple rt clk messages calendarEvents =
     analyzeConflictsAndMissing_simple rt (detectMeetings clk messages) calendarEvents"

section \<open>AuditService (src/services/auditService.ts)\<close>

text \<open>
  The functions of the date-fns library the service calls are parameters:
  \<open>isWithinInterval d start end\<close> and \<open>format d 'HH:mm'\<close> throw a RangeError (\<open>None\<close>)
  on an invalid date or interval.
\<close>

record datefns =
  parseISO :: "jstring \<Rightarrow> js_date"
  isWithinInterval :: "js_date \<Rightarrow> js_date \<Rightarrow> js_date \<Rightarrow> bool option"
  formatHHmm :: "js_date \<Rightarrow> jstring option"

datatype audit_status = missing_from_calendar | found_in_calendar | conflict_detected

record audit_record =
  ar_id :: jstring
  detectedMeetingId :: jstring
  calendarEventId :: "jstring option"
  status :: audit_status
  conflictDetails :: "jstring option"
  createdAt :: int

text \<open>\<open>event.start.dateTime || event.start.date || ''\<close>, and the same for the end.\<close>

definition startText :: "event \<Rightarrow> jstring" where
  "startText ev = (case orElse (orElse (start_dateTime ev) (start_date ev)) (Some []) of
                     Some s \<Rightarrow> s | None \<Rightarrow> [])"

definition endText :: "event \<Rightarrow> jstring" where
  "endText ev = (case orElse (orElse (end_dateTime ev) (end_date ev)) (Some []) of
                   Some s \<Rightarrow> s | None \<Rightarrow> [])"

text \<open>\<open>a.toDateString() === b.toDateString()\<close>; two invalid dates both print "Invalid Date".\<close>

definition sameDateString :: "js_date \<Rightarrow> js_date \<Rightarrow> bool" where
  "sameDateString a b =
     (case a of
        InvalidDate \<Rightarrow> (case b of InvalidDate \<Rightarrow> True | ValidDate t \<Rightarrow> False)
      | ValidDate s \<Rightarrow> (case b of InvalidDate \<Rightarrow> False | ValidDate t \<Rightarrow> day s = day t))"

definition isDateMatching :: "runtime \<Rightarrow> datefns \<Rightarrow> jstring \<Rightarrow> event \<Rightarrow> bool" where
  "isDateMatching rt fns detectedDate' ev =
     sameDateString (parseISO fns (startText ev)) (dateParse rt detectedDate')"

definition lowerIncludes :: "jstring option \<Rightarrow> jstring \<Rightarrow> bool" where
  "lowerIncludes field name =
     (case field of None \<Rightarrow> False | Some f \<Rightarrow> js_includes (toLowerCase f) (toLowerCase name))"

text \<open>
  The score of one event. \<open>event.summary.toLowerCase()\<close> throws a TypeError on an event
  without a summary, as soon as a name or the sender is compared with it.
\<close>

definition scoreEvent :: "runtime \<Rightarrow> datefns \<Rightarrow> detection \<Rightarrow> event \<Rightarrow> js_error + real" where
  "scoreEvent rt fns meeting ev =
     (let names = (case detectedNames meeting of None \<Rightarrow> [] | Some ns \<Rightarrow> ns)
      in if (names \<noteq> [] \<or> truthy (senderName meeting)) \<and> summary ev = None then Inl TypeError
         else
           (let byNames = sum_list (map (\<lambda>name.
                    if lowerIncludes (summary ev) name \<or> lowerIncludes (description ev) name
                       \<or> (case attendees ev of
                             None \<Rightarrow> False
                           | Some as \<Rightarrow> list_ex (\<lambda>displayName. lowerIncludes displayName name) as)
                    then 0.4 else 0) names);
                bySender = (case senderName meeting of
                    None \<Rightarrow> 0
                  | Some sender \<Rightarrow>
                      if sender \<noteq> [] \<and> (lowerIncludes (summary ev) sender
                                            \<or> lowerIncludes (description ev) sender)
                      then 0.3 else 0);
                byDate = (case detectedDate meeting of
                    None \<Rightarrow> 0
                  | Some d \<Rightarrow> if d \<noteq> [] \<and> isDateMatching rt fns d ev then 0.3 else 0)
            in Inr (byNames + bySender + byDate)))"

fun scoreAll ::
  "runtime \<Rightarrow> datefns \<Rightarrow> detection \<Rightarrow> event list \<Rightarrow> js_error + (event \<times> real) list" where
  "scoreAll rt fns meeting [] = Inr []"
| "scoreAll rt fns meeting (ev # evs) =
     (case scoreEvent rt fns meeting ev of
        Inl e \<Rightarrow> Inl e
      | Inr score \<Rightarrow>
          (case scoreAll rt fns meeting evs of
             Inl e \<Rightarrow> Inl e
           | Inr matches \<Rightarrow> Inr (if score > 0.2 then (ev, score) # matches else matches)))"

definition findMatchingEvents ::
  "runtime \<Rightarrow> datefns \<Rightarrow> detection \<Rightarrow> event list \<Rightarrow> js_error + event list" where
  "findMatchingEvents rt fns meeting calendarEvents =
     (case scoreAll rt fns meeting calendarEvents of
        Inl e \<Rightarrow> Inl e
      | Inr matches \<Rightarrow> Inr (map fst (sort_key (\<lambda>m. - snd m) matches)))"

text \<open>
  \<open>detectConflict\<close>: everything runs inside a \<open>try\<close> whose handler returns
  \<open>undefined\<close>, so \<open>None\<close> stands for "no conflict" and for a caught error alike.
\<close>

definition overlaps :: "datefns \<Rightarrow> event \<Rightarrow> event \<Rightarrow> bool option" where
  "overlaps fns matchedEvent ev =
     (if ev_id ev = ev_id matchedEvent then Some False
      else
        (let start' = parseISO fns (startText matchedEvent);
             end' = parseISO fns (endText matchedEvent);
             otherStart = parseISO fns (startText ev);
             otherEnd = parseISO fns (endText ev)
         in case isWithinInterval fns otherStart start' end' of
              None \<Rightarrow> None
            | Some True \<Rightarrow> Some True
            | Some False \<Rightarrow>
                (case isWithinInterval fns otherEnd start' end' of
                   None \<Rightarrow> None
                 | Some True \<Rightarrow> Some True
                 | Some False \<Rightarrow> isWithinInterval fns start' otherStart otherEnd)))"

fun overlapping :: "datefns \<Rightarrow> event \<Rightarrow> event list \<Rightarrow> event list option" where
  "overlapping fns matchedEvent [] = Some []"
| "overlapping fns matchedEvent (ev # evs) =
     (case overlaps fns matchedEvent ev of
        None \<Rightarrow> None
      | Some keep \<Rightarrow>
          (case overlapping fns matchedEvent evs of
             None \<Rightarrow> None
           | Some rest \<Rightarrow> Some (if keep then ev # rest else rest)))"

fun describeAll :: "datefns \<Rightarrow> event list \<Rightarrow> jstring list option" where
  "describeAll fns [] = Some []"
| "describeAll fns (ev # evs) =
     (case formatHHmm fns (parseISO fns (startText ev)) of
        None \<Rightarrow> None
      | Some hhmm \<Rightarrow>
          (case describeAll fns evs of
             None \<Rightarrow> None
           | Some rest \<Rightarrow>
               Some (((case summary ev of Some s \<Rightarrow> s | None \<Rightarrow> js ''undefined'')
                      @ js '' ('' @ hhmm @ js '')'') # rest)))"

fun joinWith :: "jstring \<Rightarrow> jstring list \<Rightarrow> jstring" where
  "joinWith sep [] = []"
| "joinWith sep [x] = x"
| "joinWith sep (x # xs) = x @ sep @ joinWith sep xs"

definition detectConflict :: "datefns \<Rightarrow> event \<Rightarrow> event list \<Rightarrow> jstring option" where
  "detectConflict fns matchedEvent allEvents =
     (case overlapping fns matchedEvent allEvents of
        None \<Rightarrow> None
      | Some overlappingEvents \<Rightarrow>
          if length overlappingEvents > 0
          then (case describeAll fns overlappingEvents of
                  None \<Rightarrow> None
                | Some conflictDescriptions \<Rightarrow>
                    Some (js ''Time conflict with: '' @ joinWith (js '', '') conflictDescriptions))
          else None)"

definition auditMeeting ::
  "runtime \<Rightarrow> datefns \<Rightarrow> clock \<Rightarrow> detection \<Rightarrow> event list \<Rightarrow> js_error + audit_record" where
  "auditMeeting rt fns clk meeting calendarEvents =
     (let auditId = js ''audit_'' @ det_id meeting @ js ''_'' @ showDec (nowMs clk)
      in case findMatchingEvents rt fns meeting calendarEvents of
           Inl e \<Rightarrow> Inl e
         | Inr [] \<Rightarrow>
             Inr \<lparr>ar_id = auditId, detectedMeetingId = det_id meeting, calendarEventId = None,
                  status = missing_from_calendar, conflictDetails = None, createdAt = nowMs clk\<rparr>
         | Inr (bestMatch # others) \<Rightarrow>
             (case detectConflict fns bestMatch calendarEvents of
                Some conflict \<Rightarrow>
                  Inr \<lparr>ar_id = auditId, detectedMeetingId = det_id meeting,
                       calendarEventId = Some (ev_id bestMatch), status = conflict_detected,
                       conflictDetails = Some conflict, createdAt = nowMs clk\<rparr>
              | None \<Rightarrow>
                  Inr \<lparr>ar_id = auditId, detectedMeetingId = det_id meeting,
                       calendarEventId = Some (ev_id bestMatch), status = found_in_calendar,
                       conflictDetails = None, createdAt = nowMs clk\<rparr>))"

section \<open>The entries of a meeting\<close>

text \<open>
  What the loops of the matcher record for one meeting, written without the loops: the
  events on a day of the meeting (once for every date of the meeting that falls on the
  day of the event, in the order of the loops), split by the comparison of the times.
\<close>

definition sameDay :: "runtime \<Rightarrow> event \<Rightarrow> js_date \<Rightarrow> bool" where
  "sameDay rt ev d = sameTime (dateOnly d) (dateOnly (eventStart rt ev))"

definition dayMatches :: "runtime \<Rightarrow> js_date list \<Rightarrow> event list \<Rightarrow> event list" where
  "dayMatches rt dates evs = concat (map (\<lambda>ev. map (\<lambda>d. ev) (filter (sameDay rt ev) dates)) evs)"

text \<open>Both sides have a time to compare.\<close>

definition timeComparable :: "jstring option \<Rightarrow> event \<Rightarrow> bool" where
  "timeComparable meetingTime ev = (truthy meetingTime \<and> truthy (start_dateTime ev))"

text \<open>Both sides have a time, and the loose comparison rejects the pair.\<close>

definition timeConflict :: "runtime \<Rightarrow> jstring option \<Rightarrow> event \<Rightarrow> bool" where
  "timeConflict rt meetingTime ev =
     (case meetingTime of
        None \<Rightarrow> False
      | Some mt \<Rightarrow> mt \<noteq> [] \<and> truthy (start_dateTime ev)
                  \<and> \<not> timesMatch mt (clockString (eventStart rt ev)))"

definition confirmedEntry :: "jstring option \<Rightarrow> detection \<Rightarrow> event \<Rightarrow> confirmed_item" where
  "confirmedEntry meetingTime meeting ev =
     \<lparr>cf_meeting = meeting, cf_calendarEvent = ev,
      cf_reason = (if timeComparable meetingTime ev then js ''Time and date match''
                   else js ''Date match, time unclear'')\<rparr>"

definition conflictEntry :: "detection \<Rightarrow> event \<Rightarrow> conflict_item" where
  "conflictEntry meeting ev =
     \<lparr>cn_meeting = meeting, cn_conflictingEvent = ev,
      cn_reason = js ''Same day, potentially conflicting time''\<rparr>"

definition confirmedFor ::
  "runtime \<Rightarrow> jstring option \<Rightarrow> js_date list \<Rightarrow> detection \<Rightarrow> event list \<Rightarrow> confirmed_item list" where
  "confirmedFor rt meetingTime dates meeting evs =
     map (confirmedEntry meetingTime meeting)
       (filter (\<lambda>ev. \<not> timeConflict rt meetingTime ev) (dayMatches rt dates evs))"

definition conflictsFor ::
  "runtime \<Rightarrow> jstring option \<Rightarrow> js_date list \<Rightarrow> detection \<Rightarrow> event list \<Rightarrow> conflict_item list" where
  "conflictsFor rt meetingTime dates meeting evs =
     map (conflictEntry meeting) (filter (timeConflict rt meetingTime) (dayMatches rt dates evs))"

text \<open>The entries of one meeting in the runner with language-model analysis.\<close>

definition confirmedOf :: "runtime \<Rightarrow> event list \<Rightarrow> detection \<Rightarrow> confirmed_item list" where
  "confirmedOf rt evs meeting =
     confirmedFor rt (meetingTimeForComparison rt meeting) (meetingDatesOf rt meeting) meeting evs"

definition conflictsOf :: "runtime \<Rightarrow> event list \<Rightarrow> detection \<Rightarrow> conflict_item list" where
  "conflictsOf rt evs meeting =
     conflictsFor rt (meetingTimeForComparison rt meeting) (meetingDatesOf rt meeting) meeting evs"

definition missingOf :: "runtime \<Rightarrow> event list \<Rightarrow> detection \<Rightarrow> missing_item list" where
  "missingOf rt evs meeting =
     (if dayMatches rt (meetingDatesOf rt meeting) evs = []
         \<and> numGreater (effectiveConfidence meeting) 0.6
      then [\<lparr>ms_meeting = meeting,
             ms_reason = (case llmAnalysis meeting of
                            Some a \<Rightarrow> ClaudeConfirmedNotFound (llm_confidence a)
                          | None \<Rightarrow> HighConfidenceNotFound)\<rparr>]
      else [])"

text \<open>The entries of one meeting in the runner without language-model analysis.\<close>

definition confirmedOf_simple :: "runtime \<Rightarrow> event list \<Rightarrow> detection \<Rightarrow> confirmed_item list" where
  "confirmedOf_simple rt evs meeting =
     confirmedFor rt (detectedTimeLower meeting) (parsedDates meeting) meeting evs"

definition conflictsOf_simple :: "runtime \<Rightarrow> event list \<Rightarrow> detection \<Rightarrow> conflict_item list" where
  "conflictsOf_simple rt evs meeting =
     conflictsFor rt (detectedTimeLower meeting) (parsedDates meeting) meeting evs"

definition missingOf_simple :: "runtime \<Rightarrow> event list \<Rightarrow> detection \<Rightarrow> missing_item list" where
  "missingOf_simple rt evs meeting =
     (if dayMatches rt (parsedDates meeting) evs = [] \<and> confidence meeting > 0.4
      then [\<lparr>ms_meeting = meeting, ms_reason = HighConfidenceNotFound\<rparr>]
      else [])"


section \<open>Hebrew day names in the analyzer's prompt\<close>

text \<open>
  The prompt of the analyzer (llm-analyzer.js) documents the Hebrew day names the detector
  reads: it glosses "yom rishon" as Sunday, "yom sheni" as Monday and "revii" as Wednesday,
  and lists the seven names starting with "rishon". \<open>promptWeekday\<close> gives the number
  \<open>getDay\<close> uses for each (0 is Sunday).
\<close>

definition promptWeekday :: "jstring \<Rightarrow> int option" where
  "promptWeekday tok =
     (if tok = tok_rishon then Some 0
      else if tok = tok_sheni then Some 1
      else if tok = tok_shlishi then Some 2
      else if tok = tok_revii then Some 3
      else if tok = tok_hamishi then Some 4
      else if tok = tok_shishi then Some 5
      else if tok = tok_shabbat then Some 6
      else None)"


section \<open>Example inputs\<close>

text \<open>
  A runtime for the examples: its date parser reads the local date-time form
  \<open>YYYY-MM-DDTHH:MM:SS\<close> and finds every other string invalid; its \<open>JSON.parse\<close>
  rejects every text.
\<close>

definition localIsoDate :: "jstring \<Rightarrow> js_date" where
  "localIsoDate s =
     (if length s = 19 \<and> s ! 4 = 45 \<and> s ! 7 = 45 \<and> s ! 10 = 84 \<and> s ! 13 = 58 \<and> s ! 16 = 58
      then (case (parseInt (take 4 s), parseInt (take 2 (drop 5 s)), parseInt (take 2 (drop 8 s)),
                  parseInt (take 2 (drop 11 s)), parseInt (take 2 (drop 14 s))) of
              (Some y, Some m, Some d, Some h, Some mi) \<Rightarrow>
                ValidDate \<lparr>day = daysFromCivil y m d, hours = h, minutes = mi\<rparr>
            | _ \<Rightarrow> InvalidDate)
      else InvalidDate)"

definition exampleRuntime :: runtime where
  "exampleRuntime =
     \<lparr>dateParse = localIsoDate,
      dateOfValue = (\<lambda>v. Some InvalidDate),
      jsonParse = (\<lambda>s. None),
      toNumber = (\<lambda>v. Some None),
      printable = (\<lambda>v. True)\<rparr>"

definition exampleDatefns :: datefns where
  "exampleDatefns =
     \<lparr>parseISO = localIsoDate,
      isWithinInterval = (\<lambda>d s e. None),
      formatHHmm = (\<lambda>d. None)\<rparr>"

text \<open>Monday 16 December 2024, 21:30 local time.\<close>

definition mondayEvening :: clock where
  "mondayEvening = \<lparr>nowLocal = \<lparr>day = 20073, hours = 21, minutes = 30\<rparr>, nowMs = 1734377400000\<rparr>"

text \<open>Sunday 15 December 2024, 21:30 local time.\<close>

definition sundayEvening :: clock where
  "sundayEvening = \<lparr>nowLocal = \<lparr>day = 20072, hours = 21, minutes = 30\<rparr>, nowMs = 1734291000000\<rparr>"

definition meetMessage :: message where
  "meetMessage =
     \<lparr>m_id = Some (js ''A1''),
      m_text = Some (js ''Let's meet tomorrow at 3''),
      m_timestamp = 1734350400,
      m_senderName = Some (js ''Dana''),
      m_senderId = Some (js ''972500000001@c.us''),
      m_chatId = Some (js ''972500000001@c.us'')\<rparr>"

text \<open>The detection the JavaScript detector returns for \<open>meetMessage\<close> on that Monday.\<close>

definition meetDetection :: detection where
  "meetDetection =
     \<lparr>det_id = js ''A1_1734377400000'',
      messageId = Some (js ''A1''),
      chatId = Some (js ''972500000001@c.us''),
      senderName = Some (js ''Dana''),
      extractedText = js ''Let's meet tomorrow at 3'',
      detectedKeywords = map js [''meet'', ''tomorrow'', ''at'', ''let's'', ''meet'', ''at''],
      detectedDate = Some (js ''tomorrow''),
      detectedTime = None,
      detectedNames = None,
      parsedDates = [ValidDate \<lparr>day = 20074, hours = 21, minutes = 30\<rparr>],
      confidence = 0.85,
      timestamp = 1734350400,
      llmAnalysis = None,
      llmDateTime = None,
      llmLocation = None,
      llmParticipants = None,
      llmMeetingType = None\<rparr>"

text \<open>Tuesday 17 December 2024, 15:00 to 15:30.\<close>

definition coffeeEvent :: event where
  "coffeeEvent =
     \<lparr>ev_id = js ''ev1'',
      summary = Some (js ''Coffee with Dana''),
      description = None,
      start_dateTime = Some (js ''2024-12-17T15:00:00''),
      start_date = None,
      end_dateTime = Some (js ''2024-12-17T15:30:00''),
      end_date = None,
      attendees = None,
      location = None\<rparr>"


text \<open>Events on Tuesday 17 December 2024, given by identifier, title and local start.\<close>

definition eventAt :: "string \<Rightarrow> string \<Rightarrow> string \<Rightarrow> event" where
  "eventAt ident title startsAt =
     \<lparr>ev_id = js ident,
      summary = Some (js title),
      description = None,
      start_dateTime = Some (js startsAt),
      start_date = None,
      end_dateTime = None,
      end_date = None,
      attendees = None,
      location = None\<rparr>"

definition standupEvent :: event where
  "standupEvent = eventAt ''ev10'' ''Standup'' ''2024-12-17T10:00:00''"

definition reviewEvent :: event where
  "reviewEvent = eventAt ''ev14'' ''Review'' ''2024-12-17T14:00:00''"

definition syncEvent :: event where
  "syncEvent = eventAt ''ev10b'' ''Sync'' ''2024-12-17T10:00:00''"

text \<open>Two messages of one chat, the second an hour after the first.\<close>

definition tenMessage :: message where
  "tenMessage =
     \<lparr>m_id = Some (js ''B1''),
      m_text = Some (js ''Let's meet tomorrow at 10:00''),
      m_timestamp = 1734350400,
      m_senderName = Some (js ''Dana''),
      m_senderId = Some (js ''972500000001@c.us''),
      m_chatId = Some (js ''972500000001@c.us'')\<rparr>"

definition elevenMessage :: message where
  "elevenMessage =
     \<lparr>m_id = Some (js ''B2''),
      m_text = Some (js ''Let's meet tomorrow at 11:00''),
      m_timestamp = 1734354000,
      m_senderName = Some (js ''Dana''),
      m_senderId = Some (js ''972500000001@c.us''),
      m_chatId = Some (js ''972500000001@c.us'')\<rparr>"

definition callMessage :: message where
  "callMessage =
     \<lparr>m_id = Some (js ''C1''),
      m_text = Some (js ''call me''),
      m_timestamp = 1734350400,
      m_senderName = Some (js ''Dana''),
      m_senderId = Some (js ''972500000001@c.us''),
      m_chatId = Some (js ''972500000001@c.us'')\<rparr>"

text \<open>A language-model call that always fails; it is never made when the analyzer is disabled.\<close>

definition noAnswer :: llm_call where
  "noAnswer = (\<lambda>d h. None)"

text \<open>
  A detection of low confidence with a date on Tuesday, and an event on the Thursday after.
\<close>

definition lowDetection :: detection where
  "lowDetection = meetDetection\<lparr>confidence := 0.35\<rparr>"

text \<open>
  Candidates with the confidence as the detectors compute it, in doubles: the message above
  in the JavaScript detector (six keyword matches and one date token), and a candidate of
  the TypeScript detector with one keyword match and one time token, whose confidence
  0.3 + 0.15 is 0.44999999999999996.
\<close>

definition meetDetection_double :: detection where
  "meetDetection_double = meetDetection\<lparr>confidence := calculateConfidence_double 6 1 0 0\<rparr>"

definition timeDetection_ts :: detection where
  "timeDetection_ts =
     meetDetection\<lparr>detectedDate := None, detectedTime := Some (js ''5pm''),
                    confidence := calculateConfidence_ts_double 1 0 1 0\<rparr>"

definition dentistEvent :: event where
  "dentistEvent = eventAt ''ev9'' ''Dentist'' ''2024-12-19T09:00:00''"

section \<open>Properties\<close>

subsection \<open>Confidence\<close>

lemma keyword_term_cases:
  "min (real k * 0.3) 0.6 = (if k = 0 then 0 else if k = 1 then 0.3 else 0.6)"
proof -
  have "2 \<le> k \<Longrightarrow> 0.6 \<le> real k * 0.3"
  proof -
    assume "2 \<le> k"
    then have "2 \<le> real k" by simp
    then show ?thesis by simp
  qed
  then show ?thesis by (cases "k = 0"; cases "k = 1") (auto simp: min_def)
qed

lemma term_cases:
  fixes w cap :: real
  assumes "0 < w" "w \<le> cap" "cap \<le> 2 * w"
  shows "min (real n * w) cap = (if n = 0 then 0 else if n = 1 then w else cap)"
proof -
  have "2 \<le> n \<Longrightarrow> cap \<le> real n * w"
  proof -
    assume "2 \<le> n"
    then have "2 \<le> real n" by simp
    then have "2 * w \<le> real n * w" using assms(1) by (simp add: mult_right_mono)
    then show ?thesis using assms(3) by linarith
  qed
  then show ?thesis using assms by (cases "n = 0"; cases "n = 1") (auto simp: min_def)
qed

lemma calculateConfidence_nonneg: "0 \<le> calculateConfidence k d t n"
  by (simp add: calculateConfidence_def)

lemma calculateConfidence_le1: "calculateConfidence k d t n \<le> 1"
  by (simp add: calculateConfidence_def)

lemma calculateConfidence_ts_nonneg: "0 \<le> calculateConfidence_ts k d t n"
  by (simp add: calculateConfidence_ts_def)

lemma calculateConfidence_ts_le1: "calculateConfidence_ts k d t n \<le> 1"
  by (simp add: calculateConfidence_ts_def)



lemma calculateConfidence_keyword: "1 \<le> k \<Longrightarrow> 0.3 \<le> calculateConfidence k d t n"
proof -
  assume "1 \<le> k"
  then have a: "0.3 \<le> min (real k * 0.3) 0.6" by (simp add: keyword_term_cases)
  have b: "0 \<le> min (real d * 0.25) 0.4" "0 \<le> min (real t * 0.2) 0.3"
    "0 \<le> min (real n * 0.1) 0.2" by simp_all
  show ?thesis unfolding calculateConfidence_def using a b by (simp add: min_def)
qed

lemma calculateConfidence_ts_keyword: "1 \<le> k \<Longrightarrow> 0.3 \<le> calculateConfidence_ts k d t n"
proof -
  assume "1 \<le> k"
  then have a: "0.3 \<le> min (real k * 0.3) 0.6" by (simp add: keyword_term_cases)
  have b: "0 \<le> min (real d * 0.2) 0.4" "0 \<le> min (real t * 0.15) 0.3"
    "0 \<le> min (real n * 0.1) 0.2" by simp_all
  show ?thesis unfolding calculateConfidence_ts_def using a b by (simp add: min_def)
qed

text \<open>Every confidence the detectors compute is a whole percentage.\<close>

lemma calculateConfidence_percent: "\<exists>j::int. calculateConfidence k d t n * 100 = of_int j"
proof -
  have "\<exists>a::int. min (real k * 0.3) 0.6 = of_int a / 100"
    by (rule exI[of _ "if k = 0 then 0 else if k = 1 then 30 else 60"])
      (simp add: keyword_term_cases)
  moreover have "\<exists>a::int. min (real d * 0.25) 0.4 = of_int a / 100"
    by (rule exI[of _ "if d = 0 then 0 else if d = 1 then 25 else 40"]) (simp add: term_cases)
  moreover have "\<exists>a::int. min (real t * 0.2) 0.3 = of_int a / 100"
    by (rule exI[of _ "if t = 0 then 0 else if t = 1 then 20 else 30"]) (simp add: term_cases)
  moreover have "\<exists>a::int. min (real n * 0.1) 0.2 = of_int a / 100"
    by (rule exI[of _ "if n = 0 then 0 else if n = 1 then 10 else 20"]) (simp add: term_cases)
  ultimately obtain a b c e :: int where
    "min (real k * 0.3) 0.6 = of_int a / 100" "min (real d * 0.25) 0.4 = of_int b / 100"
    "min (real t * 0.2) 0.3 = of_int c / 100" "min (real n * 0.1) 0.2 = of_int e / 100"
    by blast
  then have "calculateConfidence k d t n * 100 = of_int (min (a + b + c + e) 100)"
    unfolding calculateConfidence_def by (simp add: min_def)
  then show ?thesis by blast
qed

lemma calculateConfidence_ts_percent: "\<exists>j::int. calculateConfidence_ts k d t n * 100 = of_int j"
proof -
  have "\<exists>a::int. min (real k * 0.3) 0.6 = of_int a / 100"
    by (rule exI[of _ "if k = 0 then 0 else if k = 1 then 30 else 60"])
      (simp add: keyword_term_cases)
  moreover have "\<exists>a::int. min (real d * 0.2) 0.4 = of_int a / 100"
    by (rule exI[of _ "if d = 0 then 0 else if d = 1 then 20 else 40"]) (simp add: term_cases)
  moreover have "\<exists>a::int. min (real t * 0.15) 0.3 = of_int a / 100"
    by (rule exI[of _ "if t = 0 then 0 else if t = 1 then 15 else 30"]) (simp add: term_cases)
  moreover have "\<exists>a::int. min (real n * 0.1) 0.2 = of_int a / 100"
    by (rule exI[of _ "if n = 0 then 0 else if n = 1 then 10 else 20"]) (simp add: term_cases)
  ultimately obtain a b c e :: int where
    "min (real k * 0.3) 0.6 = of_int a / 100" "min (real d * 0.2) 0.4 = of_int b / 100"
    "min (real t * 0.15) 0.3 = of_int c / 100" "min (real n * 0.1) 0.2 = of_int e / 100"
    by blast
  then have "calculateConfidence_ts k d t n * 100 = of_int (min (a + b + c + e) 100)"
    unfolding calculateConfidence_ts_def by (simp add: min_def)
  then show ?thesis by blast
qed

lemma round_percent:
  fixes c :: real
  assumes "c * 100 = of_int j"
  shows "round (c * 100) = j" "(j > 30) = (c > 0.3)"
proof -
  show "round (c * 100) = j" using assms by simp
  have "(30 < j) = (30 < (of_int j :: real))" by simp
  also have "\<dots> = (30 < c * 100)" using assms by simp
  also have "\<dots> = (c > 0.3)" by auto
  finally show "(j > 30) = (c > 0.3)" .
qed



subsection \<open>Candidates and the pruning threshold\<close>

lemma analyzeMessage_meetMessage: "analyzeMessage mondayEvening meetMessage = Some meetDetection"
  by code_simp

lemma analyzeMessage_confidence:
  assumes "analyzeMessage clk m = Some d"
  shows "\<exists>k dn tn nn. 1 \<le> k \<and> confidence d = calculateConfidence k dn tn nn"
proof -
  let ?orig = "case m_text m of None \<Rightarrow> [] | Some t \<Rightarrow> t"
  let ?k = "length (matchingKeywords hebrewKeywords (toLowerCase ?orig))
            + length (matchingKeywords englishKeywords (toLowerCase ?orig))"
  from assms have "?k \<noteq> 0 \<and> confidence d = calculateConfidence ?k (length (extractDates ?orig))
      (length (extractTimes ?orig)) (length (extractNames ?orig))"
    unfolding analyzeMessage_def Let_def by (auto split: if_splits)
  then have "1 \<le> ?k \<and> confidence d = calculateConfidence ?k (length (extractDates ?orig))
      (length (extractTimes ?orig)) (length (extractNames ?orig))"
    by linarith
  then show ?thesis by blast
qed

lemma analyzeMessage_ts_confidence:
  assumes "analyzeMessage_ts clk m = Some d"
  shows "\<exists>k dn tn nn. 1 \<le> k \<and> confidence d = calculateConfidence_ts k dn tn nn"
proof -
  let ?orig = "case m_text m of None \<Rightarrow> [] | Some t \<Rightarrow> t"
  let ?k = "length (matchingKeywords hebrewKeywords_ts (toLowerCase ?orig))
            + length (matchingKeywords englishKeywords_ts (toLowerCase ?orig))"
  from assms have "?k \<noteq> 0 \<and> confidence d = calculateConfidence_ts ?k
      (length (extractWith datePatterns_ts ?orig)) (length (extractWith timePatterns_ts ?orig))
      (length (namesOf namePatterns_ts ?orig))"
    unfolding analyzeMessage_ts_def Let_def by (auto split: if_splits)
  then have "1 \<le> ?k \<and> confidence d = calculateConfidence_ts ?k
      (length (extractWith datePatterns_ts ?orig)) (length (extractWith timePatterns_ts ?orig))
      (length (namesOf namePatterns_ts ?orig))"
    by linarith
  then show ?thesis by blast
qed

lemma analyzeMessage_keeps:
  assumes "m_text m = Some txt" "trim (toLowerCase txt) \<noteq> []"
    "matchingKeywords hebrewKeywords (toLowerCase txt) \<noteq> [] \<or> matchingKeywords englishKeywords (toLowerCase txt) \<noteq> []"
  shows "analyzeMessage clk m \<noteq> None"
proof -
  define k where "k = length (matchingKeywords hebrewKeywords (toLowerCase txt)) + length (matchingKeywords englishKeywords (toLowerCase txt))"
  have k: "1 \<le> k" using assms(3) unfolding k_def by (cases "matchingKeywords hebrewKeywords (toLowerCase txt)"; cases "matchingKeywords englishKeywords (toLowerCase txt)") auto
  have "\<not> calculateConfidence k a b c < 0.1" for a b c
    using calculateConfidence_keyword[OF k, of a b c] by simp
  then show ?thesis using assms k
    unfolding analyzeMessage_def Let_def k_def by (simp split: if_splits)
qed

lemma analyzeMessage_ts_keeps:
  assumes "m_text m = Some txt"
    "matchingKeywords hebrewKeywords_ts (toLowerCase txt) \<noteq> [] \<or> matchingKeywords englishKeywords_ts (toLowerCase txt) \<noteq> []"
  shows "analyzeMessage_ts clk m \<noteq> None"
proof -
  define k where "k = length (matchingKeywords hebrewKeywords_ts (toLowerCase txt)) + length (matchingKeywords englishKeywords_ts (toLowerCase txt))"
  have k: "1 \<le> k" using assms(2) unfolding k_def by (cases "matchingKeywords hebrewKeywords_ts (toLowerCase txt)"; cases "matchingKeywords englishKeywords_ts (toLowerCase txt)") auto
  have "\<not> calculateConfidence_ts k a b c < 0.3" for a b c
    using calculateConfidence_ts_keyword[OF k, of a b c] by simp
  then show ?thesis using assms k
    unfolding analyzeMessage_ts_def Let_def k_def by (simp split: if_splits)
qed

text \<open>
  C10. A candidate, when one is produced, has a heuristic confidence of at least 0.3: one
  keyword match alone contributes 0.3. So the pruning branch (confidence below 0.1 in
  the JavaScript detector, below 0.3 in the TypeScript detector) never discards a message
  with a keyword match: such a message always yields a candidate.
\<close>

theorem candidate_confidence_at_least_keyword_weight:
  "(analyzeMessage clk m = Some d \<longrightarrow> 0.3 \<le> confidence d)
   \<and> (analyzeMessage_ts clk m = Some d \<longrightarrow> 0.3 \<le> confidence d)
   \<and> (m_text m = Some txt \<and> trim (toLowerCase txt) \<noteq> []
        \<and> (matchingKeywords hebrewKeywords (toLowerCase txt) \<noteq> []
            \<or> matchingKeywords englishKeywords (toLowerCase txt) \<noteq> [])
       \<longrightarrow> analyzeMessage clk m \<noteq> None)
   \<and> (m_text m = Some txt
        \<and> (matchingKeywords hebrewKeywords_ts (toLowerCase txt) \<noteq> []
            \<or> matchingKeywords englishKeywords_ts (toLowerCase txt) \<noteq> [])
       \<longrightarrow> analyzeMessage_ts clk m \<noteq> None)"
proof (intro conjI impI)
  assume "analyzeMessage clk m = Some d"
  then obtain k dn tn nn where "1 \<le> k" "confidence d = calculateConfidence k dn tn nn"
    using analyzeMessage_confidence by blast
  then show "0.3 \<le> confidence d" using calculateConfidence_keyword by simp
next
  assume "analyzeMessage_ts clk m = Some d"
  then obtain k dn tn nn where "1 \<le> k" "confidence d = calculateConfidence_ts k dn tn nn"
    using analyzeMessage_ts_confidence by blast
  then show "0.3 \<le> confidence d" using calculateConfidence_ts_keyword by simp
next
  assume "m_text m = Some txt \<and> trim (toLowerCase txt) \<noteq> []
        \<and> (matchingKeywords hebrewKeywords (toLowerCase txt) \<noteq> []
            \<or> matchingKeywords englishKeywords (toLowerCase txt) \<noteq> [])"
  then show "analyzeMessage clk m \<noteq> None" using analyzeMessage_keeps by blast
next
  assume "m_text m = Some txt
        \<and> (matchingKeywords hebrewKeywords_ts (toLowerCase txt) \<noteq> []
            \<or> matchingKeywords englishKeywords_ts (toLowerCase txt) \<noteq> [])"
  then show "analyzeMessage_ts clk m \<noteq> None" using analyzeMessage_ts_keeps by blast
qed

lemma meetMessage_keywords_ts:
  "matchingKeywords englishKeywords_ts (toLowerCase (js ''Let's meet tomorrow at 3'')) = map js [''meet'', ''tomorrow'', ''at'']"
  by code_simp

theorem candidate_confidence_at_least_keyword_weight_witness:
  "analyzeMessage mondayEvening meetMessage = Some meetDetection
   \<and> 0.3 \<le> confidence meetDetection
   \<and> analyzeMessage_ts mondayEvening meetMessage \<noteq> None"
proof -
  have t: "m_text meetMessage = Some (js ''Let's meet tomorrow at 3'')" by (simp add: meetMessage_def)
  have k: "matchingKeywords englishKeywords_ts (toLowerCase (js ''Let's meet tomorrow at 3'')) \<noteq> []"
    by (simp add: meetMessage_keywords_ts)
  from candidate_confidence_at_least_keyword_weight
         [of mondayEvening meetMessage meetDetection "js ''Let's meet tomorrow at 3''"]
       analyzeMessage_meetMessage t k
  show ?thesis by blast
qed

subsection \<open>Rounding to a double\<close>

text \<open>
  The error of one rounding is at most the value divided by \<open>2^53\<close>
  (\<open>roundDouble_error\<close>). From it, the confidence that the code computes in doubles
  differs from the exact sum of the capped weights by less than \<open>10^-14\<close>
  (\<open>calculateConfidence_double_error\<close>), whatever the counts.
\<close>

lemma bitLength_bounds:
  "1 \<le> n \<Longrightarrow> (2::int) ^ nat (bitLength n - 1) \<le> n \<and> n < 2 ^ nat (bitLength n) \<and> 1 \<le> bitLength n"
proof (induction n rule: bitLength.induct)
  case (1 n)
  show ?case
  proof (cases "n = 1")
    case True
    have "bitLength 1 = 1" by (simp add: bitLength.simps)
    then show ?thesis using True by simp
  next
    case False
    with "1.prems" have n2: "2 \<le> n" by simp
    then have m: "1 \<le> n div 2" by simp
    have nn: "\<not> n \<le> 0" using n2 by simp
    from "1.IH"[OF nn m] have ih: "(2::int) ^ nat (bitLength (n div 2) - 1) \<le> n div 2"
      "n div 2 < 2 ^ nat (bitLength (n div 2))" "1 \<le> bitLength (n div 2)" by simp_all
    have e: "bitLength n = 1 + bitLength (n div 2)" using nn by (subst bitLength.simps) simp
    define j where "j = nat (bitLength (n div 2) - 1)"
    have j1: "nat (bitLength (n div 2)) = Suc j" using ih(3) by (simp add: j_def)
    have j2: "nat (bitLength n - 1) = Suc j" "nat (bitLength n) = Suc (Suc j)"
      using ih(3) e by (simp_all add: j_def)
    have a: "(2::int) ^ j \<le> n div 2" using ih(1) by (simp add: j_def)
    have b: "n div 2 < 2 ^ Suc j" using ih(2) j1 by simp
    have "(2::int) ^ Suc j \<le> 2 * (n div 2)" using a by simp
    also have "\<dots> \<le> n" by simp
    finally have lo: "(2::int) ^ Suc j \<le> n" .
    have "n < 2 * (n div 2) + 2" by presburger
    also have "\<dots> \<le> 2 * 2 ^ Suc j" using b by simp
    finally have hi: "n < 2 ^ Suc (Suc j)" by simp
    show ?thesis using lo hi e ih(3) j2 by simp
  qed
qed

lemma exponentOf_lower:
  assumes "0 < x"
  shows "2 powi exponentOf x \<le> x"
proof (cases "1 \<le> x")
  case True
  then have n: "1 \<le> \<lfloor>x\<rfloor>" by simp
  from bitLength_bounds[OF n] have b: "(2::int) ^ nat (bitLength \<lfloor>x\<rfloor> - 1) \<le> \<lfloor>x\<rfloor>" "1 \<le> bitLength \<lfloor>x\<rfloor>"
    by simp_all
  have "2 powi exponentOf x = (2::real) ^ nat (bitLength \<lfloor>x\<rfloor> - 1)"
    using True b(2) by (simp add: exponentOf_def power_int_def)
  also have "\<dots> = of_int (2 ^ nat (bitLength \<lfloor>x\<rfloor> - 1))" by simp
  also have "\<dots> \<le> of_int \<lfloor>x\<rfloor>" using b(1) by (simp only: of_int_le_iff)
  also have "\<dots> \<le> x" by simp
  finally show ?thesis .
next
  case False
  then have x1: "x < 1" by simp
  define c where "c = \<lceil>1 / x\<rceil>"
  have "1 < 1 / x" using assms x1 by simp
  then have c2: "2 \<le> c" unfolding c_def by linarith
  then have c1: "1 \<le> c - 1" by simp
  define j where "j = nat (bitLength (c - 1))"
  from bitLength_bounds[OF c1] have b: "c - 1 < 2 ^ j" "1 \<le> bitLength (c - 1)"
    by (simp_all add: j_def)
  then have "c \<le> 2 ^ j" by simp
  then have "(of_int c :: real) \<le> of_int (2 ^ j)" by (simp only: of_int_le_iff)
  then have cj: "(of_int c :: real) \<le> 2 ^ j" by simp
  have "1 / x \<le> of_int c" unfolding c_def by simp
  then have "1 / x \<le> 2 ^ j" using cj by linarith
  then have "1 \<le> 2 ^ j * x" using assms by (simp add: field_simps)
  then have lo: "1 / 2 ^ j \<le> x" by (simp add: field_simps)
  have "exponentOf x = - int j" using False b(2) by (simp add: exponentOf_def c_def j_def)
  then have "2 powi exponentOf x = (1::real) / 2 ^ j"
    by (simp add: power_int_def field_simps)
  then show ?thesis using lo by simp
qed

lemma roundTiesToEven_error: "\<bar>of_int (roundTiesToEven r) - r\<bar> \<le> 1 / 2"
proof -
  define f where "f = \<lfloor>r\<rfloor>"
  have "of_int f \<le> r" "r < of_int f + 1" unfolding f_def by linarith+
  then show ?thesis unfolding roundTiesToEven_def Let_def f_def[symmetric] by (auto simp: abs_if)
qed

lemma roundTiesToEven_nonneg: "0 \<le> r \<Longrightarrow> 0 \<le> roundTiesToEven r"
  unfolding roundTiesToEven_def Let_def by (auto simp: abs_if) 

lemma roundDouble_nonneg: "0 \<le> x \<Longrightarrow> 0 \<le> roundDouble x"
  unfolding roundDouble_def Let_def
  by (auto simp: roundTiesToEven_nonneg zero_le_mult_iff intro!: mult_nonneg_nonneg)

lemma roundDouble_error:
  assumes "0 \<le> x"
  shows "\<bar>roundDouble x - x\<bar> \<le> x / 2 ^ 53"
proof (cases "x = 0")
  case True
  then show ?thesis by (simp add: roundDouble_def)
next
  case False
  with assms have x: "0 < x" by simp
  define u :: real where "u = 2 powi (exponentOf x - 52)"
  have u: "0 < u" by (simp add: u_def)
  have r: "roundDouble x = of_int (roundTiesToEven (x / u)) * u"
    using x by (simp add: roundDouble_def Let_def u_def)
  have "of_int (roundTiesToEven (x / u)) * u - x = (of_int (roundTiesToEven (x / u)) - x / u) * u"
    using u by (simp add: field_simps)
  then have "\<bar>of_int (roundTiesToEven (x / u)) * u - x\<bar> = \<bar>of_int (roundTiesToEven (x / u)) - x / u\<bar> * u"
    using u by (simp only: abs_mult abs_of_pos)
  also have "\<dots> \<le> 1 / 2 * u"
    using roundTiesToEven_error[of "x / u"] u by (intro mult_right_mono) simp_all
  also have "\<dots> = 2 powi exponentOf x / 2 ^ 53"
    by (simp add: u_def power_int_diff)
  also have "\<dots> \<le> x / 2 ^ 53"
    using exponentOf_lower[OF x] by (simp add: divide_right_mono)
  finally show ?thesis using r by simp
qed

lemma pow53: "(2::real) ^ 53 = 9007199254740992"
  by simp

lemma roundDouble_bounds:
  assumes "0 \<le> x"
  shows "x - x / 9007199254740992 \<le> roundDouble x" "roundDouble x \<le> x + x / 9007199254740992"
proof -
  have "\<bar>roundDouble x - x\<bar> \<le> x / 9007199254740992"
    using roundDouble_error[OF assms] by (simp only: pow53)
  then have "roundDouble x - x \<le> x / 9007199254740992" "- (x / 9007199254740992) \<le> roundDouble x - x"
    by (simp_all only: abs_le_iff minus_diff_eq) linarith+
  then show "x - x / 9007199254740992 \<le> roundDouble x" "roundDouble x \<le> x + x / 9007199254740992" by linarith+
qed

lemma min_close:
  fixes x :: real
  assumes "x - e \<le> x'" "x' \<le> x + e" "y - e \<le> y'" "y' \<le> y + e"
  shows "min x y - e \<le> min x' y'" "min x' y' \<le> min x y + e"
  using assms by (auto simp: min_def)

lemma term_error:
  assumes "0 < w" "w \<le> 1" "0 < cap" "cap \<le> 1"
  shows "min (real k * w) cap - 5 / 9007199254740992 \<le> min (roundDouble (real k * roundDouble w)) (roundDouble cap)"
    and "min (roundDouble (real k * roundDouble w)) (roundDouble cap) \<le> min (real k * w) cap + 5 / 9007199254740992"
    and "0 \<le> min (roundDouble (real k * roundDouble w)) (roundDouble cap)"
    and "min (roundDouble (real k * roundDouble w)) (roundDouble cap) \<le> 2"
proof -
  define a where "a = roundDouble w"
  define b where "b = roundDouble cap"
  define p where "p = real k * a"
  define q where "q = roundDouble p"
  define m where "m = real k * w"
  have a0: "0 \<le> a" unfolding a_def using assms(1) by (simp add: roundDouble_nonneg)
  have b0: "0 \<le> b" unfolding b_def using assms(3) by (simp add: roundDouble_nonneg)
  have p0: "0 \<le> p" unfolding p_def using a0 by simp
  have q0: "0 \<le> q" unfolding q_def using p0 by (simp add: roundDouble_nonneg)
  have ea: "w - w / 9007199254740992 \<le> a" "a \<le> w + w / 9007199254740992"
    unfolding a_def using roundDouble_bounds[of w] assms(1) by simp_all
  have eb: "cap - cap / 9007199254740992 \<le> b" "b \<le> cap + cap / 9007199254740992"
    unfolding b_def using roundDouble_bounds[of cap] assms(3) by simp_all
  have eq: "p - p / 9007199254740992 \<le> q" "q \<le> p + p / 9007199254740992"
    unfolding q_def using roundDouble_bounds[OF p0] by simp_all
  have "real k * (w - w / 9007199254740992) \<le> real k * a" using ea(1) by (intro mult_left_mono) simp_all
  then have ep1: "m - m / 9007199254740992 \<le> p" unfolding m_def p_def by (simp add: algebra_simps)
  have "real k * a \<le> real k * (w + w / 9007199254740992)" using ea(2) by (intro mult_left_mono) simp_all
  then have ep2: "p \<le> m + m / 9007199254740992" unfolding m_def p_def by (simp add: algebra_simps)
  have b2: "b \<le> 3 / 2" using eb(2) assms(4) by linarith
  have be: "cap - 5 / 9007199254740992 \<le> b" "b \<le> cap + 5 / 9007199254740992" using eb assms(3,4) by linarith+
  have main: "min m cap - 5 / 9007199254740992 \<le> min q b \<and> min q b \<le> min m cap + 5 / 9007199254740992"
  proof (cases "m \<le> 2")
    case True
    have "p \<le> 3" using ep2 True by linarith
    then have "q \<le> p + 3 / 9007199254740992" "p - 3 / 9007199254740992 \<le> q" using eq by linarith+
    moreover have "p \<le> m + 2 / 9007199254740992" "m - 2 / 9007199254740992 \<le> p"
      using ep1 ep2 True by linarith+
    ultimately have "m - 5 / 9007199254740992 \<le> q" "q \<le> m + 5 / 9007199254740992" by linarith+
    from min_close[OF this be] show ?thesis by simp
  next
    case False
    then have "19 / 10 \<le> p" using ep1 by linarith
    then have "18 / 10 \<le> q" using eq(1) by linarith
    then have "min q b = b" using b2 by simp
    moreover have "min m cap = cap" using False assms(4) by simp
    ultimately show ?thesis using be by simp
  qed
  show "min (real k * w) cap - 5 / 9007199254740992 \<le> min (roundDouble (real k * roundDouble w)) (roundDouble cap)"
    using main unfolding q_def p_def a_def b_def m_def by simp
  show "min (roundDouble (real k * roundDouble w)) (roundDouble cap) \<le> min (real k * w) cap + 5 / 9007199254740992"
    using main unfolding q_def p_def a_def b_def m_def by simp
  show "0 \<le> min (roundDouble (real k * roundDouble w)) (roundDouble cap)"
    using q0 b0 unfolding q_def p_def a_def b_def by simp
  have "min q b \<le> 2" using b2 by simp
  then show "min (roundDouble (real k * roundDouble w)) (roundDouble cap) \<le> 2"
    unfolding q_def p_def a_def b_def .
qed

lemma add_error:
  assumes "0 \<le> a" "0 \<le> b" "a + b \<le> 16"
  shows "a + b - 16 / 9007199254740992 \<le> roundDouble (a + b)" "roundDouble (a + b) \<le> a + b + 16 / 9007199254740992"
    "0 \<le> roundDouble (a + b)"
proof -
  define s where "s = a + b"
  have s: "0 \<le> s" "s \<le> 16" using assms by (simp_all add: s_def)
  from roundDouble_bounds[OF s(1)] s(2)
  have "s - 16 / 9007199254740992 \<le> roundDouble s" "roundDouble s \<le> s + 16 / 9007199254740992" by linarith+
  then show "a + b - 16 / 9007199254740992 \<le> roundDouble (a + b)" "roundDouble (a + b) \<le> a + b + 16 / 9007199254740992"
    unfolding s_def .
  show "0 \<le> roundDouble (a + b)" using assms by (simp add: roundDouble_nonneg)
qed

lemma sum_error:
  assumes t1: "E1 - 5 / 9007199254740992 \<le> T1" "T1 \<le> E1 + 5 / 9007199254740992" "0 \<le> T1" "T1 \<le> 2"
      and t2: "E2 - 5 / 9007199254740992 \<le> T2" "T2 \<le> E2 + 5 / 9007199254740992" "0 \<le> T2" "T2 \<le> 2"
      and t3: "E3 - 5 / 9007199254740992 \<le> T3" "T3 \<le> E3 + 5 / 9007199254740992" "0 \<le> T3" "T3 \<le> 2"
      and t4: "E4 - 5 / 9007199254740992 \<le> T4" "T4 \<le> E4 + 5 / 9007199254740992" "0 \<le> T4" "T4 \<le> 2"
  shows "min (E1 + E2 + E3 + E4) 1 - 84 / 9007199254740992
           \<le> min (roundDouble (roundDouble (roundDouble (roundDouble (0 + T1) + T2) + T3) + T4)) (roundDouble 1)"
    and "min (roundDouble (roundDouble (roundDouble (roundDouble (0 + T1) + T2) + T3) + T4)) (roundDouble 1)
           \<le> min (E1 + E2 + E3 + E4) 1 + 84 / 9007199254740992"
    and "0 \<le> min (roundDouble (roundDouble (roundDouble (roundDouble (0 + T1) + T2) + T3) + T4)) (roundDouble 1)"
    and "min (roundDouble (roundDouble (roundDouble (roundDouble (0 + T1) + T2) + T3) + T4)) (roundDouble 1) \<le> 2"
proof -
  define c1 where "c1 = roundDouble (0 + T1)"
  define c2 where "c2 = roundDouble (c1 + T2)"
  define c3 where "c3 = roundDouble (c2 + T3)"
  define c4 where "c4 = roundDouble (c3 + T4)"
  define o1 where "o1 = roundDouble 1"
  have z: "(0::real) \<le> 0" by simp
  have "0 + T1 \<le> 16" using t1(4) by simp
  from add_error[OF z t1(3) this]
  have e1: "0 + T1 - 16 / 9007199254740992 \<le> c1" "c1 \<le> 0 + T1 + 16 / 9007199254740992" "0 \<le> c1"
    unfolding c1_def .
  have "c1 + T2 \<le> 16" using e1(2) t1(4) t2(4) by linarith
  from add_error[OF e1(3) t2(3) this]
  have e2: "c1 + T2 - 16 / 9007199254740992 \<le> c2" "c2 \<le> c1 + T2 + 16 / 9007199254740992" "0 \<le> c2"
    unfolding c2_def .
  have "c2 + T3 \<le> 16" using e2(2) e1(2) t1(4) t2(4) t3(4) by linarith
  from add_error[OF e2(3) t3(3) this]
  have e3: "c2 + T3 - 16 / 9007199254740992 \<le> c3" "c3 \<le> c2 + T3 + 16 / 9007199254740992" "0 \<le> c3"
    unfolding c3_def .
  have "c3 + T4 \<le> 16" using e3(2) e2(2) e1(2) t1(4) t2(4) t3(4) t4(4) by linarith
  from add_error[OF e3(3) t4(3) this]
  have e4: "c3 + T4 - 16 / 9007199254740992 \<le> c4" "c4 \<le> c3 + T4 + 16 / 9007199254740992" "0 \<le> c4"
    unfolding c4_def .
  have o: "1 - 84 / 9007199254740992 \<le> o1" "o1 \<le> 1 + 84 / 9007199254740992"
    unfolding o1_def using roundDouble_bounds[of 1] by simp_all
  have lo: "(E1 + E2 + E3 + E4) - 84 / 9007199254740992 \<le> c4"
    using e1(1) e2(1) e3(1) e4(1) t1(1) t2(1) t3(1) t4(1) by linarith
  have hi: "c4 \<le> (E1 + E2 + E3 + E4) + 84 / 9007199254740992"
    using e1(2) e2(2) e3(2) e4(2) t1(2) t2(2) t3(2) t4(2) by linarith
  note r = min_close[OF lo hi o]
  have r2: "0 \<le> min c4 o1" using e4(3) o(1) by simp
  have r3: "min c4 o1 \<le> 2" using o(2) by simp
  show "min (E1 + E2 + E3 + E4) 1 - 84 / 9007199254740992
           \<le> min (roundDouble (roundDouble (roundDouble (roundDouble (0 + T1) + T2) + T3) + T4)) (roundDouble 1)"
    using r(1) unfolding c4_def c3_def c2_def c1_def o1_def .
  show "min (roundDouble (roundDouble (roundDouble (roundDouble (0 + T1) + T2) + T3) + T4)) (roundDouble 1)
           \<le> min (E1 + E2 + E3 + E4) 1 + 84 / 9007199254740992"
    using r(2) unfolding c4_def c3_def c2_def c1_def o1_def .
  show "0 \<le> min (roundDouble (roundDouble (roundDouble (roundDouble (0 + T1) + T2) + T3) + T4)) (roundDouble 1)"
    using r2 unfolding c4_def c3_def c2_def c1_def o1_def .
  show "min (roundDouble (roundDouble (roundDouble (roundDouble (0 + T1) + T2) + T3) + T4)) (roundDouble 1) \<le> 2"
    using r3 unfolding c4_def c3_def c2_def c1_def o1_def .
qed

lemma calculateConfidence_double_error:
  "calculateConfidence k d t n - 84 / 9007199254740992 \<le> calculateConfidence_double k d t n"
  "calculateConfidence_double k d t n \<le> calculateConfidence k d t n + 84 / 9007199254740992"
  "0 \<le> calculateConfidence_double k d t n"
  "calculateConfidence_double k d t n \<le> 2"
proof -
  have a: "(0::real) < 0.3" "(0.3::real) \<le> 1" "(0::real) < 0.6" "(0.6::real) \<le> 1" by simp_all
  have b: "(0::real) < 0.25" "(0.25::real) \<le> 1" "(0::real) < 0.4" "(0.4::real) \<le> 1" by simp_all
  have c: "(0::real) < 0.2" "(0.2::real) \<le> 1" "(0::real) < 0.3" "(0.3::real) \<le> 1" by simp_all
  have e: "(0::real) < 0.1" "(0.1::real) \<le> 1" "(0::real) < 0.2" "(0.2::real) \<le> 1" by simp_all
  note s = sum_error[OF term_error[OF a, of k] term_error[OF b, of d]
                        term_error[OF c, of t] term_error[OF e, of n]]
  have x: "calculateConfidence k d t n
            = min (min (real k * 0.3) 0.6 + min (real d * 0.25) 0.4
                   + min (real t * 0.2) 0.3 + min (real n * 0.1) 0.2) 1"
    by (simp add: calculateConfidence_def)
  show "calculateConfidence k d t n - 84 / 9007199254740992 \<le> calculateConfidence_double k d t n"
    unfolding x calculateConfidence_double_def Let_def by (rule s(1))
  show "calculateConfidence_double k d t n \<le> calculateConfidence k d t n + 84 / 9007199254740992"
    unfolding x calculateConfidence_double_def Let_def by (rule s(2))
  show "0 \<le> calculateConfidence_double k d t n"
    unfolding calculateConfidence_double_def Let_def by (rule s(3))
  show "calculateConfidence_double k d t n \<le> 2"
    unfolding calculateConfidence_double_def Let_def by (rule s(4))
qed

lemma calculateConfidence_ts_double_error:
  "calculateConfidence_ts k d t n - 84 / 9007199254740992 \<le> calculateConfidence_ts_double k d t n"
  "calculateConfidence_ts_double k d t n \<le> calculateConfidence_ts k d t n + 84 / 9007199254740992"
  "0 \<le> calculateConfidence_ts_double k d t n"
  "calculateConfidence_ts_double k d t n \<le> 2"
proof -
  have a: "(0::real) < 0.3" "(0.3::real) \<le> 1" "(0::real) < 0.6" "(0.6::real) \<le> 1" by simp_all
  have b: "(0::real) < 0.2" "(0.2::real) \<le> 1" "(0::real) < 0.4" "(0.4::real) \<le> 1" by simp_all
  have c: "(0::real) < 0.15" "(0.15::real) \<le> 1" "(0::real) < 0.3" "(0.3::real) \<le> 1" by simp_all
  have e: "(0::real) < 0.1" "(0.1::real) \<le> 1" "(0::real) < 0.2" "(0.2::real) \<le> 1" by simp_all
  note s = sum_error[OF term_error[OF a, of k] term_error[OF b, of d]
                        term_error[OF c, of t] term_error[OF e, of n]]
  have x: "calculateConfidence_ts k d t n
            = min (min (real k * 0.3) 0.6 + min (real d * 0.2) 0.4
                   + min (real t * 0.15) 0.3 + min (real n * 0.1) 0.2) 1"
    by (simp add: calculateConfidence_ts_def)
  show "calculateConfidence_ts k d t n - 84 / 9007199254740992 \<le> calculateConfidence_ts_double k d t n"
    unfolding x calculateConfidence_ts_double_def Let_def by (rule s(1))
  show "calculateConfidence_ts_double k d t n \<le> calculateConfidence_ts k d t n + 84 / 9007199254740992"
    unfolding x calculateConfidence_ts_double_def Let_def by (rule s(2))
  show "0 \<le> calculateConfidence_ts_double k d t n"
    unfolding calculateConfidence_ts_double_def Let_def by (rule s(3))
  show "calculateConfidence_ts_double k d t n \<le> 2"
    unfolding calculateConfidence_ts_double_def Let_def by (rule s(4))
qed

lemma calculateConfidence_double_one_keyword: "calculateConfidence_double 1 0 0 0 = 5404319552844595 / 18014398509481984"
  by code_simp

lemma calculateConfidence_ts_double_one_keyword: "calculateConfidence_ts_double 1 0 0 0 = 5404319552844595 / 18014398509481984"
  by code_simp

lemma roundDouble_three_tenths: "roundDouble 0.3 = 5404319552844595 / 18014398509481984"
  by code_simp

lemma calculateConfidence_ts_double_keyword_time: "calculateConfidence_ts_double 1 0 1 0 = 8106479329266892 / 18014398509481984"
  by code_simp

lemma percent_round:
  assumes "E - 84 / 9007199254740992 \<le> C" "C \<le> E + 84 / 9007199254740992" "0 \<le> C" "C \<le> 2" "E * 100 = of_int j"
  shows "round (roundDouble (C * 100)) = j" "round (C * 100) = j"
proof -
  define p where "p = C * 100"
  have p: "0 \<le> p" "p \<le> 200" using assms(3,4) by (simp_all add: p_def)
  have pj: "of_int j - 8400 / 9007199254740992 \<le> p" "p \<le> of_int j + 8400 / 9007199254740992"
    using assms(1,2) assms(5)[symmetric] by (simp_all add: p_def)
  from roundDouble_bounds[OF p(1)] p(2)
  have "p - 200 / 9007199254740992 \<le> roundDouble p" "roundDouble p \<le> p + 200 / 9007199254740992" by linarith+
  then have "\<bar>roundDouble p - of_int j\<bar> < 1 / 2" using pj by linarith
  then show "round (roundDouble (C * 100)) = j" unfolding p_def by (rule round_unique')
  have "\<bar>p - of_int j\<bar> < 1 / 2" using pj by linarith
  then show "round (C * 100) = j" unfolding p_def by (rule round_unique')
qed

lemma calculateConfidence_least:
  assumes "1 \<le> k" "calculateConfidence k d t n \<le> 0.3"
  shows "k = 1 \<and> d = 0 \<and> t = 0 \<and> n = 0"
proof -
  have k: "1 \<le> real k" using assms(1) by simp
  define A where "A = min (real k * 0.3) 0.6"
  define B where "B = min (real d * 0.25) 0.4"
  define G where "G = min (real t * 0.2) 0.3"
  define D where "D = min (real n * 0.1) 0.2"
  have nn: "0.3 \<le> A" "0 \<le> B" "0 \<le> G" "0 \<le> D"
    using k by (simp_all add: A_def B_def G_def D_def)
  have e: "calculateConfidence k d t n = min (A + B + G + D) 1"
    by (simp add: calculateConfidence_def A_def B_def G_def D_def)
  have "min (A + B + G + D) 1 \<le> 0.3" using assms(2) unfolding e .
  then have s: "A + B + G + D \<le> 0.3" by linarith
  then have "A \<le> 0.3" "B \<le> 0" "G \<le> 0" "D \<le> 0" using nn by linarith+
  then have "real k \<le> 1" "real d \<le> 0" "real t \<le> 0" "real n \<le> 0"
    by (simp_all add: A_def B_def G_def D_def min_def split: if_splits)
  then show ?thesis using assms(1) by simp
qed

lemma calculateConfidence_ts_least:
  assumes "1 \<le> k" "calculateConfidence_ts k d t n \<le> 0.3"
  shows "k = 1 \<and> d = 0 \<and> t = 0 \<and> n = 0"
proof -
  have k: "1 \<le> real k" using assms(1) by simp
  define A where "A = min (real k * 0.3) 0.6"
  define B where "B = min (real d * 0.2) 0.4"
  define G where "G = min (real t * 0.15) 0.3"
  define D where "D = min (real n * 0.1) 0.2"
  have nn: "0.3 \<le> A" "0 \<le> B" "0 \<le> G" "0 \<le> D"
    using k by (simp_all add: A_def B_def G_def D_def)
  have e: "calculateConfidence_ts k d t n = min (A + B + G + D) 1"
    by (simp add: calculateConfidence_ts_def A_def B_def G_def D_def)
  have "min (A + B + G + D) 1 \<le> 0.3" using assms(2) unfolding e .
  then have s: "A + B + G + D \<le> 0.3" by linarith
  then have "A \<le> 0.3" "B \<le> 0" "G \<le> 0" "D \<le> 0" using nn by linarith+
  then have "real k \<le> 1" "real d \<le> 0" "real t \<le> 0" "real n \<le> 0"
    by (simp_all add: A_def B_def G_def D_def min_def split: if_splits)
  then show ?thesis using assms(1) by simp
qed

lemma threshold_agrees:
  assumes "E - 84 / 9007199254740992 \<le> C" "C \<le> E + 84 / 9007199254740992" "E * 100 = of_int j"
    and "E \<le> 0.3 \<Longrightarrow> C = 5404319552844595 / 18014398509481984"
  shows "(30 < j) = (0.3 < C)" "(30 < j) = (roundDouble 0.3 < C)"
proof -
  have r: "roundDouble 0.3 = 5404319552844595 / 18014398509481984" by (rule roundDouble_three_tenths)
  have both: "(30 < j) = (0.3 < C) \<and> (30 < j) = (roundDouble 0.3 < C)"
  proof (cases "30 < j")
    case True
    then have "31 \<le> j" by simp
    then have "(31::real) \<le> of_int j" by linarith
    then have "31 / 100 \<le> E" using assms(3) by linarith
    then have "0.3 < C" using assms(1) by linarith
    moreover have "roundDouble 0.3 < C" using \<open>0.3 < C\<close> unfolding r by linarith
    ultimately show ?thesis using True by simp
  next
    case False
    then have "j \<le> 30" by simp
    then have "of_int j \<le> (30::real)" by linarith
    then have "E \<le> 0.3" using assms(3) by linarith
    from assms(4)[OF this] have c: "C = 5404319552844595 / 18014398509481984" .
    have "\<not> 0.3 < C" unfolding c by simp
    moreover have "\<not> roundDouble 0.3 < C" unfolding c r by simp
    ultimately show ?thesis using False by simp
  qed
  from both show "(30 < j) = (0.3 < C)" by (rule conjunct1)
  from both show "(30 < j) = (roundDouble 0.3 < C)" by (rule conjunct2)
qed

subsection \<open>The fallback verdict\<close>

lemma trim_Nil: "trim [] = []"
  by (simp add: trim_def)

lemma llmEnabled_iff: "llmEnabled apiKey = (\<exists>k. apiKey = Some k \<and> trim k \<noteq> [])"
  by (cases apiKey) (auto simp: llmEnabled_def trim_Nil)

lemma getFallbackResult_fields:
  "isValidMeeting (getFallbackResult dm)
     = ((truthy (detectedDate dm) \<or> truthy (detectedTime dm))
        \<and> round (roundDouble (confidence dm * 100)) > 30)"
  "llm_confidence (getFallbackResult dm) = Some (of_int (round (roundDouble (confidence dm * 100))))"
  "isValidMeeting (getFallbackResult_ts dm)
     = ((truthy (detectedDate dm) \<or> truthy (detectedTime dm))
        \<and> round (roundDouble (confidence dm * 100)) > 30)"
  "llm_confidence (getFallbackResult_ts dm) = Some (of_int (round (roundDouble (confidence dm * 100))))"
  by (simp_all add: getFallbackResult_def getFallbackResult_ts_def Let_def)

lemma double_confidence_rounds:
  assumes k: "1 \<le> k" and c: "confidence dm = calculateConfidence_double k d t n"
  shows "(round (roundDouble (confidence dm * 100)) > 30) = (confidence dm > 0.3)"
    and "(confidence dm > 0.3) = (confidence dm > roundDouble 0.3)"
    and "round (roundDouble (confidence dm * 100)) = round (confidence dm * 100)"
    and "real_of_int (round (roundDouble (confidence dm * 100))) = calculateConfidence k d t n * 100"
proof -
  obtain j :: int where j: "calculateConfidence k d t n * 100 = of_int j"
    using calculateConfidence_percent by blast
  note e = calculateConfidence_double_error[of k d t n, folded c]
  note r = percent_round[OF e j]
  have l: "confidence dm = 5404319552844595 / 18014398509481984" if "calculateConfidence k d t n \<le> 0.3"
  proof -
    from calculateConfidence_least[OF k that] have "k = 1" "d = 0" "t = 0" "n = 0" by simp_all
    then show ?thesis using c calculateConfidence_double_one_keyword by simp
  qed
  note th = threshold_agrees[OF e(1,2) j l]
  show "(round (roundDouble (confidence dm * 100)) > 30) = (confidence dm > 0.3)"
    using th(1) r(1) by simp
  show "(confidence dm > 0.3) = (confidence dm > roundDouble 0.3)"
    using th by simp
  show "round (roundDouble (confidence dm * 100)) = round (confidence dm * 100)"
    using r by simp
  show "real_of_int (round (roundDouble (confidence dm * 100))) = calculateConfidence k d t n * 100"
    using r(1) j by simp
qed

lemma double_confidence_ts_rounds:
  assumes k: "1 \<le> k" and c: "confidence dm = calculateConfidence_ts_double k d t n"
  shows "(round (roundDouble (confidence dm * 100)) > 30) = (confidence dm > 0.3)"
    and "(confidence dm > 0.3) = (confidence dm > roundDouble 0.3)"
    and "round (roundDouble (confidence dm * 100)) = round (confidence dm * 100)"
    and "real_of_int (round (roundDouble (confidence dm * 100))) = calculateConfidence_ts k d t n * 100"
proof -
  obtain j :: int where j: "calculateConfidence_ts k d t n * 100 = of_int j"
    using calculateConfidence_ts_percent by blast
  note e = calculateConfidence_ts_double_error[of k d t n, folded c]
  note r = percent_round[OF e j]
  have l: "confidence dm = 5404319552844595 / 18014398509481984" if "calculateConfidence_ts k d t n \<le> 0.3"
  proof -
    from calculateConfidence_ts_least[OF k that] have "k = 1" "d = 0" "t = 0" "n = 0" by simp_all
    then show ?thesis using c calculateConfidence_ts_double_one_keyword by simp
  qed
  note th = threshold_agrees[OF e(1,2) j l]
  show "(round (roundDouble (confidence dm * 100)) > 30) = (confidence dm > 0.3)"
    using th(1) r(1) by simp
  show "(confidence dm > 0.3) = (confidence dm > roundDouble 0.3)"
    using th by simp
  show "round (roundDouble (confidence dm * 100)) = round (confidence dm * 100)"
    using r by simp
  show "real_of_int (round (roundDouble (confidence dm * 100))) = calculateConfidence_ts k d t n * 100"
    using r(1) j by simp
qed

lemma exact_confidence_rounds:
  assumes "confidence dm = calculateConfidence k d t n \<or> confidence dm = calculateConfidence_ts k d t n"
  shows "round (roundDouble (confidence dm * 100)) = round (confidence dm * 100)"
    and "real_of_int (round (roundDouble (confidence dm * 100))) = confidence dm * 100"
    and "(round (roundDouble (confidence dm * 100)) > 30) = (confidence dm > 0.3)"
proof -
  from assms obtain j :: int where j: "confidence dm * 100 = of_int j"
    using calculateConfidence_percent calculateConfidence_ts_percent by metis
  have b: "0 \<le> confidence dm" "confidence dm \<le> 2"
    using assms calculateConfidence_nonneg[of k d t n] calculateConfidence_le1[of k d t n]
      calculateConfidence_ts_nonneg[of k d t n] calculateConfidence_ts_le1[of k d t n]
    by auto
  have e: "confidence dm - 84 / 9007199254740992 \<le> confidence dm"
    "confidence dm \<le> confidence dm + 84 / 9007199254740992" by simp_all
  note r = percent_round[OF e b j]
  show "round (roundDouble (confidence dm * 100)) = round (confidence dm * 100)" using r by simp
  show "real_of_int (round (roundDouble (confidence dm * 100))) = confidence dm * 100"
    using r(1) j by simp
  show "(round (roundDouble (confidence dm * 100)) > 30) = (confidence dm > 0.3)"
    using r(1) round_percent(2)[OF j] by simp
qed

text \<open>
  C6. Without a credential (no API key, or a blank one) the analyzer is disabled and every
  candidate receives the fallback verdict: valid exactly when a date or time token was
  detected and the rounded percentage exceeds 30. A candidate has at least one keyword
  match, and its confidence is the double that the detector computes. For such a confidence
  the rounded percentage exceeds 30 exactly when the confidence exceeds 0.3 (the real
  number, or the double that the literal denotes), and the confidence of the verdict is the
  whole percentage nearest to the confidence: \<open>Math.round\<close> removes the rounding error
  of the doubles, so that the verdict carries the exact sum of the weights, in percent.
  Without a keyword match the equivalence fails: one time token and one name give
  0.30000000000000004, above 0.3, and the percentage 30.
\<close>

theorem fallback_verdict_without_credential:
  "(\<not> llmEnabled apiKey \<longrightarrow>
      analyzeConversation rt (llmEnabled apiKey) ask dm history = getFallbackResult dm
      \<and> analyzeConversation_ts rt (llmEnabled apiKey) ask dm history = getFallbackResult_ts dm)
   \<and> \<not> llmEnabled None \<and> \<not> llmEnabled (Some [])
   \<and> isValidMeeting (getFallbackResult dm)
       = ((truthy (detectedDate dm) \<or> truthy (detectedTime dm))
          \<and> round (roundDouble (confidence dm * 100)) > 30)
   \<and> isValidMeeting (getFallbackResult_ts dm) = isValidMeeting (getFallbackResult dm)
   \<and> llm_confidence (getFallbackResult_ts dm) = llm_confidence (getFallbackResult dm)
   \<and> (1 \<le> k \<and> confidence dm = calculateConfidence_double k d t n \<longrightarrow>
        isValidMeeting (getFallbackResult dm)
          = ((truthy (detectedDate dm) \<or> truthy (detectedTime dm)) \<and> confidence dm > 0.3)
        \<and> (confidence dm > 0.3) = (confidence dm > roundDouble 0.3)
        \<and> llm_confidence (getFallbackResult dm) = Some (of_int (round (confidence dm * 100)))
        \<and> llm_confidence (getFallbackResult dm) = Some (calculateConfidence k d t n * 100))
   \<and> (1 \<le> k \<and> confidence dm = calculateConfidence_ts_double k d t n \<longrightarrow>
        isValidMeeting (getFallbackResult_ts dm)
          = ((truthy (detectedDate dm) \<or> truthy (detectedTime dm)) \<and> confidence dm > 0.3)
        \<and> (confidence dm > 0.3) = (confidence dm > roundDouble 0.3)
        \<and> llm_confidence (getFallbackResult_ts dm) = Some (of_int (round (confidence dm * 100)))
        \<and> llm_confidence (getFallbackResult_ts dm) = Some (calculateConfidence_ts k d t n * 100))"
proof (intro conjI impI)
  assume "\<not> llmEnabled apiKey"
  then show "analyzeConversation rt (llmEnabled apiKey) ask dm history = getFallbackResult dm"
    by (simp add: analyzeConversation_def)
next
  assume "\<not> llmEnabled apiKey"
  then show "analyzeConversation_ts rt (llmEnabled apiKey) ask dm history = getFallbackResult_ts dm"
    by (simp add: analyzeConversation_ts_def)
next
  show "\<not> llmEnabled None" by (simp add: llmEnabled_def)
  show "\<not> llmEnabled (Some [])" by (simp add: llmEnabled_def)
  show "isValidMeeting (getFallbackResult dm)
       = ((truthy (detectedDate dm) \<or> truthy (detectedTime dm))
          \<and> round (roundDouble (confidence dm * 100)) > 30)"
    by (rule getFallbackResult_fields(1))
  show "isValidMeeting (getFallbackResult_ts dm) = isValidMeeting (getFallbackResult dm)"
    by (simp only: getFallbackResult_fields)
  show "llm_confidence (getFallbackResult_ts dm) = llm_confidence (getFallbackResult dm)"
    by (simp only: getFallbackResult_fields)
next
  assume a: "1 \<le> k \<and> confidence dm = calculateConfidence_double k d t n"
  note r = double_confidence_rounds[OF conjunct1[OF a] conjunct2[OF a]]
  show "isValidMeeting (getFallbackResult dm)
          = ((truthy (detectedDate dm) \<or> truthy (detectedTime dm)) \<and> confidence dm > 0.3)"
    by (simp only: getFallbackResult_fields r(1))
  show "(confidence dm > 0.3) = (confidence dm > roundDouble 0.3)" by (rule r(2))
  show "llm_confidence (getFallbackResult dm) = Some (of_int (round (confidence dm * 100)))"
    by (simp only: getFallbackResult_fields r(3))
  show "llm_confidence (getFallbackResult dm) = Some (calculateConfidence k d t n * 100)"
    by (simp only: getFallbackResult_fields r(4))
next
  assume a: "1 \<le> k \<and> confidence dm = calculateConfidence_ts_double k d t n"
  note r = double_confidence_ts_rounds[OF conjunct1[OF a] conjunct2[OF a]]
  show "isValidMeeting (getFallbackResult_ts dm)
          = ((truthy (detectedDate dm) \<or> truthy (detectedTime dm)) \<and> confidence dm > 0.3)"
    by (simp only: getFallbackResult_fields r(1))
  show "(confidence dm > 0.3) = (confidence dm > roundDouble 0.3)" by (rule r(2))
  show "llm_confidence (getFallbackResult_ts dm) = Some (of_int (round (confidence dm * 100)))"
    by (simp only: getFallbackResult_fields r(3))
  show "llm_confidence (getFallbackResult_ts dm) = Some (calculateConfidence_ts k d t n * 100)"
    by (simp only: getFallbackResult_fields r(4))
qed

theorem fallback_verdict_without_credential_witness:
  "isValidMeeting (analyzeConversation exampleRuntime (llmEnabled None) noAnswer meetDetection_double [])
   \<and> llm_confidence (analyzeConversation exampleRuntime (llmEnabled None) noAnswer meetDetection_double [])
       = Some 85
   \<and> isValidMeeting (analyzeConversation_ts exampleRuntime (llmEnabled None) noAnswer timeDetection_ts [])
   \<and> llm_confidence (analyzeConversation_ts exampleRuntime (llmEnabled None) noAnswer timeDetection_ts [])
       = Some 45
   \<and> confidence timeDetection_ts * 100 < 45"
proof -
  have e: "\<not> llmEnabled None" by (simp add: llmEnabled_def)
  have k: "(1::nat) \<le> 6" "(1::nat) \<le> 1" by simp_all
  have c1: "confidence meetDetection_double = calculateConfidence_double 6 1 0 0"
    by (simp add: meetDetection_double_def)
  have c2: "confidence timeDetection_ts = calculateConfidence_ts_double 1 0 1 0"
    by (simp add: timeDetection_ts_def)
  have t1: "truthy (detectedDate meetDetection_double)"
    by (simp add: meetDetection_double_def meetDetection_def truthy_def js_def)
  have t2: "truthy (detectedTime timeDetection_ts)"
    by (simp add: timeDetection_ts_def truthy_def js_def)
  have x1: "calculateConfidence 6 1 0 0 * 100 = 85" by (simp add: calculateConfidence_def)
  have x2: "calculateConfidence_ts 1 0 1 0 * 100 = 45" by (simp add: calculateConfidence_ts_def)
  have g1: "confidence meetDetection_double > 0.3"
    using calculateConfidence_double_error(1)[of 6 1 0 0] x1 unfolding c1 by linarith
  have g2: "confidence timeDetection_ts > 0.3"
    using calculateConfidence_ts_double_error(1)[of 1 0 1 0] x2 unfolding c2 by linarith
  have v: "confidence timeDetection_ts * 100 < 45"
    unfolding c2 calculateConfidence_ts_double_keyword_time by simp
  note A = fallback_verdict_without_credential
             [of None exampleRuntime noAnswer meetDetection_double "[]" 6 1 0 0]
  note B = fallback_verdict_without_credential
             [of None exampleRuntime noAnswer timeDetection_ts "[]" 1 0 1 0]
  from A e have a1: "analyzeConversation exampleRuntime (llmEnabled None) noAnswer meetDetection_double []
      = getFallbackResult meetDetection_double" by blast
  from A k(1) c1 have a2: "isValidMeeting (getFallbackResult meetDetection_double)
      = ((truthy (detectedDate meetDetection_double) \<or> truthy (detectedTime meetDetection_double))
         \<and> confidence meetDetection_double > 0.3)" by blast
  from A k(1) c1 have a3: "llm_confidence (getFallbackResult meetDetection_double)
      = Some (calculateConfidence 6 1 0 0 * 100)" by blast
  from B e have b1: "analyzeConversation_ts exampleRuntime (llmEnabled None) noAnswer timeDetection_ts []
      = getFallbackResult_ts timeDetection_ts" by blast
  from B k(2) c2 have b2: "isValidMeeting (getFallbackResult_ts timeDetection_ts)
      = ((truthy (detectedDate timeDetection_ts) \<or> truthy (detectedTime timeDetection_ts))
         \<and> confidence timeDetection_ts > 0.3)" by blast
  from B k(2) c2 have b3: "llm_confidence (getFallbackResult_ts timeDetection_ts)
      = Some (calculateConfidence_ts 1 0 1 0 * 100)" by blast
  have r1: "isValidMeeting (getFallbackResult meetDetection_double)" using a2 t1 g1 by blast
  have r2: "llm_confidence (getFallbackResult meetDetection_double) = Some 85" using a3 unfolding x1 .
  have r3: "isValidMeeting (getFallbackResult_ts timeDetection_ts)" using b2 t2 g2 by blast
  have r4: "llm_confidence (getFallbackResult_ts timeDetection_ts) = Some 45" using b3 unfolding x2 .
  show ?thesis unfolding a1 b1 using r1 r2 r3 r4 v by blast
qed

subsection \<open>Date resolution\<close>

lemma getNextWeekday_next:
  assumes "0 \<le> w" "w < 7"
  shows "\<exists>t. getNextWeekday clk w = ValidDate t \<and> getDay t = w
           \<and> day (nowLocal clk) < day t \<and> day t \<le> day (nowLocal clk) + 7
           \<and> hours t = hours (nowLocal clk) \<and> minutes t = minutes (nowLocal clk)
           \<and> (getDay (nowLocal clk) = w \<longrightarrow> day t = day (nowLocal clk) + 7)"
proof -
  define c where "c = (day (nowLocal clk) + 4) mod 7"
  have c: "0 \<le> c" "c < 7" by (simp_all add: c_def)
  define n where "n = (if w - c \<le> 0 then w - c + 7 else w - c)"
  have n: "0 < n" "n \<le> 7" "(c + n) mod 7 = w" "c = w \<longrightarrow> n = 7"
    using assms c unfolding n_def by (auto simp: mod_pos_pos_trivial) 
  have g: "getNextWeekday clk w = ValidDate (addDays (nowLocal clk) n)"
    by (simp add: getNextWeekday_def Let_def getDay_def c_def n_def)
  have "(day (nowLocal clk) + n + 4) mod 7 = ((day (nowLocal clk) + 4) mod 7 + n) mod 7"
    by presburger
  then have "getDay (addDays (nowLocal clk) n) = w"
    using n(3) by (simp add: getDay_def addDays_def c_def)
  then show ?thesis using g n by (auto simp: addDays_def getDay_def c_def)
qed

lemma parseDates_all_valid: "InvalidDate \<notin> set (parseDates clk toks)"
  by (auto simp: parseDates_def keepDate_def split: option.splits js_date.splits)

text \<open>
  C4. A named weekday resolves to its next future occurrence, seven days ahead when today
  is that weekday. \<open>getNextWeekday_next\<close> shows this for the weekday number handed to
  \<open>getNextWeekday\<close>, which is the right one for the English names. The Hebrew names are
  paired with the English name one day later: on a Sunday, "rishon" (Sunday in the
  analyzer's prompt) resolves to the next day, a Monday, where "sunday" resolves to the
  Sunday a week ahead.
\<close>

theorem hebrew_day_name_off_by_one:
  "getDay (nowLocal sundayEvening) = 0
   \<and> promptWeekday tok_rishon = Some 0
   \<and> extractDates ([he_bet, he_yod, he_vav, he_final_mem] @ js '' '' @ tok_rishon) = [tok_rishon]
   \<and> parseDates sundayEvening [tok_rishon] = [ValidDate (addDays (nowLocal sundayEvening) 1)]
   \<and> parseDates sundayEvening [js ''sunday''] = [ValidDate (addDays (nowLocal sundayEvening) 7)]"
  by code_simp

text \<open>
  C8. Date resolution never raises and returns valid dates only
  (\<open>parseDates_all_valid\<close>; the model has no failing branch). But a numeric token whose
  day or month is out of range is not dropped: the \<open>Date\<close> constructor rolls it over,
  and the validity test of \<open>parseDates\<close> lets the result through. The token
  \<open>45/13/2024\<close>, which the date pattern extracts from a message, resolves to
  14 February 2025.
\<close>

theorem out_of_range_date_token_rolls_over:
  "extractDates (js ''meet on 45/13/2024'') = [js ''45/13/2024'']
   \<and> parseDates mondayEvening [js ''45/13/2024'']
       = [ValidDate \<lparr>day = daysFromCivil 2025 2 14, hours = 0, minutes = 0\<rparr>]"
  by code_simp

subsection \<open>Parsing the answer of the language model\<close>













subsection \<open>What the matcher records\<close>

text \<open>The loops of the matcher, unrolled: the results are the entries of each meeting, in order.\<close>

lemma checkDate_cases:
  "checkDate rt mt m ev d st =
     (if sameDay rt ev d
      then (if timeConflict rt mt ev
            then st\<lparr>foundConflict := True, st_conflicts := st_conflicts st @ [conflictEntry m ev]\<rparr>
            else st\<lparr>foundMatch := True, st_confirmed := st_confirmed st @ [confirmedEntry mt m ev]\<rparr>)
      else st)"
  by (cases mt)
     (auto simp: checkDate_def Let_def sameDay_def timeConflict_def recordConflict_def
        recordConfirmed_def conflictEntry_def confirmedEntry_def timeComparable_def truthy_def)

lemma fold_checkDate:
  "fold (checkDate rt mt m ev) dates st =
     st\<lparr>st_conflicts := st_conflicts st @ conflictsFor rt mt dates m [ev],
        st_confirmed := st_confirmed st @ confirmedFor rt mt dates m [ev],
        foundConflict := (foundConflict st \<or> conflictsFor rt mt dates m [ev] \<noteq> []),
        foundMatch := (foundMatch st \<or> confirmedFor rt mt dates m [ev] \<noteq> [])\<rparr>"
proof (induction dates arbitrary: st)
  case Nil
  then show ?case by (simp add: conflictsFor_def confirmedFor_def dayMatches_def)
next
  case (Cons d ds)
  have "fold (checkDate rt mt m ev) (d # ds) st
          = fold (checkDate rt mt m ev) ds (checkDate rt mt m ev d st)"
    by simp
  also have "\<dots> = (checkDate rt mt m ev d st)
        \<lparr>st_conflicts := st_conflicts (checkDate rt mt m ev d st) @ conflictsFor rt mt ds m [ev],
         st_confirmed := st_confirmed (checkDate rt mt m ev d st) @ confirmedFor rt mt ds m [ev],
         foundConflict := (foundConflict (checkDate rt mt m ev d st)
                           \<or> conflictsFor rt mt ds m [ev] \<noteq> []),
         foundMatch := (foundMatch (checkDate rt mt m ev d st)
                        \<or> confirmedFor rt mt ds m [ev] \<noteq> [])\<rparr>"
    by (rule Cons)
  also have "\<dots> = st
        \<lparr>st_conflicts := st_conflicts st @ conflictsFor rt mt (d # ds) m [ev],
         st_confirmed := st_confirmed st @ confirmedFor rt mt (d # ds) m [ev],
         foundConflict := (foundConflict st \<or> conflictsFor rt mt (d # ds) m [ev] \<noteq> []),
         foundMatch := (foundMatch st \<or> confirmedFor rt mt (d # ds) m [ev] \<noteq> [])\<rparr>"
    by (simp add: checkDate_cases conflictsFor_def confirmedFor_def dayMatches_def)
  finally show ?case .
qed

lemma conflictsFor_Cons:
  "conflictsFor rt mt dates m (ev # evs)
     = conflictsFor rt mt dates m [ev] @ conflictsFor rt mt dates m evs"
  by (simp add: conflictsFor_def dayMatches_def)

lemma confirmedFor_Cons:
  "confirmedFor rt mt dates m (ev # evs)
     = confirmedFor rt mt dates m [ev] @ confirmedFor rt mt dates m evs"
  by (simp add: confirmedFor_def dayMatches_def)

lemma fold_events:
  "fold (\<lambda>ev st. fold (checkDate rt mt m ev) dates st) evs st =
     st\<lparr>st_conflicts := st_conflicts st @ conflictsFor rt mt dates m evs,
        st_confirmed := st_confirmed st @ confirmedFor rt mt dates m evs,
        foundConflict := (foundConflict st \<or> conflictsFor rt mt dates m evs \<noteq> []),
        foundMatch := (foundMatch st \<or> confirmedFor rt mt dates m evs \<noteq> [])\<rparr>"
proof (induction evs arbitrary: st)
  case Nil
  then show ?case by (simp add: conflictsFor_def confirmedFor_def dayMatches_def)
next
  case (Cons ev evs)
  let ?s = "fold (checkDate rt mt m ev) dates st"
  have "fold (\<lambda>ev st. fold (checkDate rt mt m ev) dates st) (ev # evs) st
          = fold (\<lambda>ev st. fold (checkDate rt mt m ev) dates st) evs ?s"
    by simp
  also have "\<dots> = ?s
        \<lparr>st_conflicts := st_conflicts ?s @ conflictsFor rt mt dates m evs,
         st_confirmed := st_confirmed ?s @ confirmedFor rt mt dates m evs,
         foundConflict := (foundConflict ?s \<or> conflictsFor rt mt dates m evs \<noteq> []),
         foundMatch := (foundMatch ?s \<or> confirmedFor rt mt dates m evs \<noteq> [])\<rparr>"
    by (rule Cons)
  also have "\<dots> = st
        \<lparr>st_conflicts := st_conflicts st @ conflictsFor rt mt dates m (ev # evs),
         st_confirmed := st_confirmed st @ confirmedFor rt mt dates m (ev # evs),
         foundConflict := (foundConflict st \<or> conflictsFor rt mt dates m (ev # evs) \<noteq> []),
         foundMatch := (foundMatch st \<or> confirmedFor rt mt dates m (ev # evs) \<noteq> [])\<rparr>"
    by (simp add: fold_checkDate conflictsFor_Cons[of rt mt dates m ev evs]
          confirmedFor_Cons[of rt mt dates m ev evs] disj_assoc)
  finally show ?case .
qed

lemma scanEvents_eq:
  "scanEvents rt mt dates m evs res =
     \<lparr>st_conflicts = conflicts res @ conflictsFor rt mt dates m evs,
      st_confirmed = confirmedMeetings res @ confirmedFor rt mt dates m evs,
      foundConflict = (conflictsFor rt mt dates m evs \<noteq> []),
      foundMatch = (confirmedFor rt mt dates m evs \<noteq> [])\<rparr>"
  by (simp add: scanEvents_def fold_events)

lemma no_entries_iff:
  "(conflictsFor rt mt dates m evs = [] \<and> confirmedFor rt mt dates m evs = [])
     = (dayMatches rt dates evs = [])"
  by (auto simp: conflictsFor_def confirmedFor_def filter_empty_conv)

lemma checkMeeting_eq:
  "checkMeeting rt evs m res =
     \<lparr>conflicts = conflicts res @ conflictsOf rt evs m,
      missingEvents = missingEvents res @ missingOf rt evs m,
      confirmedMeetings = confirmedMeetings res @ confirmedOf rt evs m\<rparr>"
  using no_entries_iff[of rt "meetingTimeForComparison rt m" "meetingDatesOf rt m" m evs]
  by (auto simp: checkMeeting_def Let_def scanEvents_eq conflictsOf_def missingOf_def confirmedOf_def)

lemma checkMeeting_simple_eq:
  "checkMeeting_simple rt evs m res =
     \<lparr>conflicts = conflicts res @ conflictsOf_simple rt evs m,
      missingEvents = missingEvents res @ missingOf_simple rt evs m,
      confirmedMeetings = confirmedMeetings res @ confirmedOf_simple rt evs m\<rparr>"
  using no_entries_iff[of rt "detectedTimeLower m" "parsedDates m" m evs]
  by (auto simp: checkMeeting_simple_def Let_def scanEvents_eq conflictsOf_simple_def
        missingOf_simple_def confirmedOf_simple_def)

lemma fold_checkMeeting:
  "fold (checkMeeting rt evs) ms res =
     \<lparr>conflicts = conflicts res @ concat (map (conflictsOf rt evs) ms),
      missingEvents = missingEvents res @ concat (map (missingOf rt evs) ms),
      confirmedMeetings = confirmedMeetings res @ concat (map (confirmedOf rt evs) ms)\<rparr>"
proof (induction ms arbitrary: res)
  case Nil
  then show ?case by simp
next
  case (Cons m ms)
  let ?r = "checkMeeting rt evs m res"
  have "fold (checkMeeting rt evs) (m # ms) res = fold (checkMeeting rt evs) ms ?r"
    by simp
  also have "\<dots> =
     \<lparr>conflicts = conflicts ?r @ concat (map (conflictsOf rt evs) ms),
      missingEvents = missingEvents ?r @ concat (map (missingOf rt evs) ms),
      confirmedMeetings = confirmedMeetings ?r @ concat (map (confirmedOf rt evs) ms)\<rparr>"
    by (rule Cons)
  also have "\<dots> =
     \<lparr>conflicts = conflicts res @ concat (map (conflictsOf rt evs) (m # ms)),
      missingEvents = missingEvents res @ concat (map (missingOf rt evs) (m # ms)),
      confirmedMeetings = confirmedMeetings res @ concat (map (confirmedOf rt evs) (m # ms))\<rparr>"
    by (simp add: checkMeeting_eq)
  finally show ?case .
qed

lemma fold_checkMeeting_simple:
  "fold (checkMeeting_simple rt evs) ms res =
     \<lparr>conflicts = conflicts res @ concat (map (conflictsOf_simple rt evs) ms),
      missingEvents = missingEvents res @ concat (map (missingOf_simple rt evs) ms),
      confirmedMeetings = confirmedMeetings res @ concat (map (confirmedOf_simple rt evs) ms)\<rparr>"
proof (induction ms arbitrary: res)
  case Nil
  then show ?case by simp
next
  case (Cons m ms)
  let ?r = "checkMeeting_simple rt evs m res"
  have "fold (checkMeeting_simple rt evs) (m # ms) res = fold (checkMeeting_simple rt evs) ms ?r"
    by simp
  also have "\<dots> =
     \<lparr>conflicts = conflicts ?r @ concat (map (conflictsOf_simple rt evs) ms),
      missingEvents = missingEvents ?r @ concat (map (missingOf_simple rt evs) ms),
      confirmedMeetings = confirmedMeetings ?r @ concat (map (confirmedOf_simple rt evs) ms)\<rparr>"
    by (rule Cons)
  also have "\<dots> =
     \<lparr>conflicts = conflicts res @ concat (map (conflictsOf_simple rt evs) (m # ms)),
      missingEvents = missingEvents res @ concat (map (missingOf_simple rt evs) (m # ms)),
      confirmedMeetings =
        confirmedMeetings res @ concat (map (confirmedOf_simple rt evs) (m # ms))\<rparr>"
    by (simp add: checkMeeting_simple_eq)
  finally show ?case .
qed

lemma analyzeConflictsAndMissing_eq:
  "analyzeConflictsAndMissing rt ms evs =
     \<lparr>conflicts = concat (map (conflictsOf rt evs) ms),
      missingEvents = concat (map (missingOf rt evs) ms),
      confirmedMeetings = concat (map (confirmedOf rt evs) ms)\<rparr>"
  by (simp add: analyzeConflictsAndMissing_def fold_checkMeeting noResults_def)

lemma analyzeConflictsAndMissing_simple_eq:
  "analyzeConflictsAndMissing_simple rt ms evs =
     \<lparr>conflicts = concat (map (conflictsOf_simple rt evs) ms),
      missingEvents = concat (map (missingOf_simple rt evs) ms),
      confirmedMeetings = concat (map (confirmedOf_simple rt evs) ms)\<rparr>"
  by (simp add: analyzeConflictsAndMissing_simple_def fold_checkMeeting_simple noResults_def)

lemma never_both:
  "\<not> (ev \<in> set (map cn_conflictingEvent (conflictsFor rt mt dates m evs))
      \<and> ev \<in> set (map cf_calendarEvent (confirmedFor rt mt dates m evs)))"
  by (auto simp: conflictsFor_def confirmedFor_def conflictEntry_def confirmedEntry_def)

text \<open>
  C2, as the code has it. For every candidate all events on a day of the candidate are
  considered, and each of them is recorded: as a Conflict when both sides have a time and
  the loose comparison rejects the pair, as Confirmed otherwise. Every Confirmed entry
  and every Conflict entry is kept. Whether an event confirms or conflicts depends on the
  candidate and the event alone, so no event is recorded both ways for one candidate.
\<close>

theorem matcher_records_every_day_match:
  "analyzeConflictsAndMissing rt ms evs =
     \<lparr>conflicts = concat (map (conflictsOf rt evs) ms),
      missingEvents = concat (map (missingOf rt evs) ms),
      confirmedMeetings = concat (map (confirmedOf rt evs) ms)\<rparr>
   \<and> analyzeConflictsAndMissing_simple rt ms evs =
     \<lparr>conflicts = concat (map (conflictsOf_simple rt evs) ms),
      missingEvents = concat (map (missingOf_simple rt evs) ms),
      confirmedMeetings = concat (map (confirmedOf_simple rt evs) ms)\<rparr>
   \<and> \<not> (ev \<in> set (map cn_conflictingEvent (conflictsOf rt evs m))
         \<and> ev \<in> set (map cf_calendarEvent (confirmedOf rt evs m)))
   \<and> \<not> (ev \<in> set (map cn_conflictingEvent (conflictsOf_simple rt evs m))
         \<and> ev \<in> set (map cf_calendarEvent (confirmedOf_simple rt evs m)))"
  using analyzeConflictsAndMissing_eq[of rt ms evs] analyzeConflictsAndMissing_simple_eq[of rt ms evs]
    never_both[of ev rt "meetingTimeForComparison rt m" "meetingDatesOf rt m" m evs]
    never_both[of ev rt "detectedTimeLower m" "parsedDates m" m evs]
  unfolding conflictsOf_def confirmedOf_def conflictsOf_simple_def confirmedOf_simple_def
  by blast

text \<open>
  C2 as stated fails: the matcher does not stop at the first Confirmed entry, and it keeps
  the Conflict entries beside the Confirmed ones. A candidate for 10:00 on a day with
  events at 10:00, 14:00 and 10:00 gets two Confirmed entries and one Conflict entry.
\<close>

theorem confirmed_and_conflict_together_counterexample:
  "map (ev_id \<circ> cf_calendarEvent)
       (confirmedMeetings (auditUser_simple exampleRuntime mondayEvening [tenMessage]
          [standupEvent, reviewEvent, syncEvent]))
     = [js ''ev10'', js ''ev10b'']
   \<and> map (ev_id \<circ> cn_conflictingEvent)
       (conflicts (auditUser_simple exampleRuntime mondayEvening [tenMessage]
          [standupEvent, reviewEvent, syncEvent]))
     = [js ''ev14'']
   \<and> map (ev_id \<circ> cf_calendarEvent)
       (confirmedMeetings (auditUser exampleRuntime mondayEvening False noAnswer [tenMessage]
          [standupEvent, reviewEvent, syncEvent]))
     = [js ''ev10'', js ''ev10b'']
   \<and> map (ev_id \<circ> cn_conflictingEvent)
       (conflicts (auditUser exampleRuntime mondayEvening False noAnswer [tenMessage]
          [standupEvent, reviewEvent, syncEvent]))
     = [js ''ev14'']"
  by code_simp

subsection \<open>Candidates below the missing threshold\<close>

lemma conflictsFor_meeting: "x \<in> set (conflictsFor rt mt dates m evs) \<Longrightarrow> cn_meeting x = m"
  by (auto simp: conflictsFor_def conflictEntry_def)

lemma confirmedFor_meeting: "x \<in> set (confirmedFor rt mt dates m evs) \<Longrightarrow> cf_meeting x = m"
  by (auto simp: confirmedFor_def confirmedEntry_def)

lemma missingOf_meeting: "x \<in> set (missingOf rt evs m) \<Longrightarrow> ms_meeting x = m"
  by (auto simp: missingOf_def split: if_splits)

lemma missingOf_simple_meeting: "x \<in> set (missingOf_simple rt evs m) \<Longrightarrow> ms_meeting x = m"
  by (auto simp: missingOf_simple_def split: if_splits)

lemma dayMatches_none:
  assumes "\<forall>ev \<in> set evs. \<forall>d \<in> set dates. \<not> sameDay rt ev d"
  shows "dayMatches rt dates evs = []"
  using assms by (auto simp: dayMatches_def filter_empty_conv)

lemma no_day_match_no_entries:
  assumes "dayMatches rt dates evs = []"
  shows "conflictsFor rt mt dates m evs = []" "confirmedFor rt mt dates m evs = []"
  using assms by (simp_all add: conflictsFor_def confirmedFor_def)

lemma auditMeeting_no_match:
  assumes "findMatchingEvents rt fns m evs = Inr []"
  shows "\<exists>r. auditMeeting rt fns clk m evs = Inr r \<and> status r = missing_from_calendar
              \<and> detectedMeetingId r = det_id m"
  using assms by (simp add: auditMeeting_def Let_def)

text \<open>
  C3, as the code has it. In both runners a candidate with no event on any of its days and
  an effective confidence that does not exceed the threshold (0.6 on the effective
  confidence with language-model analysis, 0.4 on the heuristic confidence without)
  gets no entry of any kind. The TypeScript \<open>AuditService\<close> has no such threshold: a
  candidate without a matching event always gets a \<open>missing_from_calendar\<close> record.
\<close>

theorem no_record_below_missing_threshold:
  "((\<forall>ev \<in> set evs. \<forall>d \<in> set (meetingDatesOf rt m). \<not> sameDay rt ev d)
      \<and> \<not> numGreater (effectiveConfidence m) 0.6 \<longrightarrow>
        m \<notin> set (map cn_meeting (conflicts (analyzeConflictsAndMissing rt ms evs)))
        \<and> m \<notin> set (map ms_meeting (missingEvents (analyzeConflictsAndMissing rt ms evs)))
        \<and> m \<notin> set (map cf_meeting (confirmedMeetings (analyzeConflictsAndMissing rt ms evs))))
   \<and> ((\<forall>ev \<in> set evs. \<forall>d \<in> set (parsedDates m). \<not> sameDay rt ev d)
      \<and> \<not> confidence m > 0.4 \<longrightarrow>
        m \<notin> set (map cn_meeting (conflicts (analyzeConflictsAndMissing_simple rt ms evs)))
        \<and> m \<notin> set (map ms_meeting (missingEvents (analyzeConflictsAndMissing_simple rt ms evs)))
        \<and> m \<notin> set (map cf_meeting (confirmedMeetings (analyzeConflictsAndMissing_simple rt ms evs))))
   \<and> (findMatchingEvents rt fns m evs = Inr [] \<longrightarrow>
        (\<exists>r. auditMeeting rt fns clk m evs = Inr r \<and> status r = missing_from_calendar
              \<and> detectedMeetingId r = det_id m))"
proof (intro conjI impI)
  assume a: "(\<forall>ev \<in> set evs. \<forall>d \<in> set (meetingDatesOf rt m). \<not> sameDay rt ev d)
      \<and> \<not> numGreater (effectiveConfidence m) 0.6"
  then have d: "dayMatches rt (meetingDatesOf rt m) evs = []" by (simp add: dayMatches_none)
  have c: "conflictsOf rt evs m = []" "confirmedOf rt evs m = []" "missingOf rt evs m = []"
    using a no_day_match_no_entries[OF d]
    by (simp_all add: conflictsOf_def confirmedOf_def missingOf_def)
  show "m \<notin> set (map cn_meeting (conflicts (analyzeConflictsAndMissing rt ms evs)))"
  proof
    assume "m \<in> set (map cn_meeting (conflicts (analyzeConflictsAndMissing rt ms evs)))"
    then obtain m' x where "x \<in> set (conflictsOf rt evs m')" "cn_meeting x = m"
      by (auto simp: analyzeConflictsAndMissing_eq)
    then show False using c(1) conflictsFor_meeting by (fastforce simp: conflictsOf_def)
  qed
  show "m \<notin> set (map ms_meeting (missingEvents (analyzeConflictsAndMissing rt ms evs)))"
  proof
    assume "m \<in> set (map ms_meeting (missingEvents (analyzeConflictsAndMissing rt ms evs)))"
    then obtain m' x where "x \<in> set (missingOf rt evs m')" "ms_meeting x = m"
      by (auto simp: analyzeConflictsAndMissing_eq)
    then show False using c(3) missingOf_meeting by fastforce
  qed
  show "m \<notin> set (map cf_meeting (confirmedMeetings (analyzeConflictsAndMissing rt ms evs)))"
  proof
    assume "m \<in> set (map cf_meeting (confirmedMeetings (analyzeConflictsAndMissing rt ms evs)))"
    then obtain m' x where "x \<in> set (confirmedOf rt evs m')" "cf_meeting x = m"
      by (auto simp: analyzeConflictsAndMissing_eq)
    then show False using c(2) confirmedFor_meeting by (fastforce simp: confirmedOf_def)
  qed
next
  assume a: "(\<forall>ev \<in> set evs. \<forall>d \<in> set (parsedDates m). \<not> sameDay rt ev d)
      \<and> \<not> confidence m > 0.4"
  then have d: "dayMatches rt (parsedDates m) evs = []" by (simp add: dayMatches_none)
  have c: "conflictsOf_simple rt evs m = []" "confirmedOf_simple rt evs m = []"
    "missingOf_simple rt evs m = []"
    using a no_day_match_no_entries[OF d]
    by (simp_all add: conflictsOf_simple_def confirmedOf_simple_def missingOf_simple_def)
  show "m \<notin> set (map cn_meeting (conflicts (analyzeConflictsAndMissing_simple rt ms evs)))"
  proof
    assume "m \<in> set (map cn_meeting (conflicts (analyzeConflictsAndMissing_simple rt ms evs)))"
    then obtain m' x where "x \<in> set (conflictsOf_simple rt evs m')" "cn_meeting x = m"
      by (auto simp: analyzeConflictsAndMissing_simple_eq)
    then show False using c(1) conflictsFor_meeting by (fastforce simp: conflictsOf_simple_def)
  qed
  show "m \<notin> set (map ms_meeting (missingEvents (analyzeConflictsAndMissing_simple rt ms evs)))"
  proof
    assume "m \<in> set (map ms_meeting (missingEvents (analyzeConflictsAndMissing_simple rt ms evs)))"
    then obtain m' x where "x \<in> set (missingOf_simple rt evs m')" "ms_meeting x = m"
      by (auto simp: analyzeConflictsAndMissing_simple_eq)
    then show False using c(3) missingOf_simple_meeting by fastforce
  qed
  show "m \<notin> set (map cf_meeting (confirmedMeetings (analyzeConflictsAndMissing_simple rt ms evs)))"
  proof
    assume "m \<in> set (map cf_meeting (confirmedMeetings (analyzeConflictsAndMissing_simple rt ms evs)))"
    then obtain m' x where "x \<in> set (confirmedOf_simple rt evs m')" "cf_meeting x = m"
      by (auto simp: analyzeConflictsAndMissing_simple_eq)
    then show False using c(2) confirmedFor_meeting by (fastforce simp: confirmedOf_simple_def)
  qed
next
  assume "findMatchingEvents rt fns m evs = Inr []"
  then show "\<exists>r. auditMeeting rt fns clk m evs = Inr r \<and> status r = missing_from_calendar
              \<and> detectedMeetingId r = det_id m"
    by (rule auditMeeting_no_match)
qed

lemma lowDetection_no_day_match:
  "list_all (\<lambda>ev. list_all (\<lambda>d. \<not> sameDay exampleRuntime ev d) (parsedDates lowDetection)) [dentistEvent]
   \<and> meetingDatesOf exampleRuntime lowDetection = parsedDates lowDetection
   \<and> effectiveConfidence lowDetection = Some 0.35 \<and> confidence lowDetection = 0.35
   \<and> findMatchingEvents exampleRuntime exampleDatefns lowDetection [dentistEvent] = Inr []"
  by code_simp

theorem no_record_below_missing_threshold_witness:
  "lowDetection \<notin> set (map cn_meeting
      (conflicts (analyzeConflictsAndMissing exampleRuntime [lowDetection] [dentistEvent])))
   \<and> lowDetection \<notin> set (map ms_meeting
      (missingEvents (analyzeConflictsAndMissing exampleRuntime [lowDetection] [dentistEvent])))
   \<and> lowDetection \<notin> set (map cf_meeting
      (confirmedMeetings (analyzeConflictsAndMissing exampleRuntime [lowDetection] [dentistEvent])))
   \<and> lowDetection \<notin> set (map ms_meeting
      (missingEvents (analyzeConflictsAndMissing_simple exampleRuntime [lowDetection] [dentistEvent])))
   \<and> (\<exists>r. auditMeeting exampleRuntime exampleDatefns mondayEvening lowDetection [dentistEvent] = Inr r
          \<and> status r = missing_from_calendar)"
proof -
  have a: "\<forall>ev \<in> set [dentistEvent]. \<forall>d \<in> set (meetingDatesOf exampleRuntime lowDetection).
             \<not> sameDay exampleRuntime ev d"
    using lowDetection_no_day_match by (simp add: list_all_iff)
  have b: "\<forall>ev \<in> set [dentistEvent]. \<forall>d \<in> set (parsedDates lowDetection).
             \<not> sameDay exampleRuntime ev d"
    using lowDetection_no_day_match by (simp add: list_all_iff)
  have c: "\<not> numGreater (effectiveConfidence lowDetection) 0.6" "\<not> confidence lowDetection > 0.4"
    using lowDetection_no_day_match by (simp_all add: numGreater_def)
  have d: "findMatchingEvents exampleRuntime exampleDatefns lowDetection [dentistEvent] = Inr []"
    using lowDetection_no_day_match by simp
  from no_record_below_missing_threshold
         [of "[dentistEvent]" exampleRuntime lowDetection "[lowDetection]" exampleDatefns mondayEvening]
       a b c d
  show ?thesis by blast
qed

text \<open>
  C3 as stated fails on \<open>AuditService.auditMeeting\<close>: the candidate of the message
  "call me" has confidence 0.3, there is no calendar event at all, and a record with the
  status \<open>missing_from_calendar\<close> is returned.
\<close>

theorem auditMeeting_low_confidence_counterexample:
  "map_option confidence (analyzeMessage_ts mondayEvening callMessage) = Some 0.3
   \<and> map_option (\<lambda>d. map_sum id status (auditMeeting exampleRuntime exampleDatefns mondayEvening d []))
        (analyzeMessage_ts mondayEvening callMessage)
       = Some (Inr missing_from_calendar)"
  by code_simp

subsection \<open>The summary\<close>

lemma sortNewestFirst_descending:
  "sorted_wrt (\<lambda>a b. m_timestamp a \<ge> m_timestamp b) (sortNewestFirst msgs)"
proof -
  have "sorted (map (\<lambda>m. - m_timestamp m) (sortNewestFirst msgs))"
    by (simp add: sortNewestFirst_def)
  then show ?thesis by (simp add: sorted_wrt_map)
qed

lemma analyzeMessage_timestamp:
  assumes "analyzeMessage clk m = Some d" "m_timestamp m \<noteq> 0"
  shows "timestamp d = m_timestamp m"
  using assms unfolding analyzeMessage_def Let_def by (auto split: if_splits)

lemma enhanceOne_timestamp:
  assumes "enhanceOne rt clk enabled ask msgs d = Some d'"
  shows "timestamp d' = timestamp d"
  using assms unfolding enhanceOne_def Let_def by (auto split: if_splits)

lemma map_filter_keeps_order:
  assumes "\<And>x y. x \<in> set xs \<Longrightarrow> f x = Some y \<Longrightarrow> h y = g x"
    and "sorted_wrt (\<lambda>a b. g a \<ge> (g b :: real)) xs"
  shows "sorted_wrt (\<lambda>a b. h a \<ge> h b) (List.map_filter f xs)"
  using assms
proof (induction xs)
  case Nil
  then show ?case by (simp add: map_filter_simps)
next
  case (Cons x xs)
  have rest: "sorted_wrt (\<lambda>a b. h a \<ge> h b) (List.map_filter f xs)"
    using Cons by simp
  show ?case
  proof (cases "f x")
    case None
    then show ?thesis using rest by (simp add: map_filter_simps)
  next
    case (Some y)
    have "\<forall>z \<in> set (List.map_filter f xs). h y \<ge> h z"
    proof
      fix z assume "z \<in> set (List.map_filter f xs)"
      then obtain x' where x': "x' \<in> set xs" "f x' = Some z"
        by (auto simp: map_filter_def)
      then have "g x \<ge> g x'" using Cons.prems(2) by simp
      moreover have "h y = g x" using Cons.prems(1)[of x y] Some by simp
      moreover have "h z = g x'" using Cons.prems(1)[of x' z] x' by simp
      ultimately show "h y \<ge> h z" by simp
    qed
    then show ?thesis using rest Some by (simp add: map_filter_simps)
  qed
qed

lemma concat_blocks_sorted:
  assumes "\<And>d x. x \<in> set (g d) \<Longrightarrow> h x = f d"
    and "sorted_wrt (\<lambda>a b. f a \<ge> (f b :: real)) ds"
  shows "sorted_wrt (\<lambda>a b. h a \<ge> h b) (concat (map g ds))"
  using assms(2)
proof (induction ds)
  case Nil
  then show ?case by simp
next
  case (Cons d ds)
  have "sorted_wrt (\<lambda>a b. True) (g d)" by simp
  then have block: "sorted_wrt (\<lambda>a b. h a \<ge> h b) (g d)"
    by (rule sorted_wrt_mono_rel[rotated]) (simp add: assms(1))
  have "\<forall>x \<in> set (g d). \<forall>y \<in> set (concat (map g ds)). h x \<ge> h y"
    using assms(1) Cons.prems by auto
  then show ?case using block Cons by (simp add: sorted_wrt_append)
qed

lemma detections_newest_first:
  assumes "\<forall>m \<in> set collected. m_timestamp m \<noteq> 0"
  shows "sorted_wrt (\<lambda>a b. timestamp a \<ge> timestamp b)
           (enhanceWithLLMAnalysis rt clk enabled ask
              (detectMeetings clk (sortNewestFirst collected)) (sortNewestFirst collected))"
proof -
  have s: "set (sortNewestFirst collected) = set collected"
    by (simp add: sortNewestFirst_def)
  have "sorted_wrt (\<lambda>a b. timestamp a \<ge> timestamp b)
          (detectMeetings clk (sortNewestFirst collected))"
    unfolding detectMeetings_def
    by (rule map_filter_keeps_order[where g = m_timestamp])
       (use assms s analyzeMessage_timestamp sortNewestFirst_descending in auto)
  then show ?thesis
    unfolding enhanceWithLLMAnalysis_def
    by (rule map_filter_keeps_order[where g = timestamp, rotated])
       (use enhanceOne_timestamp in auto)
qed

lemma summary_lines:
  "sm_conflictLines (summaryOf res) = map conflictLine (take 3 (conflicts res))"
  "sm_missingLines (summaryOf res) = map missingLine (take 3 (missingEvents res))"
  by (auto simp: summaryOf_def Let_def)

text \<open>
  C9, as the code has it. The summary shows the first three conflicts and the first three
  missing meetings; the counts it prints are the full lengths. The lists are in the order
  of the detections, which is the order of the messages after \<open>getRecentMessages\<close>
  sorted them newest first: the timestamps of the originating messages do not increase
  along either list (for messages with a timestamp, as \<open>getRecentMessages\<close> keeps them).
\<close>

theorem summary_capped_newest_first:
  "sm_conflictLines (summaryOf res) = map conflictLine (take 3 (conflicts res))
   \<and> sm_missingLines (summaryOf res) = map missingLine (take 3 (missingEvents res))
   \<and> length (sm_conflictLines (summaryOf res)) \<le> 3 \<and> length (sm_missingLines (summaryOf res)) \<le> 3
   \<and> (conflicts res \<noteq> [] \<longrightarrow> sm_conflictCount (summaryOf res) = Some (length (conflicts res)))
   \<and> (missingEvents res \<noteq> [] \<longrightarrow>
         sm_missingCount (summaryOf res) = Some (length (missingEvents res)))
   \<and> ((\<forall>m \<in> set collected. m_timestamp m \<noteq> 0) \<longrightarrow>
        sorted_wrt (\<lambda>a b. timestamp (cn_meeting a) \<ge> timestamp (cn_meeting b))
          (conflicts (auditUser rt clk enabled ask collected evs))
        \<and> sorted_wrt (\<lambda>a b. timestamp (ms_meeting a) \<ge> timestamp (ms_meeting b))
          (missingEvents (auditUser rt clk enabled ask collected evs)))"
proof (intro conjI impI)
  show "sm_conflictLines (summaryOf res) = map conflictLine (take 3 (conflicts res))"
    "sm_missingLines (summaryOf res) = map missingLine (take 3 (missingEvents res))"
    by (rule summary_lines)+
  show "length (sm_conflictLines (summaryOf res)) \<le> 3"
    "length (sm_missingLines (summaryOf res)) \<le> 3"
    by (simp_all add: summary_lines)
next
  assume "conflicts res \<noteq> []"
  then show "sm_conflictCount (summaryOf res) = Some (length (conflicts res))"
    by (simp add: summaryOf_def Let_def)
next
  assume "missingEvents res \<noteq> []"
  then show "sm_missingCount (summaryOf res) = Some (length (missingEvents res))"
    by (simp add: summaryOf_def Let_def)
next
  assume a: "\<forall>m \<in> set collected. m_timestamp m \<noteq> 0"
  let ?ds = "enhanceWithLLMAnalysis rt clk enabled ask
               (detectMeetings clk (sortNewestFirst collected)) (sortNewestFirst collected)"
  have r: "auditUser rt clk enabled ask collected evs = analyzeConflictsAndMissing rt ?ds evs"
    by (simp add: auditUser_def Let_def)
  have d: "sorted_wrt (\<lambda>a b. timestamp a \<ge> timestamp b) ?ds"
    using a by (rule detections_newest_first)
  show "sorted_wrt (\<lambda>a b. timestamp (cn_meeting a) \<ge> timestamp (cn_meeting b))
          (conflicts (auditUser rt clk enabled ask collected evs))"
    unfolding r analyzeConflictsAndMissing_eq
    using concat_blocks_sorted[of "conflictsOf rt evs" "\<lambda>x. timestamp (cn_meeting x)" timestamp ?ds] d
      conflictsFor_meeting
    by (auto simp: conflictsOf_def)
  show "sorted_wrt (\<lambda>a b. timestamp (ms_meeting a) \<ge> timestamp (ms_meeting b))
          (missingEvents (auditUser rt clk enabled ask collected evs))"
    unfolding r analyzeConflictsAndMissing_eq
    using concat_blocks_sorted[of "missingOf rt evs" "\<lambda>x. timestamp (ms_meeting x)" timestamp ?ds] d
      missingOf_meeting
    by auto
qed


theorem summary_capped_newest_first_witness:
  "sm_conflictLines (summaryOf (auditUser exampleRuntime mondayEvening False noAnswer
       [tenMessage, elevenMessage] [reviewEvent]))
     = [(js ''Let's meet tomorrow at 11:00'', Some (js ''Review'')),
        (js ''Let's meet tomorrow at 10:00'', Some (js ''Review''))]
   \<and> sm_conflictCount (summaryOf (auditUser exampleRuntime mondayEvening False noAnswer
       [tenMessage, elevenMessage] [reviewEvent])) = Some 2
   \<and> sorted_wrt (\<lambda>a b. timestamp (cn_meeting a) \<ge> timestamp (cn_meeting b))
       (conflicts (auditUser exampleRuntime mondayEvening False noAnswer
          [tenMessage, elevenMessage] [reviewEvent]))"
proof -
  let ?res = "auditUser exampleRuntime mondayEvening False noAnswer
                [tenMessage, elevenMessage] [reviewEvent]"
  have t: "\<forall>m \<in> set [tenMessage, elevenMessage]. m_timestamp m \<noteq> 0"
    by (simp add: tenMessage_def elevenMessage_def)
  have c: "map conflictLine (take 3 (conflicts ?res))
             = [(js ''Let's meet tomorrow at 11:00'', Some (js ''Review'')),
                (js ''Let's meet tomorrow at 10:00'', Some (js ''Review''))]"
    by code_simp
  then have n: "conflicts ?res \<noteq> []" "length (conflicts ?res) = 2"
    by (auto simp: take_map[symmetric] dest: arg_cong[where f = length])
  from summary_capped_newest_first
         [of ?res "[tenMessage, elevenMessage]" exampleRuntime mondayEvening False noAnswer
             "[reviewEvent]"]
       t c n
  show ?thesis by simp
qed

text \<open>
  C9 as stated fails on the order: with two conflicting messages an hour apart, the list
  shown starts with the later message. It is descending by timestamp, not ascending.
\<close>

theorem summary_order_counterexample:
  "map (timestamp \<circ> cn_meeting)
       (take 3 (conflicts (auditUser exampleRuntime mondayEvening False noAnswer
          [tenMessage, elevenMessage] [reviewEvent])))
     = [1734354000, 1734350400]
   \<and> \<not> sorted (map (timestamp \<circ> cn_meeting)
       (take 3 (conflicts (auditUser exampleRuntime mondayEvening False noAnswer
          [tenMessage, elevenMessage] [reviewEvent]))))"
proof -
  have a: "map (timestamp \<circ> cn_meeting)
       (take 3 (conflicts (auditUser exampleRuntime mondayEvening False noAnswer
          [tenMessage, elevenMessage] [reviewEvent])))
     = [1734354000, 1734350400]"
    by code_simp
  show ?thesis unfolding a by simp
qed

subsection \<open>End to end: "Let's meet tomorrow at 3"\<close>

lemma detectMeetings_meetMessage: "detectMeetings mondayEvening [meetMessage] = [meetDetection]"
  by (simp add: detectMeetings_def map_filter_simps analyzeMessage_meetMessage)

lemma meetDetection_facts:
  "parsedDates meetDetection = [ValidDate \<lparr>day = 20074, hours = 21, minutes = 30\<rparr>]
   \<and> getDay (nowLocal mondayEvening) = 1
   \<and> getDay \<lparr>day = 20074, hours = 21, minutes = 30\<rparr> = 2
   \<and> confidence meetDetection = 0.85
   \<and> detectedTime meetDetection = None
   \<and> extractTimes (js ''Let's meet tomorrow at 3'') = []
   \<and> isValidMeeting (getFallbackResult meetDetection)
   \<and> llm_confidence (getFallbackResult meetDetection) = Some 85
   \<and> extractedDateTime (getFallbackResult meetDetection) = None
   \<and> extractedLocation (getFallbackResult meetDetection) = None
   \<and> extractedParticipants (getFallbackResult meetDetection) = None
   \<and> meetingType (getFallbackResult meetDetection) = None
   \<and> start_dateTime coffeeEvent = Some (js ''2024-12-17T15:00:00'')
   \<and> \<not> timesMatch (js ''3'') (js ''15:00'')"
  by code_simp

lemma enhance_meetDetection:
  "enhanceWithLLMAnalysis rt clk False ask [meetDetection] msgs
     = [meetDetection\<lparr>llmAnalysis := Some (getFallbackResult meetDetection)\<rparr>]"
  using meetDetection_facts
  by (simp add: enhanceWithLLMAnalysis_def map_filter_simps enhanceOne_def Let_def
        analyzeConversation_def numGreater_def jtruthyOpt_def meetDetection_def)

lemma coffee_day_match:
  assumes "dateParse rt (js ''2024-12-17T15:00:00'') = ValidDate \<lparr>day = 20074, hours = 15, minutes = 0\<rparr>"
  shows "dayMatches rt [ValidDate \<lparr>day = 20074, hours = 21, minutes = 30\<rparr>] [coffeeEvent] = [coffeeEvent]"
proof -
  have "orElse (start_dateTime coffeeEvent) (start_date coffeeEvent) = Some (js ''2024-12-17T15:00:00'')"
    by (simp add: orElse_def truthy_def coffeeEvent_def js_def)
  then have "eventStart rt coffeeEvent = ValidDate \<lparr>day = 20074, hours = 15, minutes = 0\<rparr>"
    using assms by (simp add: eventStart_def)
  then show ?thesis
    by (simp add: dayMatches_def sameDay_def sameTime_def dateOnly_def)
qed

text \<open>
  C1, as the code has it. The message "Let's meet tomorrow at 3", read on a Monday with
  the analyzer disabled, gives one candidate: its date resolves to the Tuesday, its
  confidence is 0.85 (above the fallback threshold 0.3, so the fallback verdict is valid),
  and it has no time token, since no time pattern matches a bare hour. Against an event on
  that Tuesday at 15:00, in both runners, the only entry is Confirmed with the detail
  "Date match, time unclear". This holds for every runtime whose date parser reads the
  start of the event as that Tuesday, 15:00.
\<close>

theorem tomorrow_at_3_date_match_only:
  "dateParse rt (js ''2024-12-17T15:00:00'') = ValidDate \<lparr>day = 20074, hours = 15, minutes = 0\<rparr> \<longrightarrow>
     detectMeetings mondayEvening [meetMessage] = [meetDetection]
     \<and> getDay (nowLocal mondayEvening) = 1
     \<and> parsedDates meetDetection = [ValidDate \<lparr>day = 20074, hours = 21, minutes = 30\<rparr>]
     \<and> getDay \<lparr>day = 20074, hours = 21, minutes = 30\<rparr> = 2
     \<and> confidence meetDetection = 0.85 \<and> confidence meetDetection > 0.3
     \<and> isValidMeeting (getFallbackResult meetDetection)
     \<and> detectedTime meetDetection = None
     \<and> auditUser_simple rt mondayEvening [meetMessage] [coffeeEvent]
         = \<lparr>conflicts = [], missingEvents = [],
            confirmedMeetings =
              [\<lparr>cf_meeting = meetDetection, cf_calendarEvent = coffeeEvent,
                cf_reason = js ''Date match, time unclear''\<rparr>]\<rparr>
     \<and> auditUser rt mondayEvening False ask [meetMessage] [coffeeEvent]
         = \<lparr>conflicts = [], missingEvents = [],
            confirmedMeetings =
              [\<lparr>cf_meeting = meetDetection\<lparr>llmAnalysis := Some (getFallbackResult meetDetection)\<rparr>,
                cf_calendarEvent = coffeeEvent,
                cf_reason = js ''Date match, time unclear''\<rparr>]\<rparr>"
proof (intro impI)
  assume p: "dateParse rt (js ''2024-12-17T15:00:00'') = ValidDate \<lparr>day = 20074, hours = 15, minutes = 0\<rparr>"
  let ?d = "meetDetection\<lparr>llmAnalysis := Some (getFallbackResult meetDetection)\<rparr>"
  have pd: "parsedDates meetDetection = [ValidDate \<lparr>day = 20074, hours = 21, minutes = 30\<rparr>]"
    "detectedTime meetDetection = None" "llmDateTime meetDetection = None"
    by (simp_all add: meetDetection_def)
  have dm: "dayMatches rt (parsedDates meetDetection) [coffeeEvent] = [coffeeEvent]"
    using coffee_day_match[OF p] pd by simp
  have t: "detectedTimeLower meetDetection = None" "detectedTimeLower ?d = None"
    using pd by (simp_all add: detectedTimeLower_def truthy_def)
  have simple: "auditUser_simple rt mondayEvening [meetMessage] [coffeeEvent]
         = \<lparr>conflicts = [], missingEvents = [],
            confirmedMeetings =
              [\<lparr>cf_meeting = meetDetection, cf_calendarEvent = coffeeEvent,
                cf_reason = js ''Date match, time unclear''\<rparr>]\<rparr>"
    using dm t
    by (simp add: auditUser_simple_def detectMeetings_meetMessage analyzeConflictsAndMissing_simple_eq
          conflictsOf_simple_def confirmedOf_simple_def missingOf_simple_def conflictsFor_def
          confirmedFor_def timeConflict_def confirmedEntry_def timeComparable_def truthy_def)
  have md: "meetingDatesOf rt ?d = parsedDates meetDetection"
    using pd by (simp add: meetingDatesOf_def llmDates_def)
  have mt: "meetingTimeForComparison rt ?d = None"
    using pd t by (simp add: meetingTimeForComparison_def llmTime_def)
  have llm: "auditUser rt mondayEvening False ask [meetMessage] [coffeeEvent]
         = \<lparr>conflicts = [], missingEvents = [],
            confirmedMeetings =
              [\<lparr>cf_meeting = ?d, cf_calendarEvent = coffeeEvent,
                cf_reason = js ''Date match, time unclear''\<rparr>]\<rparr>"
    using dm md mt
    by (simp add: auditUser_def Let_def sortNewestFirst_def detectMeetings_meetMessage
          enhance_meetDetection analyzeConflictsAndMissing_eq
          conflictsOf_def confirmedOf_def missingOf_def conflictsFor_def
          confirmedFor_def timeConflict_def confirmedEntry_def timeComparable_def truthy_def)
  show "detectMeetings mondayEvening [meetMessage] = [meetDetection]
     \<and> getDay (nowLocal mondayEvening) = 1
     \<and> parsedDates meetDetection = [ValidDate \<lparr>day = 20074, hours = 21, minutes = 30\<rparr>]
     \<and> getDay \<lparr>day = 20074, hours = 21, minutes = 30\<rparr> = 2
     \<and> confidence meetDetection = 0.85 \<and> confidence meetDetection > 0.3
     \<and> isValidMeeting (getFallbackResult meetDetection)
     \<and> detectedTime meetDetection = None
     \<and> auditUser_simple rt mondayEvening [meetMessage] [coffeeEvent]
         = \<lparr>conflicts = [], missingEvents = [],
            confirmedMeetings =
              [\<lparr>cf_meeting = meetDetection, cf_calendarEvent = coffeeEvent,
                cf_reason = js ''Date match, time unclear''\<rparr>]\<rparr>
     \<and> auditUser rt mondayEvening False ask [meetMessage] [coffeeEvent]
         = \<lparr>conflicts = [], missingEvents = [],
            confirmedMeetings =
              [\<lparr>cf_meeting = ?d, cf_calendarEvent = coffeeEvent,
                cf_reason = js ''Date match, time unclear''\<rparr>]\<rparr>"
    using detectMeetings_meetMessage meetDetection_facts simple llm by simp
qed

lemma exampleRuntime_coffee:
  "dateParse exampleRuntime (js ''2024-12-17T15:00:00'') = ValidDate \<lparr>day = 20074, hours = 15, minutes = 0\<rparr>"
  by code_simp

theorem tomorrow_at_3_date_match_only_witness:
  "map cf_reason (confirmedMeetings (auditUser_simple exampleRuntime mondayEvening [meetMessage] [coffeeEvent]))
     = [js ''Date match, time unclear'']
   \<and> map cf_reason (confirmedMeetings (auditUser exampleRuntime mondayEvening False noAnswer [meetMessage] [coffeeEvent]))
     = [js ''Date match, time unclear'']
   \<and> conflicts (auditUser_simple exampleRuntime mondayEvening [meetMessage] [coffeeEvent]) = []"
  using tomorrow_at_3_date_match_only [of exampleRuntime noAnswer] exampleRuntime_coffee
  by simp

text \<open>
  C1 as stated fails: the detail is not "Time and date match". The times are never
  compared, because the message has no time token; and the loose comparison would
  reject "3" against "15:00" (neither contains the other).
\<close>

theorem tomorrow_at_3_counterexample:
  "js ''Time and date match'' \<notin> set (map cf_reason (confirmedMeetings
       (auditUser_simple exampleRuntime mondayEvening [meetMessage] [coffeeEvent])))
   \<and> js ''Time and date match'' \<notin> set (map cf_reason (confirmedMeetings
       (auditUser exampleRuntime mondayEvening False noAnswer [meetMessage] [coffeeEvent])))
   \<and> extractTimes (js ''Let's meet tomorrow at 3'') = []
   \<and> \<not> timesMatch (js ''3'') (js ''15:00'')"
  by code_simp

end
